(* ===== verification/Prelude.thy ===== *)
theory Prelude
  imports Main "HOL-Library.Word"
begin

text \<open>
  Shared vocabulary of the development: results as sums, byte strings, the parts of the
  Rust standard library that the modelled code calls (\<open>split\<close>, \<open>trim\<close>, \<open>chunks_exact\<close>,
  saturating arithmetic, \<open>strip_prefix\<close>) and the generic lemmas about them.

  A Rust \<open>String\<close> or \<open>&str\<close> is a \<open>string\<close> holding its UTF-8 bytes, so \<open>length\<close> is the byte
  length that \<open>len()\<close> returns; a \<open>Vec<u8>\<close> or \<open>[u8; N]\<close> is a \<open>byte list\<close>.  A \<open>Result<T, E>\<close>
  is \<open>('e, 'a) result\<close>, with \<open>Inl\<close> the error.
\<close>

section \<open>Collections of rewrite rules\<close>

named_theorems res_simps \<open>unfolding of the result combinators\<close>
named_theorems gate_elims \<open>inversion of a gate that returned a success\<close>

section \<open>Results\<close>

type_synonym ('e, 'a) result = "'e + 'a"

definition bind_res :: "('e, 'a) result \<Rightarrow> ('a \<Rightarrow> ('e, 'b) result) \<Rightarrow> ('e, 'b) result" where
  "bind_res r f = (case r of Inl e \<Rightarrow> Inl e | Inr x \<Rightarrow> f x)"

definition map_err :: "('e \<Rightarrow> 'd) \<Rightarrow> ('e, 'a) result \<Rightarrow> ('d, 'a) result" where
  "map_err h r = (case r of Inl e \<Rightarrow> Inl (h e) | Inr x \<Rightarrow> Inr x)"

definition map_ok :: "('a \<Rightarrow> 'b) \<Rightarrow> ('e, 'a) result \<Rightarrow> ('e, 'b) result" where
  "map_ok h r = (case r of Inl e \<Rightarrow> Inl e | Inr x \<Rightarrow> Inr (h x))"

definition ok_or :: "'e \<Rightarrow> 'a option \<Rightarrow> ('e, 'a) result" where
  "ok_or e x = (case x of None \<Rightarrow> Inl e | Some y \<Rightarrow> Inr y)"

definition ensure :: "bool \<Rightarrow> 'e \<Rightarrow> ('e, unit) result" where
  "ensure b e = (if b then Inr () else Inl e)"

definition is_ok :: "('e, 'a) result \<Rightarrow> bool" where
  "is_ok r = (case r of Inl _ \<Rightarrow> False | Inr _ \<Rightarrow> True)"

text \<open>\<open>slice::first\<close>, \<open>slice::get\<close> and \<open>Option::unwrap_or\<close>.\<close>

definition first :: "'a list \<Rightarrow> 'a option" where
  "first xs = (case xs of [] \<Rightarrow> None | x # _ \<Rightarrow> Some x)"

definition get :: "nat \<Rightarrow> 'a list \<Rightarrow> 'a option" where
  "get i xs = (if i < length xs then Some (xs ! i) else None)"

definition unwrap_or :: "'a \<Rightarrow> 'a option \<Rightarrow> 'a" where
  "unwrap_or d x = (case x of None \<Rightarrow> d | Some y \<Rightarrow> y)"

text \<open>\<open>collect\<close> into a \<open>Result<Vec<_>, _>\<close>: the first error wins.\<close>

fun map_res :: "('a \<Rightarrow> ('e, 'b) result) \<Rightarrow> 'a list \<Rightarrow> ('e, 'b list) result" where
  "map_res f [] = Inr []"
| "map_res f (x # xs) = bind_res (f x) (\<lambda>y. bind_res (map_res f xs) (\<lambda>ys. Inr (y # ys)))"

text \<open>A \<open>for\<close> loop over a mutable state with \<open>?\<close> in its body.\<close>

fun fold_res :: "('a \<Rightarrow> 's \<Rightarrow> ('e, 's) result) \<Rightarrow> 'a list \<Rightarrow> 's \<Rightarrow> ('e, 's) result" where
  "fold_res f [] s = Inr s"
| "fold_res f (x # xs) s = bind_res (f x s) (fold_res f xs)"

lemma bind_res_simps [simp, res_simps]:
  "bind_res (Inl e) f = Inl e"
  "bind_res (Inr x) f = f x"
  by (simp_all add: bind_res_def)

lemma map_err_simps [simp, res_simps]:
  "map_err h (Inl e) = Inl (h e)"
  "map_err h (Inr x) = Inr x"
  by (simp_all add: map_err_def)

lemma map_ok_simps [simp, res_simps]:
  "map_ok h (Inl e) = Inl e"
  "map_ok h (Inr x) = Inr (h x)"
  by (simp_all add: map_ok_def)

lemma ok_or_simps [simp, res_simps]:
  "ok_or e None = Inl e"
  "ok_or e (Some y) = Inr y"
  by (simp_all add: ok_or_def)

lemma ensure_simps [simp, res_simps]:
  "ensure True e = Inr ()"
  "ensure False e = Inl e"
  by (simp_all add: ensure_def)

lemma is_ok_simps [simp, res_simps]:
  "is_ok (Inl e) = False"
  "is_ok (Inr x) = True"
  by (simp_all add: is_ok_def)

lemma bind_res_eq_Inr: "bind_res r f = Inr y \<longleftrightarrow> (\<exists>x. r = Inr x \<and> f x = Inr y)"
  by (cases r) auto

lemma bind_res_eq_Inl:
  "bind_res r f = Inl e \<longleftrightarrow> r = Inl e \<or> (\<exists>x. r = Inr x \<and> f x = Inl e)"
  by (cases r) auto

lemma map_err_eq_Inr [simp]: "map_err h r = Inr y \<longleftrightarrow> r = Inr y"
  by (cases r) auto

lemma map_err_eq_Inl: "map_err h r = Inl d \<longleftrightarrow> (\<exists>e. r = Inl e \<and> d = h e)"
  by (cases r) auto

lemma map_ok_eq_Inr: "map_ok h r = Inr y \<longleftrightarrow> (\<exists>x. r = Inr x \<and> y = h x)"
  by (cases r) auto

lemma ok_or_eq_Inr [simp]: "ok_or e x = Inr y \<longleftrightarrow> x = Some y"
  by (cases x) auto

lemma ok_or_eq_Inl: "ok_or e x = Inl d \<longleftrightarrow> x = None \<and> d = e"
  by (cases x) auto

lemma ensure_eq_Inr [simp]: "ensure b e = Inr u \<longleftrightarrow> b"
  by (cases b) auto

lemma ensure_eq_Inl: "ensure b e = Inl d \<longleftrightarrow> \<not> b \<and> d = e"
  by (cases b) auto

lemma is_ok_iff: "is_ok r \<longleftrightarrow> (\<exists>x. r = Inr x)"
  by (cases r) auto

lemma not_is_ok_iff: "\<not> is_ok r \<longleftrightarrow> (\<exists>e. r = Inl e)"
  by (cases r) auto

lemma bind_resE [elim, gate_elims]:
  assumes "bind_res r f = Inr y"
  obtains x where "r = Inr x" "f x = Inr y"
  using assms by (auto simp: bind_res_eq_Inr)

lemmas res_eq = bind_res_eq_Inr bind_res_eq_Inl map_err_eq_Inl map_ok_eq_Inr
  ok_or_eq_Inl ensure_eq_Inl

lemma map_res_eq_Inr: "map_res f xs = Inr ys \<longleftrightarrow> list_all2 (\<lambda>x y. f x = Inr y) xs ys"
proof (induction xs arbitrary: ys)
  case Nil
  then show ?case by auto
next
  case (Cons x xs)
  then show ?case
    by (cases ys) (auto simp: bind_res_eq_Inr)
qed

lemma map_res_length: "map_res f xs = Inr ys \<Longrightarrow> length ys = length xs"
  by (simp add: map_res_eq_Inr list_all2_lengthD)

lemma map_res_all_ok: "(\<And>x. x \<in> set xs \<Longrightarrow> f x = Inr (g x)) \<Longrightarrow> map_res f xs = Inr (map g xs)"
  by (induction xs) auto

lemma map_res_mem: "map_res f xs = Inr ys \<Longrightarrow> y \<in> set ys \<Longrightarrow> \<exists>x \<in> set xs. f x = Inr y"
  by (induction xs arbitrary: ys) (auto simp: bind_res_eq_Inr)

lemma map_res_Inl_ex: "map_res f xs = Inl e \<Longrightarrow> \<exists>x \<in> set xs. f x = Inl e"
  by (induction xs) (auto simp: bind_res_eq_Inl)

lemma fold_res_append: "fold_res f (xs @ ys) s = bind_res (fold_res f xs s) (fold_res f ys)"
  by (induction xs arbitrary: s) (auto simp: bind_res_def split: sum.splits)

lemma fold_res_ok:
  assumes "\<And>x s. is_ok (f x s)"
  shows "is_ok (fold_res f xs s)"
proof (induction xs arbitrary: s)
  case (Cons x xs)
  obtain y where "f x s = Inr y" using assms [of x s] by (auto simp: is_ok_iff)
  then show ?case using Cons.IH by simp
qed simp

section \<open>Machine integers\<close>

type_synonym byte = "8 word"
type_synonym u16 = "16 word"
type_synonym u32 = "32 word"
type_synonym u64 = "64 word"

definition usize_max :: nat where
  "usize_max = 2 ^ 64 - 1"

text \<open>\<open>saturating_add\<close>, \<open>checked_add\<close> and \<open>checked_mul\<close> at the width of the operands.\<close>

definition saturating_add :: "'w::len word \<Rightarrow> 'w word \<Rightarrow> 'w word" where
  "saturating_add a b = (if unat a + unat b < 2 ^ LENGTH('w) then a + b else - 1)"

definition checked_add :: "'w::len word \<Rightarrow> 'w word \<Rightarrow> 'w word option" where
  "checked_add a b = (if unat a + unat b < 2 ^ LENGTH('w) then Some (a + b) else None)"

definition checked_mul :: "'w::len word \<Rightarrow> 'w word \<Rightarrow> 'w word option" where
  "checked_mul a b = (if unat a * unat b < 2 ^ LENGTH('w) then Some (a * b) else None)"

lemma unat_lt2p: "unat (a :: 'w::len word) < 2 ^ LENGTH('w)"
  by (rule unsigned_less)

lemma unat_minus_one_word: "unat (- 1 :: 'w::len word) = 2 ^ LENGTH('w) - 1"
  by (simp add: unsigned_minus_1_eq_mask mask_eq_exp_minus_1)

lemma unat_saturating_add:
  fixes a b :: "'w::len word"
  shows "unat (saturating_add a b) = min (unat a + unat b) (2 ^ LENGTH('w) - 1)"
proof (cases "unat a + unat b < 2 ^ LENGTH('w)")
  case True
  then show ?thesis by (simp add: saturating_add_def unat_word_ariths)
next
  case False
  then show ?thesis by (simp add: saturating_add_def unat_minus_one_word)
qed

lemma saturating_add_ge: "a \<le> saturating_add a b"
proof -
  have "unat a < 2 ^ LENGTH('a)" by (rule unat_lt2p)
  then have "unat a \<le> unat (saturating_add a b)"
    unfolding unat_saturating_add by linarith
  then show ?thesis by (simp add: word_le_nat_alt)
qed

lemma saturating_add_1_gt: "a < - 1 \<Longrightarrow> a < saturating_add a 1"
proof -
  assume "a < - 1"
  then have "unat a < 2 ^ LENGTH('a) - 1"
    by (simp add: word_less_nat_alt unat_minus_one_word)
  then show ?thesis
    by (simp add: word_less_nat_alt unat_saturating_add)
qed

lemma checked_add_Some:
  "checked_add a b = Some c \<Longrightarrow> unat c = unat a + unat b"
  by (auto simp: checked_add_def unat_word_ariths split: if_splits)

lemma checked_mul_Some:
  "checked_mul a b = Some c \<Longrightarrow> unat c = unat a * unat b"
  by (auto simp: checked_mul_def unat_word_ariths split: if_splits)

section \<open>Bytes and strings\<close>

definition byte_of_char :: "char \<Rightarrow> byte" where
  "byte_of_char c = of_nat (of_char c)"

definition char_of_byte :: "byte \<Rightarrow> char" where
  "char_of_byte b = char_of (unat b)"

definition as_bytes :: "string \<Rightarrow> byte list" where
  "as_bytes s = map byte_of_char s"

definition str_of_bytes :: "byte list \<Rightarrow> string" where
  "str_of_bytes bs = map char_of_byte bs"

lemma of_char_less_256: "(of_char c :: nat) < 256"
  by simp

lemma unat_byte_of_char [simp]: "unat (byte_of_char c) = of_char c"
  by (simp add: byte_of_char_def unat_of_nat)

lemma char_of_byte_of_char [simp]: "char_of_byte (byte_of_char c) = c"
  by (simp add: char_of_byte_def)

lemma byte_of_char_of_byte [simp]: "byte_of_char (char_of_byte b) = b"
proof -
  have "unat b < 256" using unat_lt2p [of b] by simp
  then have "unat (byte_of_char (char_of_byte b)) = unat b"
    by (simp add: char_of_byte_def)
  then show ?thesis by (simp add: word_unat_eq_iff)
qed

lemma length_as_bytes [simp]: "length (as_bytes s) = length s"
  by (simp add: as_bytes_def)

lemma length_str_of_bytes [simp]: "length (str_of_bytes b) = length b"
  by (simp add: str_of_bytes_def)

lemma str_of_bytes_as_bytes [simp]: "str_of_bytes (as_bytes s) = s"
  by (simp add: as_bytes_def str_of_bytes_def comp_def)

lemma as_bytes_str_of_bytes [simp]: "as_bytes (str_of_bytes b) = b"
  by (simp add: as_bytes_def str_of_bytes_def comp_def)

lemma as_bytes_append [simp]: "as_bytes (s @ t) = as_bytes s @ as_bytes t"
  by (simp add: as_bytes_def)

lemma str_of_bytes_append [simp]: "str_of_bytes (s @ t) = str_of_bytes s @ str_of_bytes t"
  by (simp add: str_of_bytes_def)

lemma char_of_byte_iff: "char_of_byte b = c \<longleftrightarrow> b = byte_of_char c"
  by (metis byte_of_char_of_byte char_of_byte_of_char)

lemma as_bytes_inject [simp]: "as_bytes s = as_bytes t \<longleftrightarrow> s = t"
  by (metis str_of_bytes_as_bytes)

text \<open>Big-endian \<open>u32::to_be_bytes\<close> and \<open>from_be_bytes\<close>, the length prefix of the frames.\<close>

definition be32 :: "nat \<Rightarrow> byte list" where
  "be32 n = map (\<lambda>k. of_nat (n div 256 ^ k)) [3, 2, 1, 0]"

definition of_be32 :: "byte list \<Rightarrow> nat" where
  "of_be32 bs = foldl (\<lambda>n b. n * 256 + unat b) 0 bs"

lemma length_be32 [simp]: "length (be32 n) = 4"
  by (simp add: be32_def)

lemma of_be32_be32:
  assumes "n < 2 ^ 32"
  shows "of_be32 (be32 n) = n"
proof -
  define a where "a = n div 256"
  define b where "b = a div 256"
  define c where "c = b div 256"
  have e: "n div 65536 = b" "n div 16777216 = c"
    by (simp_all add: a_def b_def c_def div_mult2_eq [symmetric])
  have "c < 256" using assms by (simp add: e(2) [symmetric] less_mult_imp_div_less)
  then have "((c * 256 + b mod 256) * 256 + a mod 256) * 256 + n mod 256 = n"
    using div_mult_mod_eq [of n 256] div_mult_mod_eq [of a 256] div_mult_mod_eq [of b 256]
    unfolding a_def [symmetric] b_def [symmetric] c_def [symmetric] by simp
  then show ?thesis
    using \<open>c < 256\<close> by (simp add: of_be32_def be32_def unat_of_nat e a_def [symmetric])
qed

end
