(* ===== verification/Rust_Strings.thy ===== *)
theory Rust_Strings
  imports Prelude "HOL-Library.Sublist"
begin

text \<open>
  The string functions of the Rust standard library that the modelled code calls, on UTF-8
  byte strings.  Unicode white space (the \<open>White_Space\<close> property, which \<open>trim\<close>,
  \<open>split_whitespace\<close> and \<open>char::is_whitespace\<close> use) is given by the byte sequences that
  encode it.
\<close>

section \<open>Splitting and joining\<close>

text \<open>\<open>str::split(c)\<close> for a single character: \<open>n\<close> separators give \<open>n + 1\<close> pieces.\<close>

fun split_char :: "'a \<Rightarrow> 'a list \<Rightarrow> 'a list list" where
  "split_char c [] = [[]]"
| "split_char c (x # xs) =
    (if x = c then [] # split_char c xs
     else (case split_char c xs of [] \<Rightarrow> [[x]] | w # ws \<Rightarrow> (x # w) # ws))"

text \<open>Pieces each preceded by the separator, as the loops that rebuild a path push them.\<close>

definition join_pre :: "'a \<Rightarrow> 'a list list \<Rightarrow> 'a list" where
  "join_pre c ws = concat (map (\<lambda>w. c # w) ws)"

fun join_with :: "'a list \<Rightarrow> 'a list list \<Rightarrow> 'a list" where
  "join_with sep [] = []"
| "join_with sep [w] = w"
| "join_with sep (w # v # vs) = w @ sep @ join_with sep (v # vs)"

lemma split_char_ne [simp]: "split_char c s \<noteq> []"
  by (induction s) (auto split: list.splits)

lemma split_char_no_sep: "w \<in> set (split_char c s) \<Longrightarrow> c \<notin> set w"
  by (induction s arbitrary: w) (auto split: list.splits if_splits)

lemma split_char_piece_subset: "w \<in> set (split_char c s) \<Longrightarrow> set w \<subseteq> set s"
proof (induction s arbitrary: w)
  case (Cons x xs)
  show ?case
  proof (cases "split_char c xs")
    case (Cons v vs)
    then have IH: "set v \<subseteq> set xs" "\<And>u. u \<in> set vs \<Longrightarrow> set u \<subseteq> set xs"
      using Cons.IH by auto
    show ?thesis
      using Cons.prems Cons IH by (auto split: if_splits dest!: subsetD)
  qed simp
qed simp

lemma split_char_plain: "c \<notin> set w \<Longrightarrow> split_char c w = [w]"
  by (induction w) auto

lemma split_char_append_sep: "c \<notin> set w \<Longrightarrow> split_char c (w @ c # s) = w # split_char c s"
  by (induction w) auto

lemma split_char_join_pre:
  assumes "\<forall>w \<in> set ws. c \<notin> set w"
  shows "split_char c (join_pre c ws) = [] # ws"
proof -
  have *: "split_char c (w @ join_pre c vs) = w # vs"
    if "c \<notin> set w" "\<forall>v \<in> set vs. c \<notin> set v" for w vs
    using that
    by (induction vs arbitrary: w) (auto simp: join_pre_def split_char_plain split_char_append_sep)
  show ?thesis using * [of "[]" ws] assms by simp
qed

lemma join_pre_split: "join_with [c] (split_char c s) = s"
proof (induction s)
  case (Cons x xs)
  then show ?case
    by (cases "split_char c xs"; cases "tl (split_char c xs)") auto
qed simp

lemma join_pre_simps [simp]:
  "join_pre c [] = []"
  "join_pre c (w # ws) = c # w @ join_pre c ws"
  by (simp_all add: join_pre_def)

lemma join_pre_append [simp]: "join_pre c (xs @ ys) = join_pre c xs @ join_pre c ys"
  by (simp add: join_pre_def)

section \<open>Prefixes and substrings\<close>

text \<open>\<open>strip_prefix\<close>, \<open>strip_suffix\<close> and \<open>contains\<close> for string patterns.\<close>

definition strip_prefix :: "'a list \<Rightarrow> 'a list \<Rightarrow> 'a list option" where
  "strip_prefix p s = (if take (length p) s = p then Some (drop (length p) s) else None)"

definition strip_suffix :: "'a list \<Rightarrow> 'a list \<Rightarrow> 'a list option" where
  "strip_suffix p s = map_option rev (strip_prefix (rev p) (rev s))"

definition starts_with :: "'a list \<Rightarrow> 'a list \<Rightarrow> bool" where
  "starts_with p s \<longleftrightarrow> take (length p) s = p"

definition ends_with :: "'a list \<Rightarrow> 'a list \<Rightarrow> bool" where
  "ends_with p s \<longleftrightarrow> starts_with (rev p) (rev s)"

fun contains :: "'a list \<Rightarrow> 'a list \<Rightarrow> bool" where
  "contains p [] \<longleftrightarrow> p = []"
| "contains p (x # xs) \<longleftrightarrow> starts_with p (x # xs) \<or> contains p xs"

text \<open>\<open>str::replace\<close>: non-overlapping occurrences from left to right.\<close>

function replace_all :: "'a list \<Rightarrow> 'a list \<Rightarrow> 'a list \<Rightarrow> 'a list" where
  "replace_all p r [] = []"
| "replace_all p r (x # xs) =
    (if p \<noteq> [] \<and> starts_with p (x # xs)
     then r @ replace_all p r (drop (length p) (x # xs))
     else x # replace_all p r xs)"
  by pat_completeness auto
termination
  by (relation "measure (\<lambda>(p, r, s). length s)") (auto simp: Suc_le_eq)

lemma starts_with_iff: "starts_with p s \<longleftrightarrow> (\<exists>t. s = p @ t)"
  by (auto simp: starts_with_def) (metis append_take_drop_id)

lemma starts_with_append [simp]: "starts_with p (p @ t)"
  by (simp add: starts_with_def)

lemma strip_prefix_Some: "strip_prefix p s = Some t \<longleftrightarrow> s = p @ t"
  by (auto simp: strip_prefix_def) (metis append_take_drop_id)

lemma strip_prefix_None: "strip_prefix p s = None \<longleftrightarrow> \<not> starts_with p s"
  by (simp add: strip_prefix_def starts_with_def)

lemma strip_suffix_Some: "strip_suffix p s = Some t \<longleftrightarrow> s = t @ p"
proof -
  have "strip_suffix p s = Some t \<longleftrightarrow> strip_prefix (rev p) (rev s) = Some (rev t)"
    by (auto simp: strip_suffix_def)
  also have "\<dots> \<longleftrightarrow> rev s = rev (t @ p)"
    by (simp add: strip_prefix_Some)
  also have "\<dots> \<longleftrightarrow> s = t @ p"
    by (simp only: rev_is_rev_conv)
  finally show ?thesis .
qed

lemma contains_iff: "contains p s \<longleftrightarrow> (\<exists>a b. s = a @ p @ b)"
proof (induction s)
  case (Cons x xs)
  note IH = Cons.IH
  show ?case
  proof
    assume "contains p (x # xs)"
    then consider "starts_with p (x # xs)" | "contains p xs" by auto
    then show "\<exists>a b. x # xs = a @ p @ b"
    proof cases
      case 1
      then show ?thesis by (metis starts_with_iff append_Nil)
    next
      case 2
      then show ?thesis using Cons.IH by (metis append_Cons)
    qed
  next
    assume "\<exists>a b. x # xs = a @ p @ b"
    then obtain a b where ab: "x # xs = a @ p @ b" by blast
    show "contains p (x # xs)"
    proof (cases a)
      case Nil
      with ab have "starts_with p (x # xs)" by (auto simp: starts_with_iff)
      then show ?thesis by simp
    next
      case (Cons y ys)
      with ab have "contains p xs" using IH by auto
      then show ?thesis by simp
    qed
  qed
qed auto

lemma contains_sublist: "contains p s \<longleftrightarrow> sublist p s"
  by (auto simp: contains_iff sublist_def)

section \<open>White space\<close>

definition ws_chars :: "string list" where
  "ws_chars =
    map (\<lambda>n. [char_of (n :: nat)]) [9, 10, 11, 12, 13, 32]
    @ [[CHR 0xC2, CHR 0x85], [CHR 0xC2, CHR 0xA0], [CHR 0xE1, CHR 0x9A, CHR 0x80]]
    @ map (\<lambda>n. [CHR 0xE2, CHR 0x80, char_of (n :: nat)])
        [128, 129, 130, 131, 132, 133, 134, 135, 136, 137, 138, 168, 169, 175]
    @ [[CHR 0xE2, CHR 0x81, CHR 0x9F], [CHR 0xE3, CHR 0x80, CHR 0x80]]"

text \<open>\<open>strip_any ws s\<close> drops from the front of \<open>s\<close> as long as a member of \<open>ws\<close> is there.\<close>

function strip_any :: "'a list list \<Rightarrow> 'a list \<Rightarrow> 'a list" where
  "strip_any ws s =
    (case find (\<lambda>w. w \<noteq> [] \<and> starts_with w s) ws of
       None \<Rightarrow> s
     | Some w \<Rightarrow> strip_any ws (drop (length w) s))"
  by pat_completeness auto
termination
proof (relation "measure (\<lambda>(ws, s). length s)", goal_cases)
  case (2 ws s w)
  then have "w \<noteq> []" "starts_with w s" by (auto simp: find_Some_iff)
  then have "s \<noteq> []" by (auto simp: starts_with_iff)
  with \<open>w \<noteq> []\<close> show ?case by simp
qed simp

declare strip_any.simps [simp del]

definition trim_start :: "string \<Rightarrow> string" where
  "trim_start s = strip_any ws_chars s"

definition trim_end :: "string \<Rightarrow> string" where
  "trim_end s = rev (strip_any (map rev ws_chars) (rev s))"

definition trim :: "string \<Rightarrow> string" where
  "trim s = trim_end (trim_start s)"

text \<open>The byte length of the white-space character at the front, 0 if there is none.\<close>

definition ws_len :: "string \<Rightarrow> nat" where
  "ws_len s = (case find (\<lambda>w. w \<noteq> [] \<and> starts_with w s) ws_chars of
     None \<Rightarrow> 0 | Some w \<Rightarrow> length w)"

text \<open>\<open>split_whitespace\<close>: the maximal runs of bytes that start no white-space character.\<close>

function split_ws_from :: "string \<Rightarrow> string \<Rightarrow> string list" where
  "split_ws_from acc [] = (if acc = [] then [] else [rev acc])"
| "split_ws_from acc (x # xs) =
    (let n = ws_len (x # xs) in
     if n > 0 then (if acc = [] then [] else [rev acc]) @ split_ws_from [] (drop n (x # xs))
     else split_ws_from (x # acc) xs)"
  by pat_completeness auto
termination
  by (relation "measure (\<lambda>(acc, s). length s)") auto

definition split_whitespace :: "string \<Rightarrow> string list" where
  "split_whitespace s = split_ws_from [] s"

lemma strip_any_suffix: "\<exists>p. s = p @ strip_any ws s"
proof (induction ws s rule: strip_any.induct)
  case (1 ws s)
  show ?case
  proof (cases "find (\<lambda>w. w \<noteq> [] \<and> starts_with w s) ws")
    case None
    then show ?thesis by (simp add: strip_any.simps)
  next
    case (Some w)
    then obtain p where "drop (length w) s = p @ strip_any ws (drop (length w) s)"
      using "1.IH" by blast
    then have "s = (take (length w) s @ p) @ strip_any ws (drop (length w) s)"
      by (metis append.assoc append_take_drop_id)
    moreover have "strip_any ws s = strip_any ws (drop (length w) s)"
      using Some by (subst strip_any.simps) simp
    ultimately show ?thesis by metis
  qed
qed

lemma strip_any_stable:
  "find (\<lambda>w. w \<noteq> [] \<and> starts_with w s) ws = None \<Longrightarrow> strip_any ws s = s"
  by (simp add: strip_any.simps)

lemma strip_any_none: "find (\<lambda>w. w \<noteq> [] \<and> starts_with w (strip_any ws s)) ws = None"
proof (induction ws s rule: strip_any.induct)
  case (1 ws s)
  show ?case
  proof (cases "find (\<lambda>w. w \<noteq> [] \<and> starts_with w s) ws")
    case None
    then show ?thesis by (simp add: strip_any_stable)
  next
    case (Some w)
    then have "strip_any ws s = strip_any ws (drop (length w) s)"
      by (subst strip_any.simps) simp
    then show ?thesis using "1.IH" [OF Some] by simp
  qed
qed

lemma strip_any_idem [simp]: "strip_any ws (strip_any ws s) = strip_any ws s"
  by (rule strip_any_stable) (rule strip_any_none)

lemma trim_start_suffix: "\<exists>p. s = p @ trim_start s"
  unfolding trim_start_def by (rule strip_any_suffix)

lemma trim_end_prefix: "\<exists>q. s = trim_end s @ q"
proof -
  obtain p where "rev s = p @ strip_any (map rev ws_chars) (rev s)"
    using strip_any_suffix by blast
  then have "s = rev (p @ strip_any (map rev ws_chars) (rev s))"
    by (metis rev_rev_ident)
  then show ?thesis unfolding trim_end_def by (metis rev_append)
qed

lemma trim_sublist: "sublist (trim s) s"
proof -
  obtain p q where "s = p @ trim_start s" "trim_start s = trim s @ q"
    using trim_start_suffix trim_end_prefix unfolding trim_def by metis
  then show ?thesis unfolding sublist_def by metis
qed

lemma length_trim_le: "length (trim s) \<le> length s"
  using trim_sublist by (rule sublist_length_le)

lemma set_trim: "set (trim s) \<subseteq> set s"
  using trim_sublist by (rule set_mono_sublist)

lemma trim_Nil [simp]: "trim [] = []"
  using length_trim_le [of "[]"] by simp

text \<open>A string whose bytes are all outside the first and last bytes of white space is its own
  \<open>trim\<close>; ASCII letters, digits and punctuation are such bytes.\<close>

definition plain_char :: "char \<Rightarrow> bool" where
  "plain_char c \<longleftrightarrow> 33 \<le> (of_char c :: nat) \<and> (of_char c :: nat) \<le> 126"

lemma ws_chars_not_plain: "w \<in> set ws_chars \<Longrightarrow> w \<noteq> [] \<and> \<not> plain_char (hd w) \<and> \<not> plain_char (last w)"
  unfolding ws_chars_def plain_char_def by (auto simp: of_char_of)

lemma strip_any_plain_hd:
  assumes "\<And>w. w \<in> set ws \<Longrightarrow> w \<noteq> [] \<Longrightarrow> \<not> P (hd w)" and "s = [] \<or> P (hd s)"
  shows "strip_any ws s = s"
proof (rule strip_any_stable)
  show "find (\<lambda>w. w \<noteq> [] \<and> starts_with w s) ws = None"
    using assms by (auto simp: find_None_iff starts_with_iff)
qed

lemma trim_plain:
  assumes "\<forall>c \<in> set s. plain_char c"
  shows "trim s = s"
proof -
  have "trim_start s = s"
    unfolding trim_start_def
    by (rule strip_any_plain_hd [where P = plain_char])
      (use assms ws_chars_not_plain in \<open>auto intro: hd_in_set\<close>)
  moreover have "strip_any (map rev ws_chars) (rev s) = rev s"
    by (rule strip_any_plain_hd [where P = plain_char])
      (use assms ws_chars_not_plain in \<open>auto simp: hd_rev intro: last_in_set\<close>)
  ultimately show ?thesis by (simp add: trim_def trim_end_def)
qed

lemma trim_newline:
  assumes "\<forall>c \<in> set s. plain_char c" and "s \<noteq> []"
  shows "trim (s @ [CHR 0x0A]) = s"
proof -
  have "trim_start (s @ [CHR 0x0A]) = s @ [CHR 0x0A]"
    unfolding trim_start_def
    by (rule strip_any_plain_hd [where P = plain_char])
      (use assms ws_chars_not_plain in \<open>auto simp: hd_append intro: hd_in_set\<close>)
  moreover have "find (\<lambda>w. w \<noteq> [] \<and> starts_with w (CHR 0x0A # rev s)) (map rev ws_chars) = Some [CHR 0x0A]"
  proof -
    have "char_of (9 :: nat) = CHR 0x09" "char_of (10 :: nat) = CHR 0x0A" by (simp_all add: char_of_eq_iff)
    then show ?thesis by (simp add: ws_chars_def starts_with_def)
  qed
  then have "strip_any (map rev ws_chars) (CHR 0x0A # rev s) = strip_any (map rev ws_chars) (rev s)"
    by (subst strip_any.simps) simp
  moreover have "strip_any (map rev ws_chars) (rev s) = rev s"
    by (rule strip_any_plain_hd [where P = plain_char])
      (use assms ws_chars_not_plain in \<open>auto simp: hd_rev intro: last_in_set\<close>)
  ultimately show ?thesis by (simp add: trim_def trim_end_def)
qed

lemma ws_len_plain: "plain_char x \<Longrightarrow> ws_len (x # xs) = 0"
proof -
  assume x: "plain_char x"
  have "\<not> (w \<noteq> [] \<and> starts_with w (x # xs))" if "w \<in> set ws_chars" for w
    using ws_chars_not_plain [OF that] x by (cases w) (auto simp: starts_with_def)
  then have "find (\<lambda>w. w \<noteq> [] \<and> starts_with w (x # xs)) ws_chars = None"
    unfolding find_None_iff by blast
  then show ?thesis by (simp add: ws_len_def)
qed

lemma split_ws_from_plain:
  "\<forall>c \<in> set s. plain_char c \<Longrightarrow>
    split_ws_from acc s = (if acc = [] \<and> s = [] then [] else [rev acc @ s])"
  by (induction s arbitrary: acc) (auto simp: ws_len_plain)

lemma split_whitespace_plain:
  "\<forall>c \<in> set s. plain_char c \<Longrightarrow> s \<noteq> [] \<Longrightarrow> split_whitespace s = [s]"
  by (simp add: split_whitespace_def split_ws_from_plain)

section \<open>Lines and UTF-8\<close>

text \<open>\<open>str::lines\<close>: a line ends at a line feed, which takes a carriage return before it along; a
  last line without line feed is kept as it is, unless it is empty.\<close>

definition strip_cr :: "string \<Rightarrow> string" where
  "strip_cr l = (case strip_suffix [CHR 0x0D] l of Some r \<Rightarrow> r | None \<Rightarrow> l)"

definition str_lines :: "string \<Rightarrow> string list" where
  "str_lines s =
    (let ps = split_char CHR 0x0A s in
     map strip_cr (butlast ps) @ (if last ps = [] then [] else [last ps]))"

text \<open>\<open>utf8_len bs\<close> is the length of the well-formed UTF-8 sequence at the front, 0 if there is
  none; \<open>from_utf8\<close> accepts a byte string that is a sequence of such.\<close>

definition in_range :: "nat \<Rightarrow> nat \<Rightarrow> byte \<Rightarrow> bool" where
  "in_range lo hi b \<longleftrightarrow> lo \<le> unat b \<and> unat b \<le> hi"

definition utf8_len :: "byte list \<Rightarrow> nat" where
  "utf8_len bs =
    (case bs of
       [] \<Rightarrow> 0
     | a # r \<Rightarrow>
        let b2 = (\<lambda>lo hi. case r of b # _ \<Rightarrow> in_range lo hi b | [] \<Rightarrow> False);
            c = (\<lambda>i. i < length r \<and> in_range 0x80 0xBF (r ! i)) in
        if in_range 0 0x7F a then 1
        else if in_range 0xC2 0xDF a \<and> b2 0x80 0xBF then 2
        else if in_range 0xE0 0xE0 a \<and> b2 0xA0 0xBF \<and> c 1 then 3
        else if in_range 0xE1 0xEC a \<and> b2 0x80 0xBF \<and> c 1 then 3
        else if in_range 0xED 0xED a \<and> b2 0x80 0x9F \<and> c 1 then 3
        else if in_range 0xEE 0xEF a \<and> b2 0x80 0xBF \<and> c 1 then 3
        else if in_range 0xF0 0xF0 a \<and> b2 0x90 0xBF \<and> c 1 \<and> c 2 then 4
        else if in_range 0xF1 0xF3 a \<and> b2 0x80 0xBF \<and> c 1 \<and> c 2 then 4
        else if in_range 0xF4 0xF4 a \<and> b2 0x80 0x8F \<and> c 1 \<and> c 2 then 4
        else 0)"

function utf8_valid :: "byte list \<Rightarrow> bool" where
  "utf8_valid bs =
    (if bs = [] then True
     else if utf8_len bs = 0 then False
     else utf8_valid (drop (utf8_len bs) bs))"
  by pat_completeness auto
termination
  by (relation "measure length") auto

declare utf8_valid.simps [simp del]

definition from_utf8 :: "byte list \<Rightarrow> string option" where
  "from_utf8 bs = (if utf8_valid bs then Some (str_of_bytes bs) else None)"

text \<open>\<open>from_utf8_lossy\<close>: each maximal ill-formed part becomes one replacement character, whose
  encoding is \<open>EF BF BD\<close>.\<close>

definition utf8_bad_len :: "byte list \<Rightarrow> nat" where
  "utf8_bad_len bs =
    (case bs of
       [] \<Rightarrow> 0
     | a # r \<Rightarrow>
        let b2 = (\<lambda>lo hi. case r of b # _ \<Rightarrow> in_range lo hi b | [] \<Rightarrow> False);
            c1 = (1 < length r \<and> in_range 0x80 0xBF (r ! 1));
            three = in_range 0xE0 0xE0 a \<and> b2 0xA0 0xBF \<or> in_range 0xE1 0xEC a \<and> b2 0x80 0xBF
              \<or> in_range 0xED 0xED a \<and> b2 0x80 0x9F \<or> in_range 0xEE 0xEF a \<and> b2 0x80 0xBF;
            four = in_range 0xF0 0xF0 a \<and> b2 0x90 0xBF \<or> in_range 0xF1 0xF3 a \<and> b2 0x80 0xBF
              \<or> in_range 0xF4 0xF4 a \<and> b2 0x80 0x8F in
        if four \<and> c1 then 3 else if three \<or> four then 2 else 1)"

function utf8_lossy :: "byte list \<Rightarrow> byte list" where
  "utf8_lossy bs =
    (if bs = [] then []
     else if utf8_len bs = 0 then [0xEF, 0xBF, 0xBD] @ utf8_lossy (drop (utf8_bad_len bs) bs)
     else take (utf8_len bs) bs @ utf8_lossy (drop (utf8_len bs) bs))"
  by pat_completeness auto
termination
proof (relation "measure length", goal_cases)
  case (2 bs)
  then have "0 < utf8_bad_len bs" by (cases bs) (auto simp: utf8_bad_len_def Let_def)
  with 2 show ?case by simp
qed auto

declare utf8_lossy.simps [simp del]

definition from_utf8_lossy :: "byte list \<Rightarrow> string" where
  "from_utf8_lossy bs = str_of_bytes (utf8_lossy bs)"

text \<open>\<open>is_char_boundary\<close>: a position that starts a character, or the end.\<close>

definition is_char_boundary :: "string \<Rightarrow> nat \<Rightarrow> bool" where
  "is_char_boundary s i \<longleftrightarrow>
    i = length s \<or> (i < length s \<and> \<not> in_range 0x80 0xBF (byte_of_char (s ! i)))"

text \<open>\<open>String::truncate\<close>: nothing happens when the string is not longer; otherwise the cut must fall
  on a character boundary, or the call panics (\<open>None\<close>).\<close>

definition str_truncate :: "nat \<Rightarrow> string \<Rightarrow> string option" where
  "str_truncate n s =
    (if n > length s then Some s
     else if is_char_boundary s n then Some (take n s) else None)"

lemma utf8_valid_ascii: "\<forall>b \<in> set bs. unat b < 128 \<Longrightarrow> utf8_valid bs"
proof (induction bs)
  case (Cons b bs)
  then show ?case
    by (subst utf8_valid.simps) (simp add: utf8_len_def in_range_def)
qed (simp add: utf8_valid.simps)

section \<open>ASCII classes and decimal numbers\<close>

definition is_ascii_digit :: "char \<Rightarrow> bool" where
  "is_ascii_digit c \<longleftrightarrow> 48 \<le> (of_char c :: nat) \<and> (of_char c :: nat) \<le> 57"

definition is_ascii_lowercase :: "char \<Rightarrow> bool" where
  "is_ascii_lowercase c \<longleftrightarrow> 97 \<le> (of_char c :: nat) \<and> (of_char c :: nat) \<le> 122"

definition is_ascii_uppercase :: "char \<Rightarrow> bool" where
  "is_ascii_uppercase c \<longleftrightarrow> 65 \<le> (of_char c :: nat) \<and> (of_char c :: nat) \<le> 90"

definition is_ascii_alphanumeric :: "char \<Rightarrow> bool" where
  "is_ascii_alphanumeric c \<longleftrightarrow>
    is_ascii_digit c \<or> is_ascii_lowercase c \<or> is_ascii_uppercase c"

definition to_ascii_lower :: "char \<Rightarrow> char" where
  "to_ascii_lower c = (if is_ascii_uppercase c then char_of ((of_char c :: nat) + 32) else c)"

definition to_ascii_lowercase :: "string \<Rightarrow> string" where
  "to_ascii_lowercase s = map to_ascii_lower s"

definition eq_ignore_ascii_case :: "string \<Rightarrow> string \<Rightarrow> bool" where
  "eq_ignore_ascii_case s t \<longleftrightarrow> to_ascii_lowercase s = to_ascii_lowercase t"

fun dec_value :: "nat \<Rightarrow> string \<Rightarrow> nat option" where
  "dec_value acc [] = Some acc"
| "dec_value acc (c # cs) =
    (if is_ascii_digit c then dec_value (acc * 10 + (of_char c - 48)) cs else None)"

text \<open>\<open>str::parse\<close> for an unsigned integer with maximum \<open>mx\<close>: one optional plus sign, then at
  least one digit, nothing else, and no overflow.\<close>

definition parse_unsigned :: "nat \<Rightarrow> string \<Rightarrow> nat option" where
  "parse_unsigned mx s =
    (let ds = (case strip_prefix ''+'' s of Some r \<Rightarrow> r | None \<Rightarrow> s) in
     if ds = [] then None
     else case dec_value 0 ds of
       None \<Rightarrow> None
     | Some n \<Rightarrow> if n \<le> mx then Some n else None)"

lemma parse_unsigned_le: "parse_unsigned mx s = Some n \<Longrightarrow> n \<le> mx"
  by (auto simp: parse_unsigned_def Let_def split: option.splits if_splits)

lemma to_ascii_lower_idem [simp]: "to_ascii_lower (to_ascii_lower c) = to_ascii_lower c"
  by (simp add: to_ascii_lower_def is_ascii_uppercase_def of_char_of)

lemma to_ascii_lowercase_idem [simp]:
  "to_ascii_lowercase (to_ascii_lowercase s) = to_ascii_lowercase s"
  by (simp add: to_ascii_lowercase_def)

text \<open>Decimal display of an unsigned integer, and its inverse \<open>dec_value\<close>.\<close>

fun show_nat :: "nat \<Rightarrow> string" where
  "show_nat n = (if n < 10 then [char_of (48 + n)] else show_nat (n div 10) @ [char_of (48 + n mod 10)])"

declare show_nat.simps [simp del]

lemma is_ascii_digit_char_of: "(n :: nat) < 10 \<Longrightarrow> is_ascii_digit (char_of (48 + n))"
  by (simp add: is_ascii_digit_def of_char_of)

lemma dec_value_append:
  "dec_value acc (s @ t) = Option.bind (dec_value acc s) (\<lambda>n. dec_value n t)"
  by (induction acc s rule: dec_value.induct) auto

lemma dec_value_show_nat: "dec_value 0 (show_nat n) = Some n"
proof (induction n rule: show_nat.induct)
  case (1 n)
  have digit: "dec_value m [char_of (48 + d)] = Some (m * 10 + d)" if "d < 10" for m d :: nat
    using that is_ascii_digit_char_of [OF that] by (simp add: of_char_of)
  show ?case
  proof (cases "n < 10")
    case True
    then show ?thesis using digit [of n 0] by (simp add: show_nat.simps)
  next
    case False
    then show ?thesis
      using 1 digit [of "n mod 10" "n div 10"] by (subst show_nat.simps) (simp add: dec_value_append)
  qed
qed

lemma show_nat_inject: "show_nat a = show_nat b \<longleftrightarrow> a = b"
  by (metis dec_value_show_nat option.inject)

lemma show_nat_digits: "\<forall>c \<in> set (show_nat n). is_ascii_digit c"
proof (induction n rule: show_nat.induct)
  case (1 n)
  show ?case
  proof (cases "n < 10")
    case True
    then show ?thesis by (simp add: show_nat.simps [of n] is_ascii_digit_char_of)
  next
    case False
    then have "is_ascii_digit (char_of (48 + n mod 10))" by (intro is_ascii_digit_char_of) simp
    with False 1 show ?thesis by (subst show_nat.simps) auto
  qed
qed

lemma show_nat_ne: "show_nat n \<noteq> []"
  by (subst show_nat.simps) simp

text \<open>\<open>Path::join\<close>: an absolute second part replaces the first.\<close>

definition path_join :: "string \<Rightarrow> string \<Rightarrow> string" where
  "path_join a b =
    (if starts_with ''/'' b then b
     else if a = [] \<or> last a = CHR ''/'' then a @ b
     else a @ ''/'' @ b)"

end
