(* ===== verification/Core_Types.thy ===== *)
theory Core_Types
  imports Rust_Strings
begin

text \<open>
  The crate \<open>archangel-core\<close>: operation modes and risk levels (\<open>mode.rs\<close>), the typed 128-bit
  identifiers (\<open>id.rs\<close>) and the secret wrappers (\<open>secret.rs\<close>).
\<close>

unbundle bit_operations_syntax

section \<open>Modes and risk levels\<close>

datatype OperationMode = ReadOnly | Interactive | Autonomous

datatype RiskLevel = Low | Medium | High | Critical

definition allows_mutation :: "OperationMode \<Rightarrow> bool" where
  "allows_mutation m = (case m of Interactive \<Rightarrow> True | Autonomous \<Rightarrow> True | ReadOnly \<Rightarrow> False)"

definition requires_human_approval :: "OperationMode \<Rightarrow> bool" where
  "requires_human_approval m = (case m of Interactive \<Rightarrow> True | _ \<Rightarrow> False)"

definition requires_two_person_rule :: "RiskLevel \<Rightarrow> bool" where
  "requires_two_person_rule r = (case r of Critical \<Rightarrow> True | _ \<Rightarrow> False)"

text \<open>The derived \<open>Ord\<close> of \<open>RiskLevel\<close> follows the declaration order of its variants.\<close>

primrec risk_rank :: "RiskLevel \<Rightarrow> nat" where
  "risk_rank Low = 0"
| "risk_rank Medium = 1"
| "risk_rank High = 2"
| "risk_rank Critical = 3"

lemma risk_rank_inj: "risk_rank a = risk_rank b \<Longrightarrow> a = b"
  by (cases a; cases b) simp_all

instantiation RiskLevel :: linorder
begin

definition less_eq_RiskLevel :: "RiskLevel \<Rightarrow> RiskLevel \<Rightarrow> bool" where
  "less_eq_RiskLevel a b \<longleftrightarrow> risk_rank a \<le> risk_rank b"

definition less_RiskLevel :: "RiskLevel \<Rightarrow> RiskLevel \<Rightarrow> bool" where
  "less_RiskLevel a b \<longleftrightarrow> risk_rank a < risk_rank b"

instance
  by standard (auto simp: less_eq_RiskLevel_def less_RiskLevel_def dest: risk_rank_inj)

end

lemma two_person_iff_top: "requires_two_person_rule r \<longleftrightarrow> (\<forall>s. s \<le> r)"
proof
  assume "requires_two_person_rule r"
  then have "r = Critical" by (cases r) (simp_all add: requires_two_person_rule_def)
  moreover have "s \<le> Critical" for s by (cases s) (simp_all add: less_eq_RiskLevel_def)
  ultimately show "\<forall>s. s \<le> r" by simp
next
  assume "\<forall>s. s \<le> r"
  then have "Critical \<le> r" by blast
  then show "requires_two_person_rule r"
    by (cases r) (simp_all add: less_eq_RiskLevel_def requires_two_person_rule_def)
qed

lemmas mode_defs = allows_mutation_def requires_human_approval_def requires_two_person_rule_def

section \<open>Hexadecimal digits\<close>

text \<open>\<open>char::from_digit(d, 16)\<close> and the \<open>u8\<close> match that every decoder of the repository
  repeats.  The arms subtract \<open>b'0'\<close>, \<open>b'a'\<close> and \<open>b'A'\<close> at width 8.\<close>

definition from_digit16 :: "nat \<Rightarrow> char option" where
  "from_digit16 d =
    (if d < 10 then Some (char_of (48 + d)) else if d < 16 then Some (char_of (87 + d)) else None)"

definition push_hex_byte :: "byte \<Rightarrow> string" where
  "push_hex_byte b =
    [unwrap_or CHR ''0'' (from_digit16 (unat (drop_bit 4 b))),
     unwrap_or CHR ''0'' (from_digit16 (unat (b AND 0x0f)))]"

definition nibble_value :: "byte \<Rightarrow> byte option" where
  "nibble_value b =
    (if 48 \<le> b \<and> b \<le> 57 then Some (b - 48)
     else if 97 \<le> b \<and> b \<le> 102 then Some (10 + b - 97)
     else if 65 \<le> b \<and> b \<le> 70 then Some (10 + b - 65)
     else None)"

definition join_nibbles :: "byte \<Rightarrow> byte \<Rightarrow> byte" where
  "join_nibbles hi lo = (push_bit 4 hi OR lo)"

lemma join_nibbles_split: "join_nibbles (drop_bit 4 b) (b AND 0x0f) = b"
proof -
  have "(0x0f :: byte) = mask 4" by (simp add: mask_eq_exp_minus_1)
  then have "push_bit 4 (drop_bit 4 b) OR (b AND 0x0f) = push_bit 4 (drop_bit 4 b) OR take_bit 4 b"
    by (simp add: take_bit_eq_mask)
  also have "\<dots> = b"
    by (rule bit_word_eqI) (auto simp: bit_simps)
  finally show ?thesis by (simp add: join_nibbles_def)
qed

lemma byte_of_char_char_of: "n < 256 \<Longrightarrow> byte_of_char (char_of n) = of_nat n"
  by (simp add: byte_of_char_def of_char_of)

lemma nibble_of_digit:
  assumes "n < 16"
  shows "nibble_value (byte_of_char (unwrap_or CHR ''0'' (from_digit16 n))) = Some (of_nat n)"
proof (cases "n < 10")
  case True
  then have "byte_of_char (char_of (48 + n)) = of_nat (48 + n)" by (simp add: byte_of_char_char_of)
  moreover have "unat (of_nat (48 + n) :: byte) = 48 + n"
    unfolding unat_of_nat using True by simp
  then have "nibble_value (of_nat (48 + n)) = Some (of_nat n)"
    using True by (simp add: nibble_value_def word_le_nat_alt)
  ultimately show ?thesis using True by (simp add: from_digit16_def unwrap_or_def)
next
  case False
  then have "byte_of_char (char_of (87 + n)) = of_nat (87 + n)"
    using assms by (simp add: byte_of_char_char_of)
  moreover have "unat (of_nat (87 + n) :: byte) = 87 + n"
    unfolding unat_of_nat using assms by simp
  then have "nibble_value (of_nat (87 + n)) = Some (of_nat n)"
    using False assms by (simp add: nibble_value_def word_le_nat_alt)
  ultimately show ?thesis using False assms by (simp add: from_digit16_def unwrap_or_def)
qed

lemma high_nibble_less: "unat (drop_bit 4 (b :: byte)) < 16"
proof -
  have "unat b < 256" using unat_lt2p [of b] by simp
  then show ?thesis by (simp add: drop_bit_eq_div unat_div)
qed

lemma low_nibble_less: "unat ((b :: byte) AND 0x0f) < 16"
proof -
  have "unat (b AND 0x0f) \<le> unat (0x0f :: byte)"
    by (rule word_and_le1 [unfolded word_le_nat_alt])
  then show ?thesis by simp
qed

lemma nibbles_of_push_hex_byte:
  "map (nibble_value \<circ> byte_of_char) (push_hex_byte b)
    = [Some (drop_bit 4 b), Some (b AND 0x0f)]"
  using nibble_of_digit [OF high_nibble_less [of b]] nibble_of_digit [OF low_nibble_less [of b]]
  by (simp add: push_hex_byte_def)

lemma length_push_hex_byte [simp]: "length (push_hex_byte b) = 2"
  by (simp add: push_hex_byte_def)

section \<open>Identifiers\<close>

datatype IdMessage =
    ExpectedHexChars nat
  | TruncatedHexString
  | InvalidHexCharacter byte

datatype CoreError = InvalidId IdMessage

definition hex_nibble :: "byte \<Rightarrow> (CoreError, byte) result" where
  "hex_nibble b = ok_or (InvalidId (InvalidHexCharacter b)) (nibble_value b)"

fun next_nibble :: "byte list \<Rightarrow> (CoreError, byte \<times> byte list) result" where
  "next_nibble [] = Inl (InvalidId TruncatedHexString)"
| "next_nibble (b # it) = map_ok (\<lambda>v. (v, it)) (hex_nibble b)"

fun fill_slots :: "nat \<Rightarrow> byte list \<Rightarrow> (CoreError, byte list) result" where
  "fill_slots 0 it = Inr []"
| "fill_slots (Suc n) it =
    bind_res (next_nibble it) (\<lambda>(hi, it1).
    bind_res (next_nibble it1) (\<lambda>(lo, it2).
    bind_res (fill_slots n it2) (\<lambda>rest. Inr (join_nibbles hi lo # rest))))"

definition parse_hex16 :: "string \<Rightarrow> (CoreError, byte list) result" where
  "parse_hex16 s =
    (let src = as_bytes s in
     if length src \<noteq> 32 then Inl (InvalidId (ExpectedHexChars (length src)))
     else fill_slots 16 src)"

text \<open>\<open>define_id!\<close> wraps the same 16 bytes twice, as \<open>SessionId\<close> and \<open>ActionId\<close>.  \<open>new\<close> takes the
  16 random bytes as an argument.\<close>

datatype SessionId = SessionId (session_bytes: "byte list")

datatype ActionId = ActionId (action_bytes: "byte list")

definition id_display :: "byte list \<Rightarrow> string" where
  "id_display bytes = concat (map push_hex_byte bytes)"

definition session_id_from_str :: "string \<Rightarrow> (CoreError, SessionId) result" where
  "session_id_from_str s = map_ok SessionId (parse_hex16 s)"

definition action_id_from_str :: "string \<Rightarrow> (CoreError, ActionId) result" where
  "action_id_from_str s = map_ok ActionId (parse_hex16 s)"

lemma length_id_display [simp]: "length (id_display bs) = 2 * length bs"
  by (induction bs) (simp_all add: id_display_def)

lemma fill_slots_display:
  "fill_slots (length bs) (as_bytes (id_display bs)) = Inr bs"
proof (induction bs)
  case (Cons b bs)
  obtain h l where hl: "push_hex_byte b = [h, l]"
    by (simp add: push_hex_byte_def)
  then have "nibble_value (byte_of_char h) = Some (drop_bit 4 b)"
    "nibble_value (byte_of_char l) = Some (b AND 0x0f)"
    using nibbles_of_push_hex_byte [of b] by auto
  moreover have "as_bytes (id_display (b # bs))
      = byte_of_char h # byte_of_char l # as_bytes (id_display bs)"
    using hl by (simp add: id_display_def as_bytes_def)
  ultimately show ?case
    using Cons.IH by (simp add: hex_nibble_def join_nibbles_split)
qed (simp add: id_display_def)

lemma fill_slots_length: "fill_slots n it = Inr bs \<Longrightarrow> length bs = n"
  by (induction n it arbitrary: bs rule: fill_slots.induct) (auto simp: res_eq)

text \<open>An accepted identifier has exactly 16 bytes.\<close>

lemma parse_hex16_length: "parse_hex16 s = Inr bs \<Longrightarrow> length bs = 16"
  by (auto simp: parse_hex16_def Let_def dest: fill_slots_length split: if_splits)

lemma parse_hex16_display: "length bs = 16 \<Longrightarrow> parse_hex16 (id_display bs) = Inr bs"
  using fill_slots_display [of bs] by (simp add: parse_hex16_def)

lemma session_id_round_trip:
  "length (session_bytes i) = 16 \<Longrightarrow> session_id_from_str (id_display (session_bytes i)) = Inr i"
  by (simp add: session_id_from_str_def parse_hex16_display)

section \<open>Secrets\<close>

text \<open>\<open>SecretBytes::ct_eq\<close> compares the lengths first; the comparison of the slices is the one
  of the crate \<open>subtle\<close>, the parameter \<open>slice_ct_eq\<close>.\<close>

datatype SecretString = SecretString (secret_str: string)

datatype SecretBytes = SecretBytes (secret_bytes: "byte list")

definition secret_string_debug :: "SecretString \<Rightarrow> string" where
  "secret_string_debug s = ''SecretString([REDACTED])''"

definition ct_eq :: "(byte list \<Rightarrow> byte list \<Rightarrow> bool) \<Rightarrow> SecretBytes \<Rightarrow> SecretBytes \<Rightarrow> bool" where
  "ct_eq slice_ct_eq a b =
    (if length (secret_bytes a) \<noteq> length (secret_bytes b) then False
     else slice_ct_eq (secret_bytes a) (secret_bytes b))"

lemma ct_eq_iff:
  assumes "\<And>x y. length x = length y \<Longrightarrow> slice_ct_eq x y \<longleftrightarrow> x = y"
  shows "ct_eq slice_ct_eq a b \<longleftrightarrow> a = b"
  using assms by (cases a; cases b) (auto simp: ct_eq_def)

end
