(* ===== verification/Hex_Codec.thy ===== *)
theory Hex_Codec
  imports Core_Types
begin

text \<open>
  The repository has five private copies of a hexadecimal codec (audit log, bundle format,
  operator CLI, executor and daemon binaries).  They differ in their error values and in
  whether they trim white space first.  Each copy is modelled; the interface \<open>hex_decoder\<close> and
  \<open>hex_codec\<close> collect what their callers rely on and are interpreted on every copy.
\<close>

section \<open>Shared loop\<close>

fun chunks_exact2 :: "'a list \<Rightarrow> 'a list list" where
  "chunks_exact2 (a # b # r) = [a, b] # chunks_exact2 r"
| "chunks_exact2 r = []"

fun chunks_remainder2 :: "'a list \<Rightarrow> 'a list" where
  "chunks_remainder2 (a # b # r) = chunks_remainder2 r"
| "chunks_remainder2 r = r"

text \<open>The body of the decoding loop, on one two-byte chunk.\<close>

definition decode_pair :: "'e \<Rightarrow> (byte \<Rightarrow> ('e, byte) result) \<Rightarrow> byte list \<Rightarrow> ('e, byte) result" where
  "decode_pair truncated nib p =
    bind_res (bind_res (ok_or truncated (first p)) nib) (\<lambda>hi.
    bind_res (bind_res (ok_or truncated (get 1 p)) nib) (\<lambda>lo.
    Inr (join_nibbles hi lo)))"

definition hex_encode :: "byte list \<Rightarrow> string" where
  "hex_encode bytes = fold (\<lambda>b s. s @ push_hex_byte b) bytes []"

section \<open>The copies\<close>

datatype HexMessage =
    OddLength nat
  | TruncatedPair
  | BadHexChar byte

text \<open>\<open>archangel-audit/src/hex.rs\<close>\<close>

definition audit_nibble :: "byte \<Rightarrow> (HexMessage, byte) result" where
  "audit_nibble b = ok_or (BadHexChar b) (nibble_value b)"

definition audit_hex_encode :: "byte list \<Rightarrow> string" where
  "audit_hex_encode bytes = hex_encode bytes"

definition audit_hex_decode :: "string \<Rightarrow> (HexMessage, byte list) result" where
  "audit_hex_decode s =
    (let raw = as_bytes s in
     if chunks_remainder2 raw \<noteq> [] then Inl (OddLength (length raw))
     else map_res (decode_pair TruncatedPair audit_nibble) (chunks_exact2 raw))"

text \<open>\<open>archangel-exec-format/src/hex.rs\<close>\<close>

definition bundle_nibble :: "byte \<Rightarrow> (HexMessage, byte) result" where
  "bundle_nibble b = ok_or (BadHexChar b) (nibble_value b)"

definition bundle_hex_encode :: "byte list \<Rightarrow> string" where
  "bundle_hex_encode bytes = hex_encode bytes"

definition bundle_hex_decode :: "string \<Rightarrow> (HexMessage, byte list) result" where
  "bundle_hex_decode s0 =
    (let s = trim s0; raw = as_bytes s in
     if chunks_remainder2 raw \<noteq> [] then Inl (OddLength (length raw))
     else map_res (decode_pair TruncatedPair bundle_nibble) (chunks_exact2 raw))"

text \<open>\<open>archangelctl/src/keys.rs\<close>; its messages carry no detail.\<close>

datatype KeyHexMessage = KeyOddLength | KeyTruncated | KeyInvalidChar

definition keys_nibble :: "byte \<Rightarrow> (KeyHexMessage, byte) result" where
  "keys_nibble b = ok_or KeyInvalidChar (nibble_value b)"

definition keys_encode_hex :: "byte list \<Rightarrow> string" where
  "keys_encode_hex bytes = hex_encode bytes"

definition keys_decode_hex :: "string \<Rightarrow> (KeyHexMessage, byte list) result" where
  "keys_decode_hex s0 =
    (let s = trim s0 in
     if length s mod 2 \<noteq> 0 then Inl KeyOddLength
     else map_res (decode_pair KeyTruncated keys_nibble) (chunks_exact2 (as_bytes s)))"

text \<open>\<open>archangel-execd/src/main.rs\<close>\<close>

definition execd_nibble :: "byte \<Rightarrow> (KeyHexMessage, byte) result" where
  "execd_nibble b = ok_or KeyInvalidChar (nibble_value b)"

definition execd_decode_hex :: "string \<Rightarrow> (KeyHexMessage, byte list) result" where
  "execd_decode_hex s0 =
    (let s = trim s0 in
     if length s mod 2 \<noteq> 0 then Inl KeyOddLength
     else map_res (decode_pair KeyTruncated execd_nibble) (chunks_exact2 (as_bytes s)))"

text \<open>\<open>archangeld/src/main.rs\<close>\<close>

definition daemon_nib :: "byte \<Rightarrow> (KeyHexMessage, byte) result" where
  "daemon_nib b = ok_or KeyInvalidChar (nibble_value b)"

definition daemon_encode_hex :: "byte list \<Rightarrow> string" where
  "daemon_encode_hex bytes = hex_encode bytes"

definition daemon_decode_hex :: "string \<Rightarrow> (KeyHexMessage, byte list) result" where
  "daemon_decode_hex s0 =
    (let s = trim s0 in
     if length s mod 2 \<noteq> 0 then Inl KeyOddLength
     else map_res (decode_pair KeyTruncated daemon_nib) (chunks_exact2 (as_bytes s)))"

lemmas hex_decode_defs = audit_hex_decode_def bundle_hex_decode_def keys_decode_hex_def
  execd_decode_hex_def daemon_decode_hex_def

lemmas hex_nibble_defs = audit_nibble_def bundle_nibble_def keys_nibble_def execd_nibble_def
  daemon_nib_def

lemmas hex_encode_defs = audit_hex_encode_def bundle_hex_encode_def keys_encode_hex_def
  daemon_encode_hex_def

section \<open>Lemmas on the loop\<close>

lemma hex_encode_concat: "hex_encode bytes = concat (map push_hex_byte bytes)"
proof -
  have "fold (\<lambda>b s. s @ push_hex_byte b) bytes acc = acc @ concat (map push_hex_byte bytes)" for acc
    by (induction bytes arbitrary: acc) auto
  then show ?thesis by (simp add: hex_encode_def)
qed

lemma length_hex_encode [simp]: "length (hex_encode bs) = 2 * length bs"
  by (induction bs) (simp_all add: hex_encode_concat)

lemma chunks_remainder2_iff: "chunks_remainder2 xs = [] \<longleftrightarrow> even (length xs)"
  by (induction xs rule: chunks_remainder2.induct) auto

lemma length_chunks_exact2: "length (chunks_exact2 xs) = length xs div 2"
  by (induction xs rule: chunks_exact2.induct) auto

lemma decode_pair_two [simp]:
  "decode_pair e nib [a, b] = bind_res (nib a) (\<lambda>hi. bind_res (nib b) (\<lambda>lo. Inr (join_nibbles hi lo)))"
  by (simp add: decode_pair_def first_def get_def)

lemma map_decode_pairs_encode:
  assumes "\<And>b. nib b = ok_or (e b) (nibble_value b)"
  shows "map_res (decode_pair t nib) (chunks_exact2 (as_bytes (hex_encode bs))) = Inr bs"
proof (induction bs)
  case (Cons b bs)
  obtain h l where hl: "push_hex_byte b = [h, l]" by (simp add: push_hex_byte_def)
  then have "nibble_value (byte_of_char h) = Some (drop_bit 4 b)"
    "nibble_value (byte_of_char l) = Some (b AND 0x0f)"
    using nibbles_of_push_hex_byte [of b] by auto
  moreover have "as_bytes (hex_encode (b # bs))
      = byte_of_char h # byte_of_char l # as_bytes (hex_encode bs)"
    using hl by (simp add: hex_encode_concat as_bytes_def)
  ultimately show ?case using Cons.IH by (simp add: assms join_nibbles_split)
qed (simp add: hex_encode_concat as_bytes_def)

lemma hex_digit_plain: "n < 16 \<Longrightarrow> plain_char (unwrap_or CHR ''0'' (from_digit16 n))"
  by (auto simp: from_digit16_def unwrap_or_def plain_char_def of_char_of)

lemma hex_encode_plain: "\<forall>c \<in> set (hex_encode bs). plain_char c"
  by (auto simp: hex_encode_concat push_hex_byte_def hex_digit_plain high_nibble_less low_nibble_less)

lemma trim_hex_encode [simp]: "trim (hex_encode bs) = hex_encode bs"
  by (rule trim_plain [OF hex_encode_plain])

lemma hex_digit_lower: "n < 16 \<Longrightarrow> to_ascii_lower (unwrap_or CHR ''0'' (from_digit16 n)) = unwrap_or CHR ''0'' (from_digit16 n)"
  by (auto simp: from_digit16_def unwrap_or_def to_ascii_lower_def is_ascii_uppercase_def of_char_of)

lemma hex_encode_lowercase [simp]: "to_ascii_lowercase (hex_encode bs) = hex_encode bs"
  by (induction bs)
    (simp_all add: hex_encode_concat to_ascii_lowercase_def push_hex_byte_def hex_digit_lower
      high_nibble_less low_nibble_less)

section \<open>Interfaces\<close>

text \<open>What a caller that reads a key or a signature relies on: a decoded value is at most half as
  long as its text, and a text that decodes is even in length once trimmed.\<close>

locale hex_decoder =
  fixes decode :: "string \<Rightarrow> ('e, byte list) result"
  assumes decode_length: "decode s = Inr bs \<Longrightarrow> 2 * length bs \<le> length s"
begin

lemma decode_exact:
  assumes "decode s = Inr bs" and "length bs = n"
  shows "2 * n \<le> length s"
  using assms decode_length by blast

lemma short_text_no_key: "length s < 2 * n \<Longrightarrow> decode s = Inr bs \<Longrightarrow> length bs \<noteq> n"
  using decode_exact by fastforce

end

locale hex_codec = hex_decoder decode
  for decode :: "string \<Rightarrow> ('e, byte list) result" +
  fixes encode :: "byte list \<Rightarrow> string"
  assumes decode_encode: "decode (encode bs) = Inr bs"
    and encode_length: "length (encode bs) = 2 * length bs"
begin

lemma encode_inj: "encode a = encode b \<Longrightarrow> a = b"
  using decode_encode by (metis sum.inject(2))

lemma encode_mem_iff: "encode a = encode b \<longleftrightarrow> a = b"
  using encode_inj by blast

end

interpretation audit_hex: hex_codec audit_hex_decode audit_hex_encode
proof
  show "2 * length bs \<le> length s" if "audit_hex_decode s = Inr bs" for s bs
    using that by (auto simp: hex_decode_defs Let_def length_chunks_exact2 dest!: map_res_length
        split: if_splits)
  show "audit_hex_decode (audit_hex_encode bs) = Inr bs" for bs
    by (simp add: hex_decode_defs hex_encode_defs chunks_remainder2_iff
        map_decode_pairs_encode [where e = BadHexChar] audit_nibble_def)
qed (simp add: hex_encode_defs)

interpretation bundle_hex: hex_codec bundle_hex_decode bundle_hex_encode
proof
  show "2 * length bs \<le> length s" if "bundle_hex_decode s = Inr bs" for s bs
    using that length_trim_le [of s]
    by (auto simp: hex_decode_defs Let_def length_chunks_exact2 dest!: map_res_length
        split: if_splits)
  show "bundle_hex_decode (bundle_hex_encode bs) = Inr bs" for bs
    by (simp add: hex_decode_defs hex_encode_defs chunks_remainder2_iff
        map_decode_pairs_encode [where e = BadHexChar] bundle_nibble_def)
qed (simp add: hex_encode_defs)

interpretation keys_hex: hex_codec keys_decode_hex keys_encode_hex
proof
  show "2 * length bs \<le> length s" if "keys_decode_hex s = Inr bs" for s bs
    using that length_trim_le [of s]
    by (auto simp: hex_decode_defs Let_def length_chunks_exact2 dest!: map_res_length
        split: if_splits)
  show "keys_decode_hex (keys_encode_hex bs) = Inr bs" for bs
    by (simp add: hex_decode_defs hex_encode_defs
        map_decode_pairs_encode [where e = "\<lambda>_. KeyInvalidChar"] keys_nibble_def)
qed (simp add: hex_encode_defs)

interpretation execd_hex: hex_codec execd_decode_hex daemon_encode_hex
proof
  show "2 * length bs \<le> length s" if "execd_decode_hex s = Inr bs" for s bs
    using that length_trim_le [of s]
    by (auto simp: hex_decode_defs Let_def length_chunks_exact2 dest!: map_res_length
        split: if_splits)
  show "execd_decode_hex (daemon_encode_hex bs) = Inr bs" for bs
    by (simp add: hex_decode_defs hex_encode_defs
        map_decode_pairs_encode [where e = "\<lambda>_. KeyInvalidChar"] execd_nibble_def)
qed (simp add: hex_encode_defs)

interpretation daemon_hex: hex_codec daemon_decode_hex daemon_encode_hex
proof
  show "2 * length bs \<le> length s" if "daemon_decode_hex s = Inr bs" for s bs
    using that length_trim_le [of s]
    by (auto simp: hex_decode_defs Let_def length_chunks_exact2 dest!: map_res_length
        split: if_splits)
  show "daemon_decode_hex (daemon_encode_hex bs) = Inr bs" for bs
    by (simp add: hex_decode_defs hex_encode_defs
        map_decode_pairs_encode [where e = "\<lambda>_. KeyInvalidChar"] daemon_nib_def)
qed (simp add: hex_encode_defs)

text \<open>The daemon publishes its session key in the encoding that the executor reads; a decoded
  text is the one it was encoded from up to case and surrounding white space.\<close>

lemma nibble_value_Some_less: "nibble_value b = Some v \<Longrightarrow> unat v < 16"
proof -
  assume v: "nibble_value b = Some v"
  consider "48 \<le> b" "b \<le> 57" "v = b - 48" | "97 \<le> b" "b \<le> 102" "v = 10 + b - 97"
    | "65 \<le> b" "b \<le> 70" "v = 10 + b - 65"
    using v by (auto simp: nibble_value_def split: if_splits)
  then show ?thesis
  proof cases
    case 1
    then show ?thesis by (simp add: word_le_nat_alt unat_sub)
  next
    case 2
    then have "v = b - 87" by simp
    with 2 show ?thesis by (simp add: word_le_nat_alt unat_sub)
  next
    case 3
    then have "v = b - 55" by simp
    with 3 show ?thesis by (simp add: word_le_nat_alt unat_sub)
  qed
qed

end
