(* ===== verification/Crypto_Lib.thy ===== *)
theory Crypto_Lib
  imports Hex_Codec
begin

text \<open>
  The cryptographic crates \<open>ed25519-dalek\<close> and \<open>sha2\<close> are parameters: the fields of \<open>Crypto\<close>.
  \<open>crypto_ok\<close> collects the documented behaviour that the code relies on.
\<close>

datatype VerifyingKey = VerifyingKey (vk_bytes: "byte list")

datatype SigningKey = SigningKey (sk_bytes: "byte list")

datatype Signature = Signature (sig_bytes: "byte list")

record Crypto =
  verify_strict :: "VerifyingKey \<Rightarrow> byte list \<Rightarrow> Signature \<Rightarrow> bool"
  vk_from_bytes :: "byte list \<Rightarrow> VerifyingKey option"
  sha256 :: "byte list \<Rightarrow> byte list"
  sign :: "SigningKey \<Rightarrow> byte list \<Rightarrow> Signature"
  verifying_key :: "SigningKey \<Rightarrow> VerifyingKey"

text \<open>A signature made with a key verifies under its public key; a public key is read back from its
  32 bytes; digests have 32 bytes and signatures 64.\<close>

definition crypto_ok :: "Crypto \<Rightarrow> bool" where
  "crypto_ok C \<longleftrightarrow>
    (\<forall>k m. verify_strict C (verifying_key C k) m (sign C k m))
    \<and> (\<forall>k. length (vk_bytes (verifying_key C k)) = 32
           \<and> vk_from_bytes C (vk_bytes (verifying_key C k)) = Some (verifying_key C k))
    \<and> (\<forall>m. length (sha256 C m) = 32)
    \<and> (\<forall>k m. length (sig_bytes (sign C k m)) = 64)"

text \<open>\<open>TryInto<[u8; N]>\<close> for a byte vector.\<close>

definition to_array :: "nat \<Rightarrow> byte list \<Rightarrow> byte list option" where
  "to_array n bs = (if length bs = n then Some bs else None)"

lemma to_array_Some [simp]: "to_array n bs = Some a \<longleftrightarrow> length bs = n \<and> a = bs"
  by (auto simp: to_array_def)

text \<open>A concrete instance for the witnesses: the digest is the zero-padded front of the input, a
  signature is the public key followed by the digest of the message.\<close>

definition pad :: "nat \<Rightarrow> byte list \<Rightarrow> byte list" where
  "pad n bs = take n (bs @ replicate n 0)"

definition sample_crypto :: Crypto where
  "sample_crypto =
    \<lparr> verify_strict = (\<lambda>vk m s. sig_bytes s = pad 32 (vk_bytes vk) @ pad 32 m),
      vk_from_bytes = (\<lambda>bs. if length bs = 32 then Some (VerifyingKey bs) else None),
      sha256 = pad 32,
      sign = (\<lambda>k m. Signature (pad 32 (sk_bytes k) @ pad 32 m)),
      verifying_key = (\<lambda>k. VerifyingKey (pad 32 (sk_bytes k))) \<rparr>"

lemma length_pad [simp]: "length (pad n bs) = n"
  by (simp add: pad_def)

lemma pad_pad [simp]: "pad n (pad n bs) = pad n bs"
  by (simp add: pad_def)

lemma sample_crypto_ok: "crypto_ok sample_crypto"
  by (simp add: crypto_ok_def sample_crypto_def)

end
