(* ===== verification/Exec_Format.thy ===== *)
theory Exec_Format
  imports Crypto_Lib
begin

text \<open>
  The crate \<open>archangel-exec-format\<close>: manifests (\<open>manifest.rs\<close>), the operator trust set
  (\<open>trust.rs\<close>), verification of a bundle (\<open>verify.rs\<close>) and of its arguments (\<open>args.rs\<close>).  A
  \<open>BTreeMap<String, V>\<close> is the association list of its entries in key order, which is the
  order in which the code iterates.  The TOML deserialiser and the regular-expression
  compiler are parameters; a compiled expression is given by the strings it matches.
\<close>

section \<open>Manifest\<close>

datatype ArgType = ArgString

datatype NetworkPolicy = NetNone | NetLoopback | NetEgress

datatype PayloadType = Bash

record Meta =
  m_name :: string
  m_version :: string
  m_risk :: RiskLevel
  m_read_only :: bool
  m_mutates_persistent_state :: bool
  m_requires_network :: bool

record ArgSpec =
  as_ty :: ArgType
  as_regex :: "string option"
  as_required :: bool

record SandboxSpec =
  ss_capabilities :: "string list"
  ss_allowed_paths_ro :: "string list"
  ss_allowed_paths_rw :: "string list"
  ss_syscall_profile :: string
  ss_network :: NetworkPolicy
  ss_cpu_max :: "string option"
  ss_memory_max :: "string option"
  ss_timeout_seconds :: u32

record Payload =
  p_ty :: PayloadType
  p_sha256 :: string
  p_inline :: string

record HealthCheck =
  hc_command :: string
  hc_expect_exit :: "32 word"
  hc_timeout_seconds :: u32

type_synonym 'v btree_map = "(string \<times> 'v) list"

record ExecManifest =
  meta :: Meta
  args :: "ArgSpec btree_map"
  sandbox :: SandboxSpec
  payload :: Payload
  health_check :: "HealthCheck option"

datatype ArgMessage = UndeclaredArg string | MissingArg string | PatternMismatch string

datatype SigMessage = SigHex HexMessage | SigNot64

datatype TrustMessage = TrustHex HexMessage | TrustNot32 | TrustBadKey

datatype ManifestMessage = NotUtf8 | TomlError string

datatype ExecFormatError =
    ExecIo
  | BadSignature SigMessage
  | Untrusted
  | BadTrustFile nat TrustMessage
  | BadManifest ManifestMessage
  | PayloadHashMismatch string string
  | BadArgRegex string string
  | ArgRejected ArgMessage

definition manifest_parse ::
  "(string \<Rightarrow> (string, ExecManifest) result) \<Rightarrow> byte list \<Rightarrow> (ExecFormatError, ExecManifest) result"
where
  "manifest_parse toml_manifest toml_bytes =
    bind_res (ok_or (BadManifest NotUtf8) (from_utf8 toml_bytes)) (\<lambda>text'.
    map_err (BadManifest \<circ> TomlError) (toml_manifest text'))"

section \<open>Arguments\<close>

definition contains_key :: "'v btree_map \<Rightarrow> string \<Rightarrow> bool" where
  "contains_key m k \<longleftrightarrow> map_of m k \<noteq> None"

definition anchored :: "string \<Rightarrow> string" where
  "anchored pattern = [CHR 0x5C] @ ''A(?:'' @ pattern @ '')'' @ [CHR 0x5C] @ ''z''"

type_synonym regex_new = "string \<Rightarrow> (string, string \<Rightarrow> bool) result"

fun check_declared :: "ExecManifest \<Rightarrow> string list \<Rightarrow> (ExecFormatError, unit) result" where
  "check_declared mf [] = Inr ()"
| "check_declared mf (name # rest) =
    (if \<not> contains_key (args mf) name then Inl (ArgRejected (UndeclaredArg name))
     else check_declared mf rest)"

definition check_value :: "regex_new \<Rightarrow> string \<Rightarrow> ArgSpec \<Rightarrow> string \<Rightarrow> (ExecFormatError, unit) result" where
  "check_value regex name spec value =
    (case as_ty spec of ArgString \<Rightarrow>
      (case as_regex spec of
         None \<Rightarrow> Inr ()
       | Some pattern \<Rightarrow>
           bind_res (map_err (BadArgRegex name) (regex (anchored pattern))) (\<lambda>re.
           if \<not> re value then Inl (ArgRejected (PatternMismatch name)) else Inr ())))"

fun check_specs ::
  "regex_new \<Rightarrow> string btree_map \<Rightarrow> ArgSpec btree_map \<Rightarrow> (ExecFormatError, unit) result"
where
  "check_specs regex provided [] = Inr ()"
| "check_specs regex provided ((name, spec) # rest) =
    (case map_of provided name of
       None \<Rightarrow>
         if as_required spec then Inl (ArgRejected (MissingArg name))
         else check_specs regex provided rest
     | Some value \<Rightarrow>
         bind_res (check_value regex name spec value) (\<lambda>_. check_specs regex provided rest))"

definition validate_args ::
  "regex_new \<Rightarrow> ExecManifest \<Rightarrow> string btree_map \<Rightarrow> (ExecFormatError, unit) result"
where
  "validate_args regex mf provided =
    bind_res (check_declared mf (map fst provided)) (\<lambda>_. check_specs regex provided (args mf))"

section \<open>Trust set\<close>

record OperatorTrust =
  trust_keys :: "VerifyingKey list"

definition trust_line :: "Crypto \<Rightarrow> nat \<Rightarrow> string \<Rightarrow> (ExecFormatError, VerifyingKey list) result" where
  "trust_line C lineno raw =
    (let line = trim raw in
     if line = [] \<or> starts_with ''#'' line then Inr []
     else
       let hex_part = unwrap_or line (first (split_whitespace line)) in
       bind_res (map_err (\<lambda>e. BadTrustFile (lineno + 1) (TrustHex e)) (bundle_hex_decode hex_part)) (\<lambda>bytes.
       bind_res (ok_or (BadTrustFile (lineno + 1) TrustNot32) (to_array 32 bytes)) (\<lambda>arr.
       bind_res (ok_or (BadTrustFile (lineno + 1) TrustBadKey) (vk_from_bytes C arr)) (\<lambda>key.
       Inr [key]))))"

definition trust_from_str :: "Crypto \<Rightarrow> string \<Rightarrow> (ExecFormatError, OperatorTrust) result" where
  "trust_from_str C text' =
    map_ok (\<lambda>kss. \<lparr> trust_keys = concat kss \<rparr>)
      (map_res (\<lambda>(lineno, raw). trust_line C lineno raw) (enumerate 0 (str_lines text')))"

definition trust_load ::
  "Crypto \<Rightarrow> (string \<Rightarrow> string option) \<Rightarrow> string \<Rightarrow> (ExecFormatError, OperatorTrust) result"
where
  "trust_load C read_to_string path =
    bind_res (ok_or ExecIo (read_to_string path)) (trust_from_str C)"

section \<open>Verification\<close>

record VerifiedBundle =
  vb_manifest :: ExecManifest

definition parse_signature :: "string \<Rightarrow> (ExecFormatError, Signature) result" where
  "parse_signature signature_text =
    bind_res (map_err (BadSignature \<circ> SigHex) (bundle_hex_decode signature_text)) (\<lambda>bytes.
    bind_res (ok_or (BadSignature SigNot64) (to_array 64 bytes)) (\<lambda>arr. Inr (Signature arr)))"

definition verify_payload_hash :: "Crypto \<Rightarrow> ExecManifest \<Rightarrow> (ExecFormatError, unit) result" where
  "verify_payload_hash C mf =
    (let digest = sha256 C (as_bytes (p_inline (payload mf)));
         actual = bundle_hex_encode digest;
         declared = to_ascii_lowercase (trim (p_sha256 (payload mf))) in
     if actual = declared then Inr () else Inl (PayloadHashMismatch declared actual))"

definition verify_bytes ::
  "Crypto \<Rightarrow> (string \<Rightarrow> (string, ExecManifest) result) \<Rightarrow> byte list \<Rightarrow> string \<Rightarrow> OperatorTrust
    \<Rightarrow> (ExecFormatError, VerifiedBundle) result"
where
  "verify_bytes C toml_manifest manifest_bytes signature_text trust =
    bind_res (parse_signature signature_text) (\<lambda>sig.
    let authenticated = list_ex (\<lambda>key. verify_strict C key manifest_bytes sig) (trust_keys trust) in
    if \<not> authenticated then Inl Untrusted
    else
      bind_res (manifest_parse toml_manifest manifest_bytes) (\<lambda>mf.
      bind_res (verify_payload_hash C mf) (\<lambda>_.
      Inr \<lparr> vb_manifest = mf \<rparr>)))"

text \<open>\<open>read\<close> is the file system: the bytes of a readable file.  \<open>read_to_string\<close> also demands UTF-8.\<close>

definition read_to_string :: "(string \<Rightarrow> byte list option) \<Rightarrow> string \<Rightarrow> string option" where
  "read_to_string read path = Option.bind (read path) from_utf8"

definition bundle_load ::
  "Crypto \<Rightarrow> (string \<Rightarrow> (string, ExecManifest) result) \<Rightarrow> (string \<Rightarrow> byte list option)
    \<Rightarrow> string \<Rightarrow> string \<Rightarrow> OperatorTrust \<Rightarrow> (ExecFormatError, VerifiedBundle) result"
where
  "bundle_load C toml_manifest read exec_path signature_path trust =
    bind_res (ok_or ExecIo (read exec_path)) (\<lambda>manifest_bytes.
    bind_res (ok_or ExecIo (read_to_string read signature_path)) (\<lambda>signature_text.
    verify_bytes C toml_manifest manifest_bytes signature_text trust))"

section \<open>Lemmas\<close>

text \<open>What a verified bundle proves.\<close>

definition authentic ::
  "Crypto \<Rightarrow> OperatorTrust \<Rightarrow> byte list \<Rightarrow> bool"
where
  "authentic C trust bytes \<longleftrightarrow>
    (\<exists>key \<in> set (trust_keys trust). \<exists>sig. length (sig_bytes sig) = 64 \<and> verify_strict C key bytes sig)"

definition payload_bound :: "Crypto \<Rightarrow> ExecManifest \<Rightarrow> bool" where
  "payload_bound C mf \<longleftrightarrow>
    to_ascii_lowercase (trim (p_sha256 (payload mf)))
      = bundle_hex_encode (sha256 C (as_bytes (p_inline (payload mf))))"

lemma check_declared_ok:
  "check_declared mf names = Inr () \<longleftrightarrow> (\<forall>n \<in> set names. contains_key (args mf) n)"
  by (induction names) auto

lemma check_value_ok:
  "check_value regex name spec value = Inr () \<longleftrightarrow>
    (\<forall>p. as_regex spec = Some p \<longrightarrow> (\<exists>re. regex (anchored p) = Inr re \<and> re value))"
  by (cases "as_ty spec") (auto simp: check_value_def bind_res_eq_Inr split: option.splits)

lemma check_specs_ok:
  "check_specs regex provided specs = Inr () \<longleftrightarrow>
    (\<forall>(name, spec) \<in> set specs.
      (case map_of provided name of
         None \<Rightarrow> \<not> as_required spec
       | Some v \<Rightarrow> check_value regex name spec v = Inr ()))"
  by (induction regex provided specs rule: check_specs.induct)
    (auto simp: bind_res_eq_Inr split: option.splits)

lemma parse_signature_length: "parse_signature t = Inr sig \<Longrightarrow> length (sig_bytes sig) = 64"
  by (auto simp: parse_signature_def bind_res_eq_Inr)

lemma parse_signature_encode:
  "length (sig_bytes sig) = 64 \<Longrightarrow> parse_signature (bundle_hex_encode (sig_bytes sig)) = Inr sig"
  by (simp add: parse_signature_def bundle_hex.decode_encode to_array_def)

lemma verify_payload_hash_ok: "verify_payload_hash C mf = Inr () \<longleftrightarrow> payload_bound C mf"
  by (auto simp: verify_payload_hash_def payload_bound_def Let_def)

lemma verify_bytes_ok:
  "verify_bytes C toml_manifest bytes sig_text trust = Inr b \<longleftrightarrow>
    (\<exists>sig. parse_signature sig_text = Inr sig
      \<and> (\<exists>key \<in> set (trust_keys trust). verify_strict C key bytes sig)
      \<and> manifest_parse toml_manifest bytes = Inr (vb_manifest b)
      \<and> payload_bound C (vb_manifest b))"
  unfolding verify_bytes_def verify_payload_hash_ok [symmetric]
  by (auto simp: bind_res_eq_Inr list_ex_iff split: if_splits)

lemma bundle_load_ok:
  assumes "bundle_load C toml_manifest read p q trust = Inr b"
  shows "\<exists>bytes. read p = Some bytes \<and> authentic C trust bytes
    \<and> manifest_parse toml_manifest bytes = Inr (vb_manifest b) \<and> payload_bound C (vb_manifest b)"
proof -
  from assms obtain bytes sig_text where "read p = Some bytes"
    and v: "verify_bytes C toml_manifest bytes sig_text trust = Inr b"
    by (auto simp: bundle_load_def bind_res_eq_Inr)
  moreover from v obtain sig where "parse_signature sig_text = Inr sig"
    "\<exists>key \<in> set (trust_keys trust). verify_strict C key bytes sig"
    "manifest_parse toml_manifest bytes = Inr (vb_manifest b)" "payload_bound C (vb_manifest b)"
    by (auto simp: verify_bytes_ok)
  ultimately show ?thesis
    unfolding authentic_def by (blast dest: parse_signature_length)
qed

text \<open>A signature file is ASCII, so it is read back as the text it was written as.\<close>

lemma hex_text_utf8: "from_utf8 (as_bytes (hex_encode bs)) = Some (hex_encode bs)"
proof -
  have "\<forall>b \<in> set (as_bytes (hex_encode bs)). unat b < 128"
    using hex_encode_plain [of bs] by (auto simp: as_bytes_def plain_char_def)
  then show ?thesis by (simp add: from_utf8_def utf8_valid_ascii)
qed

lemma hex_line_utf8: "from_utf8 (as_bytes (hex_encode bs) @ [0x0A]) = Some (hex_encode bs @ [CHR 0x0A])"
proof -
  have "\<forall>b \<in> set (as_bytes (hex_encode bs) @ [0x0A]). unat b < 128"
    using hex_encode_plain [of bs] by (auto simp: as_bytes_def plain_char_def)
  moreover have "str_of_bytes [0x0A] = [CHR 0x0A]" by (simp add: str_of_bytes_def char_of_byte_iff byte_of_char_def)
  ultimately show ?thesis by (simp add: from_utf8_def utf8_valid_ascii)
qed

text \<open>Nobody trusted: every bundle is rejected.\<close>

lemma empty_trust_rejects:
  "\<not> is_ok (verify_bytes C toml_manifest bytes sig_text \<lparr>trust_keys = []\<rparr>)"
  by (simp add: is_ok_iff verify_bytes_ok)

lemma trust_line_keys:
  "trust_line C n raw = Inr ks \<Longrightarrow> k \<in> set ks \<Longrightarrow>
    \<exists>bytes. length bytes = 32 \<and> vk_from_bytes C bytes = Some k"
  by (auto simp: trust_line_def Let_def bind_res_eq_Inr split: if_splits)

text \<open>Every key of a parsed trust set was accepted by the Ed25519 key decoder from 32 bytes.\<close>

lemma trust_from_str_keys:
  assumes "trust_from_str C t = Inr tr" and "k \<in> set (trust_keys tr)"
  shows "\<exists>bytes. length bytes = 32 \<and> vk_from_bytes C bytes = Some k"
proof -
  from assms(1) obtain kss where kss: "map_res (\<lambda>(n, raw). trust_line C n raw) (enumerate 0 (str_lines t)) = Inr kss"
    and tr: "trust_keys tr = concat kss"
    by (auto simp: trust_from_str_def map_ok_eq_Inr)
  from assms(2) tr obtain ks where ks: "ks \<in> set kss" "k \<in> set ks" by auto
  obtain x where "(case x of (n, raw) \<Rightarrow> trust_line C n raw) = Inr ks"
    using map_res_mem [OF kss ks(1)] by blast
  then show ?thesis using ks(2) trust_line_keys by (cases x) auto
qed

section \<open>Properties\<close>

text \<open>C36: argument validation accepts exactly the argument maps in which every supplied name is
  declared, every required argument is supplied, and every supplied value with a declared
  pattern matches the anchored pattern, which compiles.\<close>

theorem validate_args_iff:
  "validate_args regex mf provided = Inr () \<longleftrightarrow>
    (\<forall>name \<in> set (map fst provided). name \<in> set (map fst (args mf)))
    \<and> (\<forall>(name, spec) \<in> set (args mf).
         (as_required spec \<longrightarrow> name \<in> set (map fst provided))
         \<and> (\<forall>value p. map_of provided name = Some value \<longrightarrow> as_regex spec = Some p \<longrightarrow>
              (\<exists>re. regex (anchored p) = Inr re \<and> re value)))"
proof -
  have key: "contains_key m n \<longleftrightarrow> n \<in> set (map fst m)" for m :: "ArgSpec btree_map" and n
    by (auto simp: contains_key_def map_of_eq_None_iff)
  have spec: "(case map_of provided name of None \<Rightarrow> \<not> as_required spec
        | Some v \<Rightarrow> check_value regex name spec v = Inr ())
      \<longleftrightarrow> (as_required spec \<longrightarrow> name \<in> set (map fst provided))
        \<and> (\<forall>value p. map_of provided name = Some value \<longrightarrow> as_regex spec = Some p \<longrightarrow>
              (\<exists>re. regex (anchored p) = Inr re \<and> re value))" for name spec
  proof (cases "map_of provided name")
    case None
    then have "name \<notin> set (map fst provided)" by (simp add: map_of_eq_None_iff)
    with None show ?thesis by simp
  next
    case (Some v)
    then have "name \<in> set (map fst provided)" by (metis map_of_eq_None_iff option.distinct(1) list.set_map)
    with Some show ?thesis by (simp add: check_value_ok)
  qed
  have "validate_args regex mf provided = Inr () \<longleftrightarrow>
      check_declared mf (map fst provided) = Inr () \<and> check_specs regex provided (args mf) = Inr ()"
    by (auto simp: validate_args_def bind_res_eq_Inr)
  then show ?thesis
    unfolding check_declared_ok check_specs_ok key spec by simp
qed

text \<open>A bundle whose only argument is a required unit name restricted to one word.\<close>

definition sample_regex :: regex_new where
  "sample_regex pat = Inr (\<lambda>v. v \<noteq> [] \<and> list_all is_ascii_alphanumeric v)"

definition sample_manifest :: ExecManifest where
  "sample_manifest =
    \<lparr> meta = \<lparr> m_name = ''unit-status'', m_version = ''1.0.0'', m_risk = Low, m_read_only = True,
        m_mutates_persistent_state = False, m_requires_network = False \<rparr>,
      args = [(''unit'', \<lparr> as_ty = ArgString, as_regex = Some ''[a-zA-Z0-9]+'', as_required = True \<rparr>)],
      sandbox = \<lparr> ss_capabilities = [], ss_allowed_paths_ro = [], ss_allowed_paths_rw = [],
        ss_syscall_profile = ''inspect'', ss_network = NetNone, ss_cpu_max = None,
        ss_memory_max = None, ss_timeout_seconds = 10 \<rparr>,
      payload = \<lparr> p_ty = Bash, p_sha256 = bundle_hex_encode (pad 32 (as_bytes ''true'')), p_inline = ''true'' \<rparr>,
      health_check = None \<rparr>"

theorem validate_args_iff_witness:
  "validate_args sample_regex sample_manifest [(''unit'', ''sshd'')] = Inr ()
    \<and> validate_args sample_regex sample_manifest [(''unit'', ''sshd; rm -rf /'')] \<noteq> Inr ()
    \<and> validate_args sample_regex sample_manifest [] \<noteq> Inr ()"
  unfolding validate_args_iff
  by (simp add: sample_manifest_def sample_regex_def is_ascii_alphanumeric_def is_ascii_digit_def
      is_ascii_lowercase_def is_ascii_uppercase_def)

text \<open>C27: a bundle is accepted exactly when its signature text is the hexadecimal form of 64 bytes
  that verify over the exact manifest bytes under a trusted operator key, those bytes are a valid
  manifest, and the digest of the inline payload is the one that the signed manifest declares.\<close>

theorem verify_bytes_iff:
  "verify_bytes C toml_manifest bytes sig_text trust = Inr b \<longleftrightarrow>
    (\<exists>s key text'.
      bundle_hex_decode sig_text = Inr s \<and> length s = 64
      \<and> key \<in> set (trust_keys trust) \<and> verify_strict C key bytes (Signature s)
      \<and> from_utf8 bytes = Some text' \<and> toml_manifest text' = Inr (vb_manifest b)
      \<and> to_ascii_lowercase (trim (p_sha256 (payload (vb_manifest b))))
          = bundle_hex_encode (sha256 C (as_bytes (p_inline (payload (vb_manifest b))))))"
  unfolding verify_bytes_ok payload_bound_def
  by (auto simp: parse_signature_def manifest_parse_def bind_res_eq_Inr)

text \<open>What an operator signs is accepted: with a key of the trust set, the bytes of a valid
  manifest whose payload digest is right, signed and written in hexadecimal as \<open>sign_bundle\<close>
  does, verify.\<close>

theorem signed_bundle_accepted:
  assumes "crypto_ok C" and "verifying_key C k \<in> set (trust_keys trust)"
    and "from_utf8 bytes = Some text'" and "toml_manifest text' = Inr mf"
    and "p_sha256 (payload mf) = bundle_hex_encode (sha256 C (as_bytes (p_inline (payload mf))))"
  shows "verify_bytes C toml_manifest bytes (bundle_hex_encode (sig_bytes (sign C k bytes))) trust
    = Inr \<lparr> vb_manifest = mf \<rparr>"
proof -
  have "to_ascii_lowercase (trim (p_sha256 (payload mf))) = p_sha256 (payload mf)"
    by (simp add: assms(5) hex_encode_defs hex_encode_lowercase)
  then have "payload_bound C mf" using assms(5) by (simp add: payload_bound_def)
  moreover have "parse_signature (bundle_hex_encode (sig_bytes (sign C k bytes))) = Inr (sign C k bytes)"
    using assms(1) by (intro parse_signature_encode) (simp add: crypto_ok_def)
  moreover have "verify_strict C (verifying_key C k) bytes (sign C k bytes)"
    using assms(1) by (simp add: crypto_ok_def)
  ultimately show ?thesis
    unfolding verify_bytes_ok using assms by (auto simp: manifest_parse_def)
qed

theorem signed_bundle_accepted_witness:
  "verify_bytes sample_crypto (\<lambda>_. Inr sample_manifest) (as_bytes ''[meta]'')
     (bundle_hex_encode (sig_bytes (sign sample_crypto (SigningKey [1, 2]) (as_bytes ''[meta]''))))
     \<lparr> trust_keys = [verifying_key sample_crypto (SigningKey [1, 2])] \<rparr>
   = Inr \<lparr> vb_manifest = sample_manifest \<rparr>"
proof (rule signed_bundle_accepted [OF sample_crypto_ok])
  show "from_utf8 (as_bytes ''[meta]'') = Some ''[meta]''"
    by (simp add: from_utf8_def utf8_valid_ascii as_bytes_def str_of_bytes_def)
qed (simp_all add: sample_manifest_def sample_crypto_def)

end
