(* ===== verification/Files.thy ===== *)
theory Files
  imports Exec_Format
begin

text \<open>
  The files that start-up and the operator's tool read and write: \<open>std::fs\<close> as the sources use it.  A
  disk maps paths to contents and permission bits; an environment says which calls fail, and
  after how many bytes a failing write stops.  Every path is written by one caller only.
\<close>

type_synonym disk = "string \<rightharpoonup> byte list \<times> u32"

record FileEnv =
  fe_read_fails :: "string \<Rightarrow> bool"
  fe_open_fails :: "string \<Rightarrow> bool"
  fe_write_stops :: "string \<Rightarrow> nat option"
  fe_rename_fails :: "string \<Rightarrow> bool"

datatype FileError = FileOpen | FileWrite | FileRename

definition fs_exists :: "disk \<Rightarrow> string \<Rightarrow> bool" where
  "fs_exists d p \<longleftrightarrow> d p \<noteq> None"

definition fs_read :: "FileEnv \<Rightarrow> disk \<Rightarrow> string \<Rightarrow> byte list option" where
  "fs_read F d p = (if fe_read_fails F p then None else map_option fst (d p))"

text \<open>\<open>write_all\<close> into a file just opened.\<close>

definition fs_put :: "FileEnv \<Rightarrow> string \<Rightarrow> u32 \<Rightarrow> byte list \<Rightarrow> disk \<Rightarrow> disk \<times> (FileError, unit) result" where
  "fs_put F p mode bs d =
    (case fe_write_stops F p of
       None \<Rightarrow> (d(p \<mapsto> (bs, mode)), Inr ())
     | Some n \<Rightarrow> (d(p \<mapsto> (take n bs, mode)), Inl FileWrite))"

text \<open>\<open>create_new(true)\<close>, and \<open>create(true).truncate(true)\<close>, which keeps the permissions of a file that
  is there.\<close>

definition fs_create_new :: "FileEnv \<Rightarrow> string \<Rightarrow> u32 \<Rightarrow> byte list \<Rightarrow> disk \<Rightarrow> disk \<times> (FileError, unit) result" where
  "fs_create_new F p mode bs d =
    (if fs_exists d p \<or> fe_open_fails F p then (d, Inl FileOpen) else fs_put F p mode bs d)"

definition fs_overwrite :: "FileEnv \<Rightarrow> string \<Rightarrow> u32 \<Rightarrow> byte list \<Rightarrow> disk \<Rightarrow> disk \<times> (FileError, unit) result" where
  "fs_overwrite F p mode bs d =
    (if fe_open_fails F p then (d, Inl FileOpen)
     else fs_put F p (case d p of Some (_, m) \<Rightarrow> m | None \<Rightarrow> mode) bs d)"

definition fs_rename :: "FileEnv \<Rightarrow> string \<Rightarrow> string \<Rightarrow> disk \<Rightarrow> disk \<times> (FileError, unit) result" where
  "fs_rename F a b d =
    (if d a = None \<or> fe_rename_fails F b then (d, Inl FileRename)
     else if a = b then (d, Inr ())
     else (d(b := d a, a := None), Inr ()))"

section \<open>Sequencing\<close>

type_synonym ('e, 'a) io = "disk \<Rightarrow> disk \<times> ('e, 'a) result"

definition bind_io :: "('e, 'a) io \<Rightarrow> ('a \<Rightarrow> ('e, 'b) io) \<Rightarrow> ('e, 'b) io" where
  "bind_io m k d = (case m d of (d1, Inl e) \<Rightarrow> (d1, Inl e) | (d1, Inr x) \<Rightarrow> k x d1)"

definition lift_io :: "('e, 'a) result \<Rightarrow> ('e, 'a) io" where
  "lift_io r d = (d, r)"

definition look_io :: "(disk \<Rightarrow> ('e, 'a) result) \<Rightarrow> ('e, 'a) io" where
  "look_io f d = (d, f d)"

definition map_err_io :: "('e \<Rightarrow> 'f) \<Rightarrow> ('e, 'a) io \<Rightarrow> ('f, 'a) io" where
  "map_err_io f m d = (case m d of (d1, r) \<Rightarrow> (d1, map_err f r))"

lemma bind_io_Inr:
  "bind_io m k d = (d2, Inr y) \<longleftrightarrow> (\<exists>d1 x. m d = (d1, Inr x) \<and> k x d1 = (d2, Inr y))"
  by (auto simp: bind_io_def split: prod.splits sum.splits)

lemma lift_io_Inr: "lift_io r d = (d2, Inr y) \<longleftrightarrow> d2 = d \<and> r = Inr y"
  by (auto simp: lift_io_def)

lemma look_io_Inr: "look_io f d = (d2, Inr y) \<longleftrightarrow> d2 = d \<and> f d = Inr y"
  by (auto simp: look_io_def)

lemma map_err_io_Inr: "map_err_io f m d = (d2, Inr y) \<longleftrightarrow> m d = (d2, Inr y)"
  by (auto simp: map_err_io_def map_err_eq_Inr split: prod.splits)

lemmas io_Inr = bind_io_Inr lift_io_Inr look_io_Inr map_err_io_Inr

lemma fs_put_cases:
  obtains bs' where "fst (fs_put F p mode bs d) = d(p \<mapsto> (bs', mode))"
    and "snd (fs_put F p mode bs d) = Inr () \<Longrightarrow> bs' = bs"
  by (cases "fe_write_stops F p") (auto simp: fs_put_def)

lemma fs_create_new_Inr:
  "fs_create_new F p mode bs d = (d2, Inr ()) \<longleftrightarrow>
    d p = None \<and> \<not> fe_open_fails F p \<and> fe_write_stops F p = None \<and> d2 = d(p \<mapsto> (bs, mode))"
  by (cases "d p"; cases "fe_write_stops F p") (auto simp: fs_create_new_def fs_put_def fs_exists_def)

lemma fs_overwrite_Inr:
  "fs_overwrite F p mode bs d = (d2, Inr ()) \<longleftrightarrow>
    \<not> fe_open_fails F p \<and> fe_write_stops F p = None \<and> d2 = d(p \<mapsto> (bs, case d p of Some (_, m) \<Rightarrow> m | None \<Rightarrow> mode))"
  by (auto simp: fs_overwrite_def fs_put_def split: option.splits)

text \<open>A write leaves every other path alone, whether or not it succeeds.\<close>

lemma fs_frame:
  assumes "q \<noteq> p"
  shows "fst (fs_put F p mode bs d) q = d q" "fst (fs_create_new F p mode bs d) q = d q"
    "fst (fs_overwrite F p mode bs d) q = d q"
  using assms by (auto simp: fs_put_def fs_create_new_def fs_overwrite_def split: option.splits)

lemma fs_create_new_keeps: "d q \<noteq> None \<Longrightarrow> fst (fs_create_new F p mode bs d) q = d q"
  by (cases "q = p") (auto simp: fs_frame fs_create_new_def fs_exists_def)

lemma fs_rename_Inr:
  "fs_rename F a b d = (d2, Inr ()) \<longleftrightarrow> d a \<noteq> None \<and> \<not> fe_rename_fails F b \<and> d2 = (if a = b then d else d(b := d a, a := None))"
  by (auto simp: fs_rename_def)

lemma fs_read_Some: "fs_read F d p = Some bs \<longleftrightarrow> \<not> fe_read_fails F p \<and> (\<exists>mode. d p = Some (bs, mode))"
  by (auto simp: fs_read_def)

end
