(* ===== verification/Path_Norm.thy ===== *)
theory Path_Norm
  imports Rust_Strings
begin

text \<open>
  \<open>archangel-policy/src/pathnorm.rs\<close>: lexical normalisation of absolute paths, and the errors of
  the policy crate.  The lemmas show that the result is the canonical name of what the path means, that normalisation is
  idempotent and that the spellings the module documents as evasions (\<open>//\<close>, \<open>/./\<close>, \<open>/x/../\<close>)
  never change it.
\<close>

datatype PathMessage = NotAbsolute string | EmbeddedNul

datatype PolicyError =
    PolicyIo
  | AllowlistParse string
  | BadPath PathMessage

text \<open>One iteration of the component loop; \<open>Vec::pop\<close> on an empty stack does nothing.\<close>

definition norm_component :: "string list \<Rightarrow> string \<Rightarrow> string list" where
  "norm_component stack component =
    (if component = '''' \<or> component = ''.'' then stack
     else if component = ''..'' then butlast stack
     else stack @ [component])"

definition normalize_absolute :: "string \<Rightarrow> (PolicyError, string) result" where
  "normalize_absolute path =
    (if first path \<noteq> Some CHR ''/'' then Inl (BadPath (NotAbsolute path))
     else if CHR 0x00 \<in> set path then Inl (BadPath EmbeddedNul)
     else
       let stack = foldl norm_component [] (split_char CHR ''/'' path) in
       if stack = [] then Inr ''/''
       else Inr (foldl (\<lambda>out component. out @ CHR ''/'' # component) [] stack))"

section \<open>The component stack\<close>

definition real_component :: "string \<Rightarrow> bool" where
  "real_component c \<longleftrightarrow> c \<noteq> '''' \<and> c \<noteq> ''.'' \<and> c \<noteq> ''..'' \<and> CHR ''/'' \<notin> set c"

lemma foldl_join_pre:
  "foldl (\<lambda>out component. out @ c # component) acc ws = acc @ join_pre c ws"
  by (induction ws arbitrary: acc) auto

lemma norm_component_real:
  assumes "\<forall>c \<in> set stack. real_component c" and "CHR ''/'' \<notin> set w"
  shows "\<forall>c \<in> set (norm_component stack w). real_component c"
  using assms by (auto simp: norm_component_def real_component_def dest: in_set_butlastD)

lemma norm_fold_real:
  assumes "\<forall>c \<in> set stack. real_component c" and "\<forall>w \<in> set ws. CHR ''/'' \<notin> set w"
  shows "\<forall>c \<in> set (foldl norm_component stack ws). real_component c"
  using assms
proof (induction ws arbitrary: stack)
  case (Cons w ws)
  then have "\<forall>c \<in> set (norm_component stack w). real_component c"
    by (intro norm_component_real) auto
  then show ?case using Cons by simp
qed simp

lemma norm_fold_reals:
  "\<forall>w \<in> set ws. real_component w \<Longrightarrow> foldl norm_component stack ws = stack @ ws"
  by (induction ws arbitrary: stack) (auto simp: norm_component_def real_component_def)

lemma norm_fold_subset:
  "set (foldl norm_component stack ws) \<subseteq> set stack \<union> set ws"
proof (induction ws arbitrary: stack)
  case (Cons w ws)
  have "set (norm_component stack w) \<subseteq> insert w (set stack)"
    by (auto simp: norm_component_def dest: in_set_butlastD)
  with Cons.IH [of "norm_component stack w"] show ?case by auto
qed simp

definition path_stack :: "string \<Rightarrow> string list" where
  "path_stack path = foldl norm_component [] (split_char CHR ''/'' path)"

definition render_stack :: "string list \<Rightarrow> string" where
  "render_stack stack = (if stack = [] then ''/'' else join_pre CHR ''/'' stack)"

lemma normalize_absolute_Inr:
  "normalize_absolute path = Inr out \<longleftrightarrow>
    first path = Some CHR ''/'' \<and> CHR 0x00 \<notin> set path \<and> out = render_stack (path_stack path)"
  by (auto simp: normalize_absolute_def render_stack_def path_stack_def Let_def foldl_join_pre)

lemma path_stack_real: "\<forall>c \<in> set (path_stack path). real_component c"
  unfolding path_stack_def
  by (rule norm_fold_real) (auto dest: split_char_no_sep)

lemma path_stack_join:
  assumes "\<forall>w \<in> set ws. CHR ''/'' \<notin> set w"
  shows "path_stack (join_pre CHR ''/'' ws) = foldl norm_component [] ws"
  using assms by (simp add: path_stack_def split_char_join_pre norm_component_def)

lemma path_stack_render:
  assumes "\<forall>c \<in> set stack. real_component c"
  shows "path_stack (render_stack stack) = stack"
proof (cases "stack = []")
  case True
  then show ?thesis by (simp add: render_stack_def path_stack_def norm_component_def)
next
  case False
  have "path_stack (join_pre CHR ''/'' stack) = foldl norm_component [] stack"
    using assms by (intro path_stack_join) (auto simp: real_component_def)
  then show ?thesis using False assms by (simp add: render_stack_def norm_fold_reals)
qed

lemma first_render: "first (render_stack stack) = Some CHR ''/''"
  by (cases stack) (simp_all add: render_stack_def first_def)

lemma nul_render:
  assumes "CHR 0x00 \<notin> set path"
  shows "CHR 0x00 \<notin> set (render_stack (path_stack path))"
proof -
  have "CHR 0x00 \<notin> set c" if "c \<in> set (path_stack path)" for c
    using that assms norm_fold_subset [of "[]" "split_char CHR ''/'' path"] split_char_piece_subset
    unfolding path_stack_def by fastforce
  then show ?thesis by (auto simp: render_stack_def join_pre_def)
qed

lemma normalize_absolute_idem:
  "normalize_absolute p = Inr q \<Longrightarrow> normalize_absolute q = Inr q"
  by (simp add: normalize_absolute_Inr first_render nul_render path_stack_render path_stack_real)

text \<open>A component sequence that leaves every stack unchanged can be inserted anywhere.\<close>

definition neutral_components :: "string list \<Rightarrow> bool" where
  "neutral_components ns \<longleftrightarrow>
    ns = [''''] \<or> ns = [''.''] \<or> (\<exists>x. real_component x \<and> ns = [x, ''..''])"

lemma neutral_fold: "neutral_components ns \<Longrightarrow> foldl norm_component stack ns = stack"
  by (auto simp: neutral_components_def norm_component_def real_component_def)

lemma neutral_no_slash: "neutral_components ns \<Longrightarrow> \<forall>w \<in> set ns. CHR ''/'' \<notin> set w"
  by (auto simp: neutral_components_def real_component_def)

section \<open>What a path means\<close>

text \<open>Two lists of components that lead from the root to the same place, whatever the directories are called: an
  empty component and a dot stay where they are, a double dot goes back to the parent, and the parent of the root is
  the root.\<close>

inductive shortens :: "string list \<Rightarrow> string list \<Rightarrow> bool" where
  stay_empty: "shortens (us @ '''' # vs) (us @ vs)"
| stay_dot: "shortens (us @ ''.'' # vs) (us @ vs)"
| to_parent: "real_component x \<Longrightarrow> shortens (us @ x # ''..'' # vs) (us @ vs)"
| at_root: "shortens (''..'' # vs) vs"

lemma shortens_stack: "shortens ws vs \<Longrightarrow> foldl norm_component [] ws = foldl norm_component [] vs"
  by (induction rule: shortens.induct) (simp_all add: norm_component_def real_component_def)

lemma shortens_reaches_stack: "shortens\<^sup>*\<^sup>* ws vs \<Longrightarrow> foldl norm_component [] ws = foldl norm_component [] vs"
  by (induction rule: rtranclp_induct) (simp_all add: shortens_stack)

lemma shortens_component:
  assumes "\<forall>c \<in> set stack. real_component c"
  shows "shortens\<^sup>*\<^sup>* (stack @ w # ws) (norm_component stack w @ ws)"
proof -
  consider "w = ''''" | "w = ''.''" | "w = ''..''" "stack = []" | (up) s x where "w = ''..''" "stack = s @ [x]"
    | "w \<notin> {'''', ''.'', ''..''}"
    by (cases stack rule: rev_cases) auto
  then show ?thesis
  proof cases
    case (up s x)
    then show ?thesis using assms to_parent [of x s ws] by (simp add: norm_component_def r_into_rtranclp)
  qed (auto simp: norm_component_def intro: r_into_rtranclp stay_empty stay_dot at_root)
qed

lemma shortens_fold:
  assumes "\<forall>c \<in> set stack. real_component c" and "\<forall>w \<in> set ws. CHR ''/'' \<notin> set w"
  shows "shortens\<^sup>*\<^sup>* (stack @ ws) (foldl norm_component stack ws)"
  using assms
proof (induction ws arbitrary: stack)
  case (Cons w ws)
  have "\<forall>c \<in> set (norm_component stack w). real_component c" using Cons.prems by (intro norm_component_real) auto
  then have "shortens\<^sup>*\<^sup>* (norm_component stack w @ ws) (foldl norm_component stack (w # ws))" using Cons by simp
  then show ?case using shortens_component [OF Cons.prems(1), of w ws] by (meson rtranclp_trans)
qed simp

lemma path_stack_unique:
  "path_stack p = ws \<longleftrightarrow> shortens\<^sup>*\<^sup>* (split_char CHR ''/'' p) ws \<and> (\<forall>w \<in> set ws. real_component w)"
proof
  assume "path_stack p = ws"
  then show "shortens\<^sup>*\<^sup>* (split_char CHR ''/'' p) ws \<and> (\<forall>w \<in> set ws. real_component w)"
    using shortens_fold [of "[]" "split_char CHR ''/'' p"] path_stack_real [of p]
    by (auto simp: path_stack_def dest: split_char_no_sep)
next
  assume "shortens\<^sup>*\<^sup>* (split_char CHR ''/'' p) ws \<and> (\<forall>w \<in> set ws. real_component w)"
  then show "path_stack p = ws"
    using shortens_reaches_stack [of "split_char CHR ''/'' p" ws] norm_fold_reals [of ws "[]"] by (simp add: path_stack_def)
qed

section \<open>Properties\<close>

text \<open>C35: normalisation gives the one canonical name of the place that a path means.  A path is refused as not
  absolute exactly if it does not start with a slash, and as malformed exactly if it does and contains NUL.  Otherwise
  the result is \<open>q\<close> exactly if the components of the path shorten, by dropping empty ones, dots, and names that a double dot
  takes back, to a list of names none of which is empty, a dot or a double dot, and \<open>q\<close> is that list with a slash before each
  name, or the root if there is none.  The result is its own normal form.\<close>

theorem normalize_absolute_meaning:
  "(normalize_absolute p = Inl (BadPath (NotAbsolute p)) \<longleftrightarrow> (\<nexists>r. p = CHR ''/'' # r))
    \<and> (normalize_absolute p = Inl (BadPath EmbeddedNul) \<longleftrightarrow> (\<exists>r. p = CHR ''/'' # r) \<and> CHR 0x00 \<in> set p)
    \<and> (normalize_absolute p = Inr q \<longleftrightarrow> (\<exists>r. p = CHR ''/'' # r) \<and> CHR 0x00 \<notin> set p
        \<and> (\<exists>ws. shortens\<^sup>*\<^sup>* (split_char CHR ''/'' p) ws
            \<and> list_all (\<lambda>w. w \<notin> {'''', ''.'', ''..''} \<and> CHR ''/'' \<notin> set w) ws
            \<and> q = (if ws = [] then ''/'' else concat (map (\<lambda>w. CHR ''/'' # w) ws))))
    \<and> (normalize_absolute p = Inr q \<longrightarrow> normalize_absolute q = Inr q)"
proof -
  have slash: "first p = Some CHR ''/'' \<longleftrightarrow> (\<exists>r. p = CHR ''/'' # r)" by (cases p) (auto simp: first_def)
  have real: "list_all (\<lambda>w. w \<notin> {'''', ''.'', ''..''} \<and> CHR ''/'' \<notin> set w) ws \<longleftrightarrow> (\<forall>w \<in> set ws. real_component w)" for ws
    by (auto simp: list_all_iff real_component_def)
  have join: "(if ws = [] then ''/'' else concat (map (\<lambda>w. CHR ''/'' # w) ws)) = render_stack ws" for ws
    by (simp add: render_stack_def join_pre_def)
  have "normalize_absolute p = Inr q \<longleftrightarrow> (\<exists>r. p = CHR ''/'' # r) \<and> CHR 0x00 \<notin> set p
      \<and> (\<exists>ws. shortens\<^sup>*\<^sup>* (split_char CHR ''/'' p) ws \<and> (\<forall>w \<in> set ws. real_component w) \<and> q = render_stack ws)"
    unfolding normalize_absolute_Inr slash by (rule conj_cong [OF refl] conj_cong [OF refl refl])+ (metis path_stack_unique)
  moreover have "normalize_absolute p = Inl (BadPath (NotAbsolute p)) \<longleftrightarrow> (\<nexists>r. p = CHR ''/'' # r)"
      "normalize_absolute p = Inl (BadPath EmbeddedNul) \<longleftrightarrow> (\<exists>r. p = CHR ''/'' # r) \<and> CHR 0x00 \<in> set p"
    unfolding slash [symmetric] by (simp_all add: normalize_absolute_def Let_def)
  ultimately show ?thesis using normalize_absolute_idem [of p q] unfolding real join by (intro conjI impI)
qed

theorem normalize_absolute_meaning_witness:
  "normalize_absolute ''/etc//archangel/./../ssh/'' = Inr ''/etc/ssh''
    \<and> normalize_absolute ''/etc/ssh'' = Inr ''/etc/ssh'' \<and> normalize_absolute ''/../a'' = Inr ''/a''"
proof -
  have "normalize_absolute ''/etc//archangel/./../ssh/'' = Inr ''/etc/ssh''" "normalize_absolute ''/../a'' = Inr ''/a''"
    by (simp_all add: normalize_absolute_def first_def norm_component_def)
  then show ?thesis using normalize_absolute_meaning by blast
qed

text \<open>The evasive spellings do not change the normal form.  Inserting an empty component, a
  single dot, or a real component followed by a double dot anywhere between the components of a
  path gives the same result, errors included.\<close>

theorem normalize_absolute_evasion:
  assumes "\<forall>w \<in> set us \<union> set vs. CHR ''/'' \<notin> set w"
    and "neutral_components ns" and "\<forall>n \<in> set ns. CHR 0x00 \<notin> set n"
    and "us @ vs \<noteq> []"
  shows "normalize_absolute (join_pre CHR ''/'' (us @ ns @ vs))
    = normalize_absolute (join_pre CHR ''/'' (us @ vs))"
proof -
  have stack: "path_stack (join_pre CHR ''/'' (us @ ns @ vs)) = path_stack (join_pre CHR ''/'' (us @ vs))"
    using assms neutral_no_slash [OF assms(2)]
    by (subst (1 2) path_stack_join) (auto simp: neutral_fold)
  have anchored: "first (join_pre CHR ''/'' ws) = Some CHR ''/''" if "ws \<noteq> []" for ws
    using that by (cases ws) (simp_all add: first_def)
  have nul: "CHR 0x00 \<in> set (join_pre CHR ''/'' (us @ ns @ vs))
      \<longleftrightarrow> CHR 0x00 \<in> set (join_pre CHR ''/'' (us @ vs))"
    using assms(3) by (auto simp: join_pre_def)
  show ?thesis
    using assms(4) stack nul anchored [of "us @ ns @ vs"] anchored [of "us @ vs"]
    unfolding normalize_absolute_def path_stack_def by (auto simp del: join_pre_append)
qed

theorem normalize_absolute_evasion_witness:
  "normalize_absolute ''/etc/x/../shadow'' = normalize_absolute ''/etc/shadow''"
  using normalize_absolute_evasion [of "[''etc'']" "[''shadow'']" "[''x'', ''..'']"]
  by (simp add: neutral_components_def real_component_def)

end
