(* ===== verification/Denylist.thy ===== *)
theory Denylist
  imports Path_Norm
begin

text \<open>
  \<open>archangel-policy/src/denylist.rs\<close>: the compiled-in rule table, the construction of the matchers
  and the two checks.  The glob and regular-expression engines are parameters, the fields of
  \<open>MatchLib\<close>; what the code relies on is \<open>match_lib_ok\<close>: a set reports the ascending indices of
  the members that match.  The lemmas refine the index bookkeeping of the compiled sets to a
  search of the table itself.
\<close>

section \<open>Rules\<close>

datatype DenyCategory =
    SelfProtection | Ssh | Firewall | Destruction | MassDeletion | Identity | Kernel | Exfiltration

datatype PathScope = ScopeModify | ScopeAny

datatype PathAccess = Read | Write

record RuleSpec =
  rule_id :: string
  category :: DenyCategory
  description :: string
  command_patterns :: "string list"
  path_patterns :: "string list"
  path_scope :: PathScope

text \<open>A regular expression with its backslashes written as tildes (no pattern has a tilde).\<close>

definition re :: "string \<Rightarrow> string" where
  "re pat = map (\<lambda>c. if c = CHR ''~'' then CHR 0x5C else c) pat"

definition RULES :: "RuleSpec list" where
  "RULES = [
    \<lparr> rule_id = ''self-protection'',
      category = SelfProtection,
      description = ''No modification of archangel\\'s own config, binaries, units, keys, or audit log.'',
      command_patterns =
       [],
      path_patterns =
       [''/etc/archangel/**'',
        ''/var/lib/archangel/**'',
        ''/var/lib/archangel-exec/**'',
        ''/var/log/archangel/**'',
        ''/usr/bin/archangel*'',
        ''/usr/lib/systemd/system/archangel*.service'',
        ''/etc/systemd/system/archangel*.service'',
        ''/etc/systemd/system/archangel*.service.d/**''],
      path_scope = ScopeModify \<rparr>,
    \<lparr> rule_id = ''ssh'',
      category = Ssh,
      description = ''No tampering with SSH access or its configuration.'',
      command_patterns =
       [re ''^systemctl (stop|disable|mask|kill) sshd?(~.service)?$'',
        re ''^systemctl (stop|disable|mask|kill) ssh(~.socket)?$'',
        ''^service sshd? (stop|disable|kill)$''],
      path_patterns =
       [''/etc/ssh/**'',
        ''/root/.ssh/authorized_keys'',
        ''/home/*/.ssh/authorized_keys''],
      path_scope = ScopeAny \<rparr>,
    \<lparr> rule_id = ''firewall'',
      category = Firewall,
      description = ''No flushing or disabling of the host firewall.'',
      command_patterns =
       [''^ufw disable$'',
        ''^iptables -F$'',
        ''^iptables --flush$'',
        ''^nft flush ruleset$'',
        ''^firewall-cmd --complete-reload$'',
        re ''^systemctl (stop|disable|mask) (firewalld|nftables|ufw)(~.service)?$''],
      path_patterns =
       [],
      path_scope = ScopeModify \<rparr>,
    \<lparr> rule_id = ''destruction'',
      category = Destruction,
      description = ''No formatting, wiping, or raw writes to block devices.'',
      command_patterns =
       [re ''^mkfs(~.~w+)?~b'',
        re ''^wipefs~b'',
        re ''^shred .*~s/dev/(sd|nvme|vd|md|dm-|loop)'',
        re ''^dd~b.*~bof=/dev/(sd|nvme|vd|md|dm-|loop)'',
        re ''^cryptsetup luksFormat~b'',
        re ''^parted~b.*~b(mklabel|mkpart|rm)~b'',
        re ''^fdisk~b'',
        re ''^sfdisk~b'',
        re ''^blkdiscard~b'',
        re ''^:~(~)~s*~{~s*:~s*~|~s*:&~s*~}~s*;~s*:''],
      path_patterns =
       [],
      path_scope = ScopeModify \<rparr>,
    \<lparr> rule_id = ''mass-deletion'',
      category = MassDeletion,
      description = ''No catastrophic recursive removal of system trees.'',
      command_patterns =
       [''^rm (-[rRfF]+ )?(/|/bin|/boot|/dev|/etc|/lib(64)?|/proc|/root|/sbin|/sys|/usr|/var)( |/|$)'',
        ''^find (/|/bin|/boot|/dev|/etc|/lib(64)?|/proc|/root|/sbin|/sys|/usr|/var).*(-delete|-exec rm)''],
      path_patterns =
       [],
      path_scope = ScopeModify \<rparr>,
    \<lparr> rule_id = ''identity'',
      category = Identity,
      description = ''No silent modification of user identity, passwords, or sudo policy.'',
      command_patterns =
       [''^passwd root$'',
        ''^passwd -d '',
        ''^usermod .*(-p|--password|--groups (sudo|wheel))'',
        ''^useradd .*(--groups (sudo|wheel)|-G (sudo|wheel))'',
        re ''^visudo~b''],
      path_patterns =
       [''/etc/shadow'',
        ''/etc/gshadow'',
        ''/etc/sudoers'',
        ''/etc/sudoers.d/**'',
        ''/etc/pam.d/**'',
        ''/etc/security/**''],
      path_scope = ScopeAny \<rparr>,
    \<lparr> rule_id = ''kernel'',
      category = Kernel,
      description = ''No tampering with boot, kernel, or kernel modules.'',
      command_patterns =
       [re ''^kexec~b'',
        re ''^insmod~b'',
        re ''^modprobe~b'',
        re ''^rmmod~b'',
        re ''^grub2?-install~b'',
        re ''^grub2?-mkconfig~b'',
        re ''^update-grub~b'',
        re ''^update-initramfs~b'',
        re ''^dracut~b''],
      path_patterns =
       [''/boot/**'',
        ''/etc/default/grub'',
        ''/etc/grub.d/**''],
      path_scope = ScopeModify \<rparr>,
    \<lparr> rule_id = ''exfiltration'',
      category = Exfiltration,
      description = ''Common reverse-shell and fetch-and-execute patterns.'',
      command_patterns =
       [re ''~| ?(bash|sh|zsh|python|perl|ruby|node)~b'',
        re ''~bcurl~b.*~| ?(bash|sh)~b'',
        re ''~bwget~b.*~| ?(bash|sh)~b'',
        re ''~bnc(at)? .*-e~b'',
        re ''~bsocat .*~bEXEC~b'',
        re ''~bbash -i~b.*>& ?/dev/tcp/''],
      path_patterns =
       [],
      path_scope = ScopeModify \<rparr>]"

section \<open>Compiled form\<close>

record Owner =
  own_category :: DenyCategory
  own_rule_id :: string
  own_description :: string

datatype BuildMessage =
    BadPathGlob string string string
  | CommandRegexFailed string
  | AnyGlobsetFailed string
  | ModifyGlobsetFailed string

text \<open>Why a synthetic denial was produced: the table did not compile, or the path did not
  normalise.\<close>

datatype FailWhy = BuildFailure BuildMessage | PathFailure PathMessage

datatype Matched = MatchedInput string | FailedInput string FailWhy

record DenyMatch =
  dm_category :: DenyCategory
  dm_rule_id :: string
  dm_description :: string
  dm_matched :: Matched

definition owner_matched :: "Owner \<Rightarrow> string \<Rightarrow> DenyMatch" where
  "owner_matched o' input =
    \<lparr> dm_category = own_category o', dm_rule_id = own_rule_id o',
      dm_description = own_description o', dm_matched = MatchedInput input \<rparr>"

text \<open>The engines \<open>globset\<close> and \<open>regex\<close>: building one glob (with \<open>literal_separator(true)\<close>), a glob
  set and a regex set, the indices a set reports, and what a single glob or pattern matches.\<close>

record ('g, 's, 'r) MatchLib =
  glob_build :: "string \<Rightarrow> (string, 'g) result"
  globset_build :: "'g list \<Rightarrow> (string, 's) result"
  globset_matches :: "'s \<Rightarrow> string \<Rightarrow> nat list"
  regexset_new :: "string list \<Rightarrow> (string, 'r) result"
  regexset_matches :: "'r \<Rightarrow> byte list \<Rightarrow> nat list"

record ('g, 's, 'r) Compiled =
  command_set :: 'r
  command_owners :: "Owner list"
  any_globs :: 's
  any_owners :: "Owner list"
  modify_globs :: 's
  modify_owners :: "Owner list"

text \<open>The mutable vectors and builders of \<open>build\<close>.\<close>

record 'g Builder =
  b_command_patterns :: "string list"
  b_command_owners :: "Owner list"
  b_any_globs :: "'g list"
  b_any_owners :: "Owner list"
  b_modify_globs :: "'g list"
  b_modify_owners :: "Owner list"

definition expand_dir_glob :: "string \<Rightarrow> string list" where
  "expand_dir_glob pat =
    (case strip_suffix ''/**'' pat of None \<Rightarrow> [pat] | Some dir \<Rightarrow> [pat, dir])"

definition owner_of :: "RuleSpec \<Rightarrow> Owner" where
  "owner_of rule =
    \<lparr> own_category = category rule, own_rule_id = rule_id rule,
      own_description = description rule \<rparr>"

definition push_command :: "Owner \<Rightarrow> string \<Rightarrow> 'g Builder \<Rightarrow> 'g Builder" where
  "push_command owner pat b =
    b\<lparr> b_command_patterns := b_command_patterns b @ [pat],
       b_command_owners := b_command_owners b @ [owner] \<rparr>"

definition push_glob ::
  "('g, 's, 'r) MatchLib \<Rightarrow> RuleSpec \<Rightarrow> string \<Rightarrow> 'g Builder \<Rightarrow> (BuildMessage, 'g Builder) result"
where
  "push_glob L rule p b =
    bind_res (map_err (BadPathGlob p (rule_id rule)) (glob_build L p)) (\<lambda>glob.
      case path_scope rule of
        ScopeAny \<Rightarrow> Inr (b\<lparr> b_any_globs := b_any_globs b @ [glob],
                            b_any_owners := b_any_owners b @ [owner_of rule] \<rparr>)
      | ScopeModify \<Rightarrow> Inr (b\<lparr> b_modify_globs := b_modify_globs b @ [glob],
                               b_modify_owners := b_modify_owners b @ [owner_of rule] \<rparr>))"

definition push_rule ::
  "('g, 's, 'r) MatchLib \<Rightarrow> RuleSpec \<Rightarrow> 'g Builder \<Rightarrow> (BuildMessage, 'g Builder) result"
where
  "push_rule L rule b =
    fold_res (\<lambda>pat. fold_res (push_glob L rule) (expand_dir_glob pat)) (path_patterns rule)
      (fold (push_command (owner_of rule)) (command_patterns rule) b)"

definition empty_builder :: "'g Builder" where
  "empty_builder =
    \<lparr> b_command_patterns = [], b_command_owners = [], b_any_globs = [], b_any_owners = [],
      b_modify_globs = [], b_modify_owners = [] \<rparr>"

definition build_from ::
  "('g, 's, 'r) MatchLib \<Rightarrow> RuleSpec list \<Rightarrow> (BuildMessage, ('g, 's, 'r) Compiled) result"
where
  "build_from L rules =
    bind_res (fold_res (push_rule L) rules empty_builder) (\<lambda>b.
    bind_res (map_err CommandRegexFailed (regexset_new L (b_command_patterns b))) (\<lambda>cs.
    bind_res (map_err AnyGlobsetFailed (globset_build L (b_any_globs b))) (\<lambda>anys.
    bind_res (map_err ModifyGlobsetFailed (globset_build L (b_modify_globs b))) (\<lambda>mods.
    Inr \<lparr> command_set = cs, command_owners = b_command_owners b,
          any_globs = anys, any_owners = b_any_owners b,
          modify_globs = mods, modify_owners = b_modify_owners b \<rparr>))))"

definition build :: "('g, 's, 'r) MatchLib \<Rightarrow> (BuildMessage, ('g, 's, 'r) Compiled) result" where
  "build L = build_from L RULES"

section \<open>The checks\<close>

definition fail_closed :: "string \<Rightarrow> FailWhy \<Rightarrow> DenyMatch" where
  "fail_closed input why =
    \<lparr> dm_category = SelfProtection, dm_rule_id = ''denylist-build-failure'',
      dm_description = ''Denylist failed to compile; failing closed (denying all).'',
      dm_matched = FailedInput input why \<rparr>"

definition normalize_command :: "string \<Rightarrow> string" where
  "normalize_command command = join_with '' '' (split_whitespace command)"

definition nth_owner :: "nat list \<Rightarrow> Owner list \<Rightarrow> Owner option" where
  "nth_owner matches owners = Option.bind (first matches) (\<lambda>idx. get idx owners)"

definition check_command :: "('g, 's, 'r) MatchLib \<Rightarrow> string \<Rightarrow> DenyMatch option" where
  "check_command L command =
    (let normalized = normalize_command command in
     case build L of
       Inl why \<Rightarrow> Some (fail_closed normalized (BuildFailure why))
     | Inr compiled \<Rightarrow>
         map_option (\<lambda>o'. owner_matched o' normalized)
           (nth_owner (regexset_matches L (command_set compiled) (as_bytes normalized))
              (command_owners compiled)))"

definition first_glob_owner ::
  "('g, 's, 'r) MatchLib \<Rightarrow> 's \<Rightarrow> Owner list \<Rightarrow> string \<Rightarrow> Owner option"
where
  "first_glob_owner L set' owners path = nth_owner (globset_matches L set' path) owners"

definition check_path ::
  "('g, 's, 'r) MatchLib \<Rightarrow> string \<Rightarrow> PathAccess \<Rightarrow> (PolicyError, DenyMatch option) result"
where
  "check_path L path access =
    (case normalize_absolute path of
       Inl (BadPath msg) \<Rightarrow> Inr (Some (fail_closed path (PathFailure msg)))
     | Inl other \<Rightarrow> Inl other
     | Inr normalized \<Rightarrow>
        (case build L of
           Inl why \<Rightarrow> Inr (Some (fail_closed normalized (BuildFailure why)))
         | Inr compiled \<Rightarrow>
            (case first_glob_owner L (any_globs compiled) (any_owners compiled) normalized of
               Some owner \<Rightarrow> Inr (Some (owner_matched owner normalized))
             | None \<Rightarrow>
                (if access = Write then
                   (case first_glob_owner L (modify_globs compiled) (modify_owners compiled) normalized of
                      Some owner \<Rightarrow> Inr (Some (owner_matched owner normalized))
                    | None \<Rightarrow> Inr None)
                 else Inr None))))"

section \<open>What the engines promise\<close>

text \<open>\<open>globset\<close> and \<open>regex\<close> document that a set reports the indices, in ascending order, of
  exactly those members that match on their own; \<open>glob_hit\<close> and \<open>regex_hit\<close> say when a member
  matches.\<close>

definition match_lib_ok ::
  "('g, 's, 'r) MatchLib \<Rightarrow> ('g \<Rightarrow> string \<Rightarrow> bool) \<Rightarrow> (string \<Rightarrow> byte list \<Rightarrow> bool) \<Rightarrow> bool"
where
  "match_lib_ok L glob_hit regex_hit \<longleftrightarrow>
    (\<forall>gs s path. globset_build L gs = Inr s \<longrightarrow>
       sorted (globset_matches L s path)
       \<and> set (globset_matches L s path) = {i. i < length gs \<and> glob_hit (gs ! i) path})
    \<and> (\<forall>ps r bs. regexset_new L ps = Inr r \<longrightarrow>
       sorted (regexset_matches L r bs)
       \<and> set (regexset_matches L r bs) = {i. i < length ps \<and> regex_hit (ps ! i) bs})"

text \<open>The first reported index selects the owner of the first matching member.\<close>

lemma nth_owner_find:
  assumes "sorted idxs" and "set idxs = {i. i < length ps \<and> hit (ps ! i)}"
    and "length owners = length ps"
  shows "nth_owner idxs owners = map_option snd (find (\<lambda>(p, o'). hit p) (zip ps owners))"
proof (cases idxs)
  case Nil
  then have "find (\<lambda>(p, o'). hit p) (zip ps owners) = None"
    using assms by (auto simp: find_None_iff set_zip)
  with Nil show ?thesis by (simp add: nth_owner_def first_def)
next
  case (Cons i js)
  then have i: "i < length ps" "hit (ps ! i)" and mem: "\<And>j. j < length ps \<Longrightarrow> hit (ps ! j) \<Longrightarrow> i \<le> j"
    using assms by (auto simp: set_eq_iff)
  have least: "\<not> hit (ps ! j)" if "j < i" for j
    using mem [of j] i(1) that by auto
  have "find (\<lambda>(p, o'). hit p) (zip ps owners) = Some (ps ! i, owners ! i)"
    unfolding find_Some_iff using i least assms(3) by (intro exI [of _ i]) auto
  then show ?thesis using Cons i assms(3) by (simp add: nth_owner_def first_def get_def)
qed

section \<open>The table behind the compiled sets\<close>

text \<open>Patterns with their rule, in table order: commands, and the expanded globs of one scope.\<close>

definition command_entries :: "RuleSpec list \<Rightarrow> (string \<times> Owner) list" where
  "command_entries rules =
    concat (map (\<lambda>r. map (\<lambda>p. (p, owner_of r)) (command_patterns r)) rules)"

definition rule_globs :: "RuleSpec \<Rightarrow> string list" where
  "rule_globs r = concat (map expand_dir_glob (path_patterns r))"

definition glob_entries :: "PathScope \<Rightarrow> RuleSpec list \<Rightarrow> (string \<times> Owner) list" where
  "glob_entries sc rules =
    concat (map (\<lambda>r. map (\<lambda>p. (p, owner_of r)) (rule_globs r)) (filter (\<lambda>r. path_scope r = sc) rules))"

text \<open>The builder that has consumed \<open>rules\<close>: its vectors list the entries of the table, and each
  glob is the compiled form of its pattern.\<close>

definition builds :: "('g, 's, 'r) MatchLib \<Rightarrow> (string \<times> Owner) list \<Rightarrow> 'g list \<Rightarrow> Owner list \<Rightarrow> bool" where
  "builds L es gs os \<longleftrightarrow>
    list_all2 (\<lambda>(p, _) g. glob_build L p = Inr g) es gs \<and> os = map snd es"

definition builder_for ::
  "('g, 's, 'r) MatchLib \<Rightarrow> (string \<times> Owner) list \<Rightarrow> (string \<times> Owner) list
    \<Rightarrow> (string \<times> Owner) list \<Rightarrow> 'g Builder \<Rightarrow> bool"
where
  "builder_for L cs anys mods b \<longleftrightarrow>
    b_command_patterns b = map fst cs \<and> b_command_owners b = map snd cs
    \<and> builds L anys (b_any_globs b) (b_any_owners b)
    \<and> builds L mods (b_modify_globs b) (b_modify_owners b)"

lemma builds_snoc:
  "builds L es gs os \<Longrightarrow> glob_build L p = Inr g \<Longrightarrow> builds L (es @ [(p, o')]) (gs @ [g]) (os @ [o'])"
  by (simp add: builds_def list_all2_appendI)

lemma push_commands:
  "builder_for L cs anys mods b \<Longrightarrow>
   builder_for L (cs @ map (\<lambda>p. (p, owner)) pats) anys mods (fold (push_command owner) pats b)"
proof (induction pats arbitrary: cs b)
  case (Cons p pats)
  then have "builder_for L (cs @ [(p, owner)]) anys mods (push_command owner p b)"
    by (simp add: builder_for_def push_command_def)
  from Cons.IH [OF this] show ?case by simp
qed simp

definition scoped :: "PathScope \<Rightarrow> RuleSpec \<Rightarrow> string list \<Rightarrow> (string \<times> Owner) list" where
  "scoped sc r ps = (if path_scope r = sc then map (\<lambda>p. (p, owner_of r)) ps else [])"

lemma push_glob_builder_for:
  assumes "push_glob L r p b = Inr b'" and "builder_for L cs anys mods b"
  shows "builder_for L cs (anys @ scoped ScopeAny r [p]) (mods @ scoped ScopeModify r [p]) b'"
proof (cases "path_scope r")
  case ScopeModify
  with assms show ?thesis
    by (auto simp: push_glob_def res_eq builder_for_def scoped_def intro: builds_snoc)
next
  case ScopeAny
  with assms show ?thesis
    by (auto simp: push_glob_def res_eq builder_for_def scoped_def intro: builds_snoc)
qed

lemma scoped_append: "scoped sc r (ps @ qs) = scoped sc r ps @ scoped sc r qs"
  by (simp add: scoped_def)

lemma push_globs_builder_for:
  assumes "fold_res (push_glob L r) ps b = Inr b'" and "builder_for L cs anys mods b"
  shows "builder_for L cs (anys @ scoped ScopeAny r ps) (mods @ scoped ScopeModify r ps) b'"
  using assms
proof (induction ps arbitrary: b anys mods)
  case Nil
  then show ?case by (simp add: scoped_def)
next
  case (Cons p ps)
  from Cons.prems(1) obtain b1
    where b1: "push_glob L r p b = Inr b1" "fold_res (push_glob L r) ps b1 = Inr b'"
    by auto
  have "scoped sc r (p # ps) = scoped sc r [p] @ scoped sc r ps" for sc
    by (simp add: scoped_def)
  then show ?case
    using Cons.IH [OF b1(2) push_glob_builder_for [OF b1(1) Cons.prems(2)]] by simp
qed

lemma fold_res_nested:
  "fold_res (\<lambda>x. fold_res f (g x)) xs s = fold_res f (concat (map g xs)) s"
  by (induction xs arbitrary: s) (auto simp: fold_res_append bind_res_def split: sum.splits)

lemma push_rule_builder_for:
  assumes "push_rule L r b = Inr b'" and "builder_for L cs anys mods b"
  shows "builder_for L (cs @ map (\<lambda>p. (p, owner_of r)) (command_patterns r))
    (anys @ scoped ScopeAny r (rule_globs r)) (mods @ scoped ScopeModify r (rule_globs r)) b'"
  using assms push_globs_builder_for push_commands
  unfolding push_rule_def fold_res_nested rule_globs_def by blast

lemma glob_entries_Cons:
  "glob_entries sc (r # rs) = scoped sc r (rule_globs r) @ glob_entries sc rs"
  by (simp add: glob_entries_def scoped_def)

lemma push_rules_builder_for:
  assumes "fold_res (push_rule L) rules b = Inr b'" and "builder_for L cs anys mods b"
  shows "builder_for L (cs @ command_entries rules) (anys @ glob_entries ScopeAny rules)
    (mods @ glob_entries ScopeModify rules) b'"
  using assms
proof (induction rules arbitrary: b cs anys mods)
  case Nil
  then show ?case by (simp add: command_entries_def glob_entries_def)
next
  case (Cons r rs)
  from Cons.prems(1) obtain b1
    where b1: "push_rule L r b = Inr b1" "fold_res (push_rule L) rs b1 = Inr b'"
    by auto
  show ?case
    using Cons.IH [OF b1(2) push_rule_builder_for [OF b1(1) Cons.prems(2)]]
    by (simp add: glob_entries_Cons command_entries_def)
qed

text \<open>When a pattern of the table, compiled on its own, matches.\<close>

definition glob_matches :: "('g, 's, 'r) MatchLib \<Rightarrow> ('g \<Rightarrow> string \<Rightarrow> bool) \<Rightarrow> string \<Rightarrow> string \<Rightarrow> bool" where
  "glob_matches L glob_hit p path =
    (case glob_build L p of Inl _ \<Rightarrow> False | Inr g \<Rightarrow> glob_hit g path)"

lemma builds_find:
  assumes "builds L es gs os"
  shows "map_option snd (find (\<lambda>(g, o'). glob_hit g path) (zip gs os))
    = map_option snd (find (\<lambda>(p, o'). glob_matches L glob_hit p path) es)"
proof -
  from assms have rel: "list_all2 (\<lambda>(p, _) g. glob_build L p = Inr g) es gs" and os: "os = map snd es"
    by (auto simp: builds_def)
  show ?thesis unfolding os using rel
  proof (induction rule: list_all2_induct)
    case (Cons e es g gs)
    then show ?case by (cases e) (auto simp: glob_matches_def)
  qed simp
qed

lemma build_from_sets:
  assumes ok: "match_lib_ok L glob_hit regex_hit" and c: "build_from L rules = Inr c"
  shows
    "nth_owner (regexset_matches L (command_set c) bs) (command_owners c)
      = map_option snd (find (\<lambda>(p, o'). regex_hit p bs) (command_entries rules))" (is ?cmd)
    "first_glob_owner L (any_globs c) (any_owners c) path
      = map_option snd (find (\<lambda>(p, o'). glob_matches L glob_hit p path) (glob_entries ScopeAny rules))"
      (is ?any)
    "first_glob_owner L (modify_globs c) (modify_owners c) path
      = map_option snd (find (\<lambda>(p, o'). glob_matches L glob_hit p path) (glob_entries ScopeModify rules))"
      (is ?mod)
proof -
  from c obtain b where b: "fold_res (push_rule L) rules empty_builder = Inr b"
    and cs: "regexset_new L (b_command_patterns b) = Inr (command_set c)"
      "command_owners c = b_command_owners b"
    and anys: "globset_build L (b_any_globs b) = Inr (any_globs c)" "any_owners c = b_any_owners b"
    and mods: "globset_build L (b_modify_globs b) = Inr (modify_globs c)"
      "modify_owners c = b_modify_owners b"
    by (auto simp: build_from_def bind_res_eq_Inr)
  have "builder_for L [] [] [] (empty_builder :: 'a Builder)"
    by (simp add: builder_for_def empty_builder_def builds_def)
  from push_rules_builder_for [OF b this]
  have bf: "b_command_patterns b = map fst (command_entries rules)"
      "b_command_owners b = map snd (command_entries rules)"
    and ba: "builds L (glob_entries ScopeAny rules) (b_any_globs b) (b_any_owners b)"
    and bm: "builds L (glob_entries ScopeModify rules) (b_modify_globs b) (b_modify_owners b)"
    by (auto simp: builder_for_def)
  have len: "length gs = length os" if "builds L es gs os" for es gs os
    using that by (auto simp: builds_def list_all2_lengthD [symmetric])
  have "nth_owner (regexset_matches L (command_set c) bs) (command_owners c)
      = map_option snd (find (\<lambda>(p, o'). regex_hit p bs) (zip (b_command_patterns b) (command_owners c)))"
    by (rule nth_owner_find) (use ok cs bf in \<open>auto simp: match_lib_ok_def\<close>)
  then show ?cmd using bf cs by (simp add: zip_map_fst_snd)
  show ?any
    unfolding first_glob_owner_def builds_find [OF ba, symmetric] anys(2)
    by (rule nth_owner_find) (use ok anys ba len in \<open>auto simp: match_lib_ok_def\<close>)
  show ?mod
    unfolding first_glob_owner_def builds_find [OF bm, symmetric] mods(2)
    by (rule nth_owner_find) (use ok mods bm len in \<open>auto simp: match_lib_ok_def\<close>)
qed

section \<open>The checks against the table\<close>

text \<open>The rule that a command or path hits, by direct search of the table.\<close>

definition rule_denies_command :: "(string \<Rightarrow> byte list \<Rightarrow> bool) \<Rightarrow> RuleSpec \<Rightarrow> string \<Rightarrow> bool" where
  "rule_denies_command regex_hit r normalized \<longleftrightarrow>
    (\<exists>p \<in> set (command_patterns r). regex_hit p (as_bytes normalized))"

definition rule_denies_path ::
  "('g, 's, 'r) MatchLib \<Rightarrow> ('g \<Rightarrow> string \<Rightarrow> bool) \<Rightarrow> RuleSpec \<Rightarrow> string \<Rightarrow> PathAccess \<Rightarrow> bool"
where
  "rule_denies_path L glob_hit r normalized access \<longleftrightarrow>
    (path_scope r = ScopeAny \<or> access = Write)
    \<and> (\<exists>p \<in> set (rule_globs r). glob_matches L glob_hit p normalized)"

lemma check_command_None:
  assumes "match_lib_ok L glob_hit regex_hit"
  shows "check_command L c = None \<longleftrightarrow>
    is_ok (build L) \<and> (\<forall>r \<in> set RULES. \<not> rule_denies_command regex_hit r (normalize_command c))"
proof (cases "build L")
  case (Inr comp)
  note sets = build_from_sets(1) [OF assms Inr [unfolded build_def]]
  show ?thesis
    using Inr by (auto simp: check_command_def Let_def sets find_None_iff command_entries_def
        rule_denies_command_def)
qed (simp add: check_command_def)

lemma check_path_None:
  assumes "match_lib_ok L glob_hit regex_hit"
  shows "check_path L p access = Inr None \<longleftrightarrow>
    is_ok (build L) \<and>
    (\<exists>n. normalize_absolute p = Inr n \<and> (\<forall>r \<in> set RULES. \<not> rule_denies_path L glob_hit r n access))"
proof (cases "normalize_absolute p")
  case (Inl e)
  then show ?thesis by (cases e) (simp_all add: check_path_def)
next
  case (Inr n)
  show ?thesis
  proof (cases "build L")
    case (Inl e)
    with Inr show ?thesis by (simp add: check_path_def)
  next
    case (Inr comp)
    note sets = build_from_sets [OF assms Inr [unfolded build_def]]
    have scope: "path_scope r = ScopeAny \<or> path_scope r = ScopeModify" for r
      by (cases "path_scope r") auto
    have entries: "find (\<lambda>(p, o'). glob_matches L glob_hit p n) (glob_entries sc RULES) = None \<longleftrightarrow>
        (\<forall>r \<in> set RULES. path_scope r = sc \<longrightarrow> (\<forall>p \<in> set (rule_globs r). \<not> glob_matches L glob_hit p n))"
      for sc
      by (auto simp: find_None_iff glob_entries_def)
    have "check_path L p access = Inr None \<longleftrightarrow>
        find (\<lambda>(p, o'). glob_matches L glob_hit p n) (glob_entries ScopeAny RULES) = None
        \<and> (access = Write \<longrightarrow>
             find (\<lambda>(p, o'). glob_matches L glob_hit p n) (glob_entries ScopeModify RULES) = None)"
      using \<open>normalize_absolute p = Inr n\<close> Inr
      by (auto simp: check_path_def sets split: option.splits)
    also have "\<dots> \<longleftrightarrow> (\<forall>r \<in> set RULES. \<not> rule_denies_path L glob_hit r n access)"
      unfolding entries rule_denies_path_def using scope by blast
    finally show ?thesis using \<open>normalize_absolute p = Inr n\<close> Inr by simp
  qed
qed

text \<open>\<open>check_path\<close> never fails with an error: an unnormalisable path is a denial.\<close>

lemma normalize_absolute_Inl: "normalize_absolute p = Inl e \<Longrightarrow> \<exists>m. e = BadPath m"
  by (auto simp: normalize_absolute_def Let_def split: if_splits)

lemma check_path_total: "\<exists>m. check_path L p access = Inr m"
proof (cases "normalize_absolute p")
  case (Inl e)
  then show ?thesis using normalize_absolute_Inl [OF Inl] by (auto simp: check_path_def)
qed (auto simp: check_path_def split: sum.splits option.splits)

lemma check_path_read_write:
  "check_path L p Write = Inr None \<Longrightarrow> check_path L p Read = Inr None"
  by (auto simp: check_path_def split: sum.splits option.splits PolicyError.splits if_splits)

text \<open>Two spellings with the same normal form get the same verdict.\<close>

lemma check_path_normal_form:
  assumes "normalize_absolute p = Inr n" and "normalize_absolute q = Inr n"
  shows "check_path L p access = check_path L q access"
  using assms by (simp add: check_path_def)

end
