(* ===== verification/Policy_Engine.thy ===== *)
theory Policy_Engine
  imports Denylist Core_Types
begin

text \<open>
  \<open>archangel-policy\<close>: the allowlist (\<open>allowlist.rs\<close>) and the engine that combines it with the
  denylist (\<open>lib.rs\<close>).  The interface \<open>policy_gate\<close> is what the executor and the orchestrator
  rely on; its laws are discharged for \<open>evaluate\<close>.
\<close>

section \<open>Allowlist\<close>

record ProfileAllow =
  pa_name :: string
  pa_mode :: OperationMode
  allowed_exec :: "string list"

record Allowlist =
  profiles :: "ProfileAllow list"

text \<open>\<open>toml_allow\<close> is the TOML deserialiser, \<open>read_file\<close> the read of the allowlist file.\<close>

definition allowlist_from_toml ::
  "(string \<Rightarrow> (string, Allowlist) result) \<Rightarrow> string \<Rightarrow> (PolicyError, Allowlist) result"
where
  "allowlist_from_toml toml_allow text' = map_err AllowlistParse (toml_allow text')"

definition allowlist_load ::
  "(string \<Rightarrow> string option) \<Rightarrow> (string \<Rightarrow> (string, Allowlist) result) \<Rightarrow> string
    \<Rightarrow> (PolicyError, Allowlist) result"
where
  "allowlist_load read_file toml_allow path =
    bind_res (ok_or PolicyIo (read_file path)) (allowlist_from_toml toml_allow)"

definition profile :: "Allowlist \<Rightarrow> string \<Rightarrow> ProfileAllow option" where
  "profile al name = find (\<lambda>p. pa_name p = name) (profiles al)"

definition allowlist_is_allowed :: "Allowlist \<Rightarrow> string \<Rightarrow> string \<Rightarrow> OperationMode \<Rightarrow> bool" where
  "allowlist_is_allowed al prof exec mode =
    (case profile al prof of
       None \<Rightarrow> False
     | Some p \<Rightarrow> pa_mode p = mode \<and> list_ex (\<lambda>e. e = exec) (allowed_exec p))"

lemma profile_first:
  "profile al name = Some p \<longleftrightarrow>
    (\<exists>ps qs. profiles al = ps @ p # qs \<and> pa_name p = name \<and> (\<forall>q \<in> set ps. pa_name q \<noteq> name))"
proof
  assume "profile al name = Some p"
  then obtain i where i: "i < length (profiles al)" "pa_name p = name" "p = profiles al ! i"
    "\<forall>j < i. pa_name (profiles al ! j) \<noteq> name"
    unfolding profile_def find_Some_iff by auto
  then have "profiles al = take i (profiles al) @ p # drop (Suc i) (profiles al)"
    by (simp add: id_take_nth_drop)
  moreover have "\<forall>q \<in> set (take i (profiles al)). pa_name q \<noteq> name"
    using i by (auto simp: in_set_conv_nth)
  ultimately show "\<exists>ps qs. profiles al = ps @ p # qs \<and> pa_name p = name \<and> (\<forall>q \<in> set ps. pa_name q \<noteq> name)"
    using i by blast
next
  assume "\<exists>ps qs. profiles al = ps @ p # qs \<and> pa_name p = name \<and> (\<forall>q \<in> set ps. pa_name q \<noteq> name)"
  then obtain ps qs where "profiles al = ps @ p # qs" "pa_name p = name" "\<forall>q \<in> set ps. pa_name q \<noteq> name"
    by blast
  moreover have "find P (xs @ ys) = find P ys" if "\<forall>x \<in> set xs. \<not> P x" for P and xs ys :: "ProfileAllow list"
    using that by (induction xs) auto
  ultimately show "profile al name = Some p" by (simp add: profile_def)
qed

lemma allowlist_is_allowed_iff:
  "allowlist_is_allowed al prof exec mode \<longleftrightarrow>
    (\<exists>p. profile al prof = Some p \<and> pa_mode p = mode \<and> exec \<in> set (allowed_exec p))"
  by (auto simp: allowlist_is_allowed_def list_ex_iff split: option.splits)

lemma empty_allowlist_denies: "\<not> allowlist_is_allowed \<lparr>profiles = []\<rparr> prof exec mode"
  by (simp add: allowlist_is_allowed_iff profile_def)

section \<open>Engine\<close>

datatype ApprovalReason = InteractiveMode RiskLevel | CriticalRisk

datatype DenyReason = RuleMatched string Matched | PathEvaluationError PolicyError

datatype NotAllowedReason = NotAllowlisted string string OperationMode

datatype PolicyDecision =
    Allow
  | RequireApproval ApprovalReason bool
  | Deny DenyCategory string DenyReason
  | NotAllowed NotAllowedReason

definition decision_is_allowed :: "PolicyDecision \<Rightarrow> bool" where
  "decision_is_allowed d = (case d of Allow \<Rightarrow> True | _ \<Rightarrow> False)"

definition decision_needs_approval :: "PolicyDecision \<Rightarrow> bool" where
  "decision_needs_approval d = (case d of RequireApproval _ _ \<Rightarrow> True | _ \<Rightarrow> False)"

record PathIntent =
  pi_path :: string
  pi_access :: PathAccess

record PolicyRequest =
  pr_profile :: string
  pr_mode :: OperationMode
  pr_exec :: string
  pr_risk :: RiskLevel
  pr_commands :: "string list"
  pr_paths :: "PathIntent list"

record PolicyEngine =
  pe_allowlist :: Allowlist

definition deny_from :: "DenyMatch \<Rightarrow> PolicyDecision" where
  "deny_from m = Deny (dm_category m) (dm_rule_id m) (RuleMatched (dm_description m) (dm_matched m))"

fun eval_commands :: "('g, 's, 'r) MatchLib \<Rightarrow> string list \<Rightarrow> PolicyDecision option" where
  "eval_commands L [] = None"
| "eval_commands L (command # rest) =
    (case check_command L command of
       Some m \<Rightarrow> Some (deny_from m)
     | None \<Rightarrow> eval_commands L rest)"

fun eval_paths :: "('g, 's, 'r) MatchLib \<Rightarrow> PathIntent list \<Rightarrow> PolicyDecision option" where
  "eval_paths L [] = None"
| "eval_paths L (intent # rest) =
    (case check_path L (pi_path intent) (pi_access intent) of
       Inr (Some m) \<Rightarrow> Some (deny_from m)
     | Inr None \<Rightarrow> eval_paths L rest
     | Inl e \<Rightarrow> Some (Deny SelfProtection ''path-evaluation-error'' (PathEvaluationError e)))"

definition evaluate :: "('g, 's, 'r) MatchLib \<Rightarrow> PolicyEngine \<Rightarrow> PolicyRequest \<Rightarrow> PolicyDecision" where
  "evaluate L engine request =
    (case eval_commands L (pr_commands request) of
       Some d \<Rightarrow> d
     | None \<Rightarrow>
    (case eval_paths L (pr_paths request) of
       Some d \<Rightarrow> d
     | None \<Rightarrow>
       if \<not> allowlist_is_allowed (pe_allowlist engine) (pr_profile request) (pr_exec request) (pr_mode request)
       then NotAllowed (NotAllowlisted (pr_exec request) (pr_profile request) (pr_mode request))
       else
         let two_person = requires_two_person_rule (pr_risk request) in
         if requires_human_approval (pr_mode request)
         then RequireApproval (InteractiveMode (pr_risk request)) two_person
         else if two_person then RequireApproval CriticalRisk True
         else Allow))"

section \<open>Functional behaviour\<close>

definition request_denied :: "('g, 's, 'r) MatchLib \<Rightarrow> PolicyRequest \<Rightarrow> bool" where
  "request_denied L request \<longleftrightarrow>
    list_ex (\<lambda>c. check_command L c \<noteq> None) (pr_commands request)
    \<or> list_ex (\<lambda>i. check_path L (pi_path i) (pi_access i) \<noteq> Inr None) (pr_paths request)"

definition is_deny :: "PolicyDecision \<Rightarrow> bool" where
  "is_deny d = (case d of Deny _ _ _ \<Rightarrow> True | _ \<Rightarrow> False)"

lemma eval_commands_None: "eval_commands L cs = None \<longleftrightarrow> (\<forall>c \<in> set cs. check_command L c = None)"
  by (induction cs) (auto split: option.splits)

lemma eval_commands_deny: "eval_commands L cs = Some d \<Longrightarrow> is_deny d"
  by (induction cs) (auto simp: is_deny_def deny_from_def split: option.splits)

lemma eval_paths_None:
  "eval_paths L is = None \<longleftrightarrow> (\<forall>i \<in> set is. check_path L (pi_path i) (pi_access i) = Inr None)"
  by (induction "is") (auto split: option.splits sum.splits)

lemma eval_paths_deny: "eval_paths L is = Some d \<Longrightarrow> is_deny d"
  by (induction "is") (auto simp: is_deny_def deny_from_def split: option.splits sum.splits)

lemma evaluate_denied: "request_denied L req \<Longrightarrow> is_deny (evaluate L eng req)"
  by (auto simp: evaluate_def request_denied_def list_ex_iff dest: eval_commands_deny eval_paths_deny
      split: option.splits) (auto simp: eval_commands_None eval_paths_None)

lemma evaluate_not_denied:
  "\<not> request_denied L req \<Longrightarrow>
   evaluate L eng req =
    (if \<not> allowlist_is_allowed (pe_allowlist eng) (pr_profile req) (pr_exec req) (pr_mode req)
     then NotAllowed (NotAllowlisted (pr_exec req) (pr_profile req) (pr_mode req))
     else if pr_mode req = Interactive
     then RequireApproval (InteractiveMode (pr_risk req)) (pr_risk req = Critical)
     else if pr_risk req = Critical then RequireApproval CriticalRisk True
     else Allow)"
proof -
  assume "\<not> request_denied L req"
  then have "eval_commands L (pr_commands req) = None" "eval_paths L (pr_paths req) = None"
    by (auto simp: request_denied_def list_ex_iff eval_commands_None eval_paths_None)
  moreover have "requires_human_approval m \<longleftrightarrow> m = Interactive" for m
    by (cases m) (simp_all add: mode_defs)
  moreover have "requires_two_person_rule r \<longleftrightarrow> r = Critical" for r
    by (cases r) (simp_all add: mode_defs)
  ultimately show ?thesis by (simp add: evaluate_def)
qed

section \<open>The interface to the gates\<close>

text \<open>What the executor and the daemon rely on: a denied request is never anything but denied, and
  whatever is not denied or refused is allowlisted for the profile and mode, with approval
  demanded exactly as mode and risk require.\<close>

locale policy_gate =
  fixes eval :: "'eng \<Rightarrow> PolicyRequest \<Rightarrow> PolicyDecision"
    and denied :: "PolicyRequest \<Rightarrow> bool"
    and listed :: "'eng \<Rightarrow> PolicyRequest \<Rightarrow> bool"
  assumes denied_final: "is_deny (eval e r) \<longleftrightarrow> denied r"
    and refused_unlisted: "\<not> denied r \<Longrightarrow> (\<exists>x. eval e r = NotAllowed x) \<longleftrightarrow> \<not> listed e r"
    and approval: "\<not> denied r \<Longrightarrow> listed e r \<Longrightarrow>
      (\<exists>x. eval e r = RequireApproval x t) \<longleftrightarrow>
        (pr_mode r = Interactive \<or> pr_risk r = Critical) \<and> t = (pr_risk r = Critical)"
begin

lemma allow_iff:
  "eval e r = Allow \<longleftrightarrow>
    \<not> denied r \<and> listed e r \<and> pr_mode r \<noteq> Interactive \<and> pr_risk r \<noteq> Critical"
proof -
  have split: "eval e r = Allow \<longleftrightarrow>
      \<not> is_deny (eval e r) \<and> \<not> (\<exists>x. eval e r = NotAllowed x) \<and> (\<forall>t. \<not> (\<exists>x. eval e r = RequireApproval x t))"
    by (cases "eval e r") (auto simp: is_deny_def)
  show ?thesis
  proof (cases "\<not> denied r \<and> listed e r")
    case True
    then show ?thesis
      using split denied_final [of e r] refused_unlisted [of r e] approval [of r e] by blast
  next
    case False
    then show ?thesis
      using split denied_final [of e r] refused_unlisted [of r e] by blast
  qed
qed

lemma approvable_iff:
  "(\<exists>x t. eval e r = RequireApproval x t) \<longleftrightarrow>
    \<not> denied r \<and> listed e r \<and> (pr_mode r = Interactive \<or> pr_risk r = Critical)"
proof -
  have excl: "eval e r = RequireApproval x t \<Longrightarrow> \<not> is_deny (eval e r) \<and> \<not> (\<exists>y. eval e r = NotAllowed y)"
    for x t by (auto simp: is_deny_def)
  show ?thesis
    using excl denied_final [of e r] refused_unlisted [of r e] approval [of r e] by blast
qed

lemma single_approval_suffices_iff:
  "(\<exists>x. eval e r = RequireApproval x False) \<longleftrightarrow>
    \<not> denied r \<and> listed e r \<and> pr_mode r = Interactive \<and> pr_risk r \<noteq> Critical"
  using approvable_iff [of e r] approval [of r e False] by blast

end

definition engine_lists :: "PolicyEngine \<Rightarrow> PolicyRequest \<Rightarrow> bool" where
  "engine_lists eng req \<longleftrightarrow>
    allowlist_is_allowed (pe_allowlist eng) (pr_profile req) (pr_exec req) (pr_mode req)"

lemma evaluate_is_deny: "is_deny (evaluate L e r) \<longleftrightarrow> request_denied L r"
proof
  show "request_denied L r" if "is_deny (evaluate L e r)"
    by (rule ccontr) (use that evaluate_not_denied [of L r e] in \<open>auto simp: is_deny_def split: if_splits\<close>)
qed (rule evaluate_denied)

interpretation engine: policy_gate "evaluate L" "request_denied L" engine_lists
  for L :: "('g, 's, 'r) MatchLib"
  by unfold_locales (auto simp: evaluate_is_deny evaluate_not_denied engine_lists_def)

section \<open>Properties\<close>

text \<open>The engines of the witnesses: a pattern is its own compiled form, a glob \<open>dir/**\<close> matches
  what lies below \<open>dir\<close>, every other glob and every regular expression matches itself only.\<close>

definition literal_glob_hit :: "string \<Rightarrow> string \<Rightarrow> bool" where
  "literal_glob_hit g path =
    (case strip_suffix ''**'' g of Some dir \<Rightarrow> starts_with dir path | None \<Rightarrow> g = path)"

definition literal_regex_hit :: "string \<Rightarrow> byte list \<Rightarrow> bool" where
  "literal_regex_hit pat bs \<longleftrightarrow> as_bytes pat = bs"

definition literal_lib :: "(string, string list, string list) MatchLib" where
  "literal_lib =
    \<lparr> glob_build = Inr, globset_build = Inr,
      globset_matches = (\<lambda>gs path. filter (\<lambda>i. literal_glob_hit (gs ! i) path) [0..<length gs]),
      regexset_new = Inr,
      regexset_matches = (\<lambda>ps bs. filter (\<lambda>i. literal_regex_hit (ps ! i) bs) [0..<length ps]) \<rparr>"

lemma literal_lib_ok: "match_lib_ok literal_lib literal_glob_hit literal_regex_hit"
  by (auto simp: match_lib_ok_def literal_lib_def sorted_wrt_filter)

text \<open>C11: \<open>evaluate\<close> allows a request to run at once exactly when no rule of the compiled table hits
  any of its commands, every path of it normalises and is hit by no rule that applies to its
  access, the allowlist names the bundle for the profile in the active mode, the mode is not the
  interactive one and the risk is not critical; with a command or a path to check, the rule
  table must also have compiled.\<close>

theorem policy_allow_iff:
  assumes "match_lib_ok L glob_hit regex_hit"
  shows "evaluate L eng req = Allow \<longleftrightarrow>
    (\<forall>c \<in> set (pr_commands req). is_ok (build L)
       \<and> (\<forall>r \<in> set RULES. \<not> rule_denies_command regex_hit r (normalize_command c)))
    \<and> (\<forall>i \<in> set (pr_paths req). is_ok (build L)
       \<and> (\<exists>n. normalize_absolute (pi_path i) = Inr n
             \<and> (\<forall>r \<in> set RULES. \<not> rule_denies_path L glob_hit r n (pi_access i))))
    \<and> (\<exists>p. profile (pe_allowlist eng) (pr_profile req) = Some p
         \<and> pa_mode p = pr_mode req \<and> pr_exec req \<in> set (allowed_exec p))
    \<and> pr_mode req \<noteq> Interactive \<and> pr_risk req \<noteq> Critical"
  unfolding engine.allow_iff request_denied_def engine_lists_def allowlist_is_allowed_iff
  using check_command_None [OF assms] check_path_None [OF assms]
  by (simp add: list_ex_iff)

theorem policy_allow_iff_witness:
  "match_lib_ok literal_lib literal_glob_hit literal_regex_hit
    \<and> evaluate literal_lib
        \<lparr> pe_allowlist = \<lparr> profiles = [\<lparr> pa_name = ''default'', pa_mode = ReadOnly,
            allowed_exec = [''list-services''] \<rparr>] \<rparr> \<rparr>
        \<lparr> pr_profile = ''default'', pr_mode = ReadOnly, pr_exec = ''list-services'', pr_risk = Low,
          pr_commands = [], pr_paths = [] \<rparr> = Allow"
  using policy_allow_iff [OF literal_lib_ok] literal_lib_ok by (simp add: profile_def)

text \<open>C10: deny first.  The decision is a denial exactly when the table did not compile or a rule hits
  some command, or some path does not normalise or is hit; whatever the allowlist, profile, mode
  and risk are.\<close>

theorem policy_deny_iff:
  assumes "match_lib_ok L glob_hit regex_hit"
  shows "is_deny (evaluate L eng req) \<longleftrightarrow>
    (\<exists>c \<in> set (pr_commands req). \<not> is_ok (build L)
       \<or> (\<exists>r \<in> set RULES. rule_denies_command regex_hit r (normalize_command c)))
    \<or> (\<exists>i \<in> set (pr_paths req). \<not> is_ok (build L) \<or> \<not> is_ok (normalize_absolute (pi_path i))
       \<or> (\<exists>n. normalize_absolute (pi_path i) = Inr n
             \<and> (\<exists>r \<in> set RULES. rule_denies_path L glob_hit r n (pi_access i))))"
proof -
  have "(\<exists>n. normalize_absolute p = Inr n \<and> P n) \<longleftrightarrow>
      is_ok (normalize_absolute p) \<and> \<not> (\<exists>n. normalize_absolute p = Inr n \<and> \<not> P n)" for p P
    by (cases "normalize_absolute p") auto
  then show ?thesis
    unfolding engine.denied_final request_denied_def
    using check_command_None [OF assms] check_path_None [OF assms]
    by (simp add: list_ex_iff)
qed

lemma shadow_rule: "\<exists>r \<in> set RULES. rule_denies_path literal_lib literal_glob_hit r ''/etc/shadow'' Read"
  by (simp add: RULES_def rule_denies_path_def rule_globs_def expand_dir_glob_def glob_matches_def
      literal_lib_def literal_glob_hit_def strip_suffix_def strip_prefix_def)

theorem policy_deny_iff_witness:
  "is_deny (evaluate literal_lib
    \<lparr> pe_allowlist = \<lparr> profiles = [\<lparr> pa_name = ''default'', pa_mode = ReadOnly,
        allowed_exec = [''cat''] \<rparr>] \<rparr> \<rparr>
    \<lparr> pr_profile = ''default'', pr_mode = ReadOnly, pr_exec = ''cat'', pr_risk = Low,
      pr_commands = [], pr_paths = [\<lparr> pi_path = ''/etc/x/../shadow'', pi_access = Read \<rparr>] \<rparr>)"
proof -
  have "normalize_absolute ''/etc/x/../shadow'' = Inr ''/etc/shadow''"
    by (simp add: normalize_absolute_def first_def norm_component_def)
  then show ?thesis
    using policy_deny_iff [OF literal_lib_ok] shadow_rule by simp
qed

end
