(* ===== verification/Replay_Guard.thy ===== *)
theory Replay_Guard
  imports Core_Types
begin

text \<open>
  The two replay guards: \<open>archangel-execd/src/replay.rs\<close> (per session, bounded nonce window) and
  the per-connection guard of \<open>archangeld/src/server.rs\<close>.  The interface \<open>replay_guard\<close> states
  what their callers rely on; the consequence for whole request sequences is proved once there.
\<close>

section \<open>Executor guard\<close>

type_synonym nonce = "byte list"

datatype ReplayRejection = NonMonotonicSeq | DuplicateNonce

record ReplayGuard =
  last_seq :: "SessionId \<Rightarrow> u64 option"
  seen_nonces :: "nonce set"
  nonce_order :: "nonce list"

definition NONCE_WINDOW :: nat where
  "NONCE_WINDOW = 4096"

definition replay_new :: ReplayGuard where
  "replay_new = \<lparr> last_seq = Map.empty, seen_nonces = {}, nonce_order = [] \<rparr>"

definition replay_commit :: "ReplayGuard \<Rightarrow> SessionId \<Rightarrow> u64 \<Rightarrow> nonce \<Rightarrow> ReplayGuard" where
  "replay_commit g session seq nonce =
    (let g1 = g\<lparr> last_seq := (last_seq g)(session \<mapsto> seq),
                 seen_nonces := insert nonce (seen_nonces g),
                 nonce_order := nonce_order g @ [nonce] \<rparr> in
     if length (nonce_order g1) > NONCE_WINDOW then
       (case nonce_order g1 of
          evicted # rest \<Rightarrow> g1\<lparr> nonce_order := rest, seen_nonces := seen_nonces g1 - {evicted} \<rparr>
        | [] \<Rightarrow> g1)
     else g1)"

definition admit ::
  "ReplayGuard \<Rightarrow> SessionId \<Rightarrow> u64 \<Rightarrow> nonce \<Rightarrow> ReplayGuard \<times> (ReplayRejection, unit) result"
where
  "admit g session seq nonce =
    (if (case last_seq g session of Some prev \<Rightarrow> seq \<le> prev | None \<Rightarrow> False)
     then (g, Inl NonMonotonicSeq)
     else if nonce \<in> seen_nonces g then (g, Inl DuplicateNonce)
     else (replay_commit g session seq nonce, Inr ()))"

section \<open>Control-plane guard\<close>

datatype CtlReplayRejection = CtlNonMonotonic | CtlDuplicateNonce

record CtlReplayGuard =
  c_last_seq :: "u64 option"
  c_seen_nonces :: "nonce set"

definition ctl_replay_new :: CtlReplayGuard where
  "ctl_replay_new = \<lparr> c_last_seq = None, c_seen_nonces = {} \<rparr>"

definition ctl_admit ::
  "CtlReplayGuard \<Rightarrow> u64 \<Rightarrow> nonce \<Rightarrow> CtlReplayGuard \<times> (CtlReplayRejection, unit) result"
where
  "ctl_admit g seq nonce =
    (if (case c_last_seq g of Some prev \<Rightarrow> seq \<le> prev | None \<Rightarrow> False)
     then (g, Inl CtlNonMonotonic)
     else if nonce \<in> c_seen_nonces g then (g, Inl CtlDuplicateNonce)
     else (g\<lparr> c_seen_nonces := insert nonce (c_seen_nonces g), c_last_seq := Some seq \<rparr>, Inr ()))"

section \<open>Interface\<close>

text \<open>The messages a guard admits from a sequence, and the state the sequence leads to.\<close>

primrec admitted :: "('g \<Rightarrow> 'm \<Rightarrow> 'g \<times> bool) \<Rightarrow> 'g \<Rightarrow> 'm list \<Rightarrow> 'm list" where
  "admitted step g [] = []"
| "admitted step g (m # ms) =
    (if snd (step g m) then [m] else []) @ admitted step (fst (step g m)) ms"

primrec after :: "('g \<Rightarrow> 'm \<Rightarrow> 'g \<times> bool) \<Rightarrow> 'g \<Rightarrow> 'm list \<Rightarrow> 'g" where
  "after step g [] = g"
| "after step g (m # ms) = after step (fst (step g m)) ms"

lemma admitted_append: "admitted step g (ms @ ms') = admitted step g ms @ admitted step (after step g ms) ms'"
  by (induction ms arbitrary: g) auto

lemma after_append: "after step g (ms @ ms') = after step (after step g ms) ms'"
  by (induction ms arbitrary: g) auto

text \<open>A guard admits a message \<open>m\<close> of channel \<open>chan m\<close>; \<open>mark g c\<close> is the highest sequence number
  admitted on channel \<open>c\<close>.\<close>

locale replay_guard =
  fixes step :: "'g \<Rightarrow> 'm \<Rightarrow> 'g \<times> bool"
    and mark :: "'g \<Rightarrow> 'c \<Rightarrow> u64 option"
    and chan :: "'m \<Rightarrow> 'c"
    and seqno :: "'m \<Rightarrow> u64"
  assumes refuse_keeps: "\<not> snd (step g m) \<Longrightarrow> fst (step g m) = g"
    and admit_fresh: "snd (step g m) \<Longrightarrow> mark g (chan m) = Some l \<Longrightarrow> l < seqno m"
    and admit_marks: "snd (step g m) \<Longrightarrow> mark (fst (step g m)) (chan m) = Some (seqno m)"
    and admit_frame: "snd (step g m) \<Longrightarrow> c \<noteq> chan m \<Longrightarrow> mark (fst (step g m)) c = mark g c"
begin

lemma admitted_above_mark:
  "x \<in> set (admitted step g ms) \<Longrightarrow> mark g (chan x) = Some l \<Longrightarrow> l < seqno x"
proof (induction ms arbitrary: g l)
  case (Cons m ms)
  show ?case
  proof (cases "snd (step g m)")
    case True
    show ?thesis
    proof (cases "x \<in> set (admitted step (fst (step g m)) ms)")
      case rest: True
      show ?thesis
      proof (cases "chan x = chan m")
        case True
        then have "seqno m < seqno x"
          using Cons.IH [OF rest] admit_marks [OF \<open>snd (step g m)\<close>] by simp
        moreover have "l < seqno m"
          using admit_fresh \<open>snd (step g m)\<close> Cons.prems(2) True by simp
        ultimately show ?thesis by simp
      next
        case False
        then show ?thesis
          using Cons.IH [OF rest] admit_frame [OF \<open>snd (step g m)\<close>] Cons.prems(2) by simp
      qed
    next
      case False
      then have "x = m" using Cons.prems(1) True by simp
      then show ?thesis using admit_fresh True Cons.prems(2) by simp
    qed
  next
    case False
    then show ?thesis using Cons refuse_keeps [OF False] by simp
  qed
qed simp

lemma admitted_increasing:
  "sorted_wrt (<) (map seqno (filter (\<lambda>m. chan m = c) (admitted step g ms)))"
proof (induction ms arbitrary: g)
  case (Cons m ms)
  show ?case
  proof (cases "snd (step g m) \<and> chan m = c")
    case True
    then have "\<forall>x \<in> set (admitted step (fst (step g m)) ms). chan x = c \<longrightarrow> seqno m < seqno x"
      using admitted_above_mark admit_marks by metis
    then show ?thesis using True Cons.IH by auto
  next
    case False
    then show ?thesis using Cons.IH by auto
  qed
qed simp

lemma admitted_distinct: "distinct (admitted step g ms)"
proof (induction ms arbitrary: g)
  case (Cons m ms)
  have "m \<notin> set (admitted step (fst (step g m)) ms)" if "snd (step g m)"
    using admitted_above_mark [of m "fst (step g m)" ms] admit_marks [OF that] by auto
  then show ?case using Cons.IH by simp
qed simp

text \<open>A message that was admitted once is refused ever after.\<close>

lemma never_admitted_again: "x \<in> set (admitted step g ms) \<Longrightarrow> x \<notin> set (admitted step (after step g ms) ms')"
proof (induction ms arbitrary: g)
  case (Cons m ms)
  show ?case
  proof (cases "x \<in> set (admitted step (fst (step g m)) ms)")
    case True
    then show ?thesis using Cons.IH by simp
  next
    case False
    then have m: "x = m" "snd (step g m)" using Cons.prems by (auto split: if_splits)
    show ?thesis
      using admitted_above_mark [of x "fst (step g m)" "ms @ ms'"] admit_marks [OF m(2)] m(1)
      by (auto simp: admitted_append)
  qed
qed simp

end

definition exec_step :: "ReplayGuard \<Rightarrow> SessionId \<times> u64 \<times> nonce \<Rightarrow> ReplayGuard \<times> bool" where
  "exec_step g m = (case m of (s, q, n) \<Rightarrow> let (g', r) = admit g s q n in (g', is_ok r))"

definition ctl_step :: "CtlReplayGuard \<Rightarrow> u64 \<times> nonce \<Rightarrow> CtlReplayGuard \<times> bool" where
  "ctl_step g m = (case m of (q, n) \<Rightarrow> let (g', r) = ctl_admit g q n in (g', is_ok r))"

lemma last_seq_commit [simp]: "last_seq (replay_commit g s q n) = (last_seq g)(s \<mapsto> q)"
  by (auto simp: replay_commit_def Let_def split: list.splits)

lemma admit_cases:
  obtains (stale) l where "last_seq g s = Some l" "q \<le> l" "admit g s q n = (g, Inl NonMonotonicSeq)"
  | (dup) "n \<in> seen_nonces g" "admit g s q n = (g, Inl DuplicateNonce)"
  | (ok) "\<And>l. last_seq g s = Some l \<Longrightarrow> l < q" "n \<notin> seen_nonces g"
      "admit g s q n = (replay_commit g s q n, Inr ())"
proof -
  consider (a) l where "last_seq g s = Some l" "q \<le> l"
    | (b) "n \<in> seen_nonces g" "\<And>l. last_seq g s = Some l \<Longrightarrow> l < q"
    | (c) "n \<notin> seen_nonces g" "\<And>l. last_seq g s = Some l \<Longrightarrow> l < q"
    by (metis option.inject linorder_not_less)
  then show thesis
  proof cases
    case a
    then show thesis using that(1) by (simp add: admit_def)
  next
    case b
    then have "admit g s q n = (g, Inl DuplicateNonce)"
      by (cases "last_seq g s") (auto simp: admit_def not_le)
    then show thesis using that(2) b by blast
  next
    case c
    then have "admit g s q n = (replay_commit g s q n, Inr ())"
      by (cases "last_seq g s") (auto simp: admit_def not_le)
    then show thesis using that(3) c by blast
  qed
qed

interpretation exec_replay: replay_guard exec_step last_seq fst "fst \<circ> snd"
proof
  fix g :: ReplayGuard and m :: "SessionId \<times> u64 \<times> nonce"
  obtain s q n where m: "m = (s, q, n)" by (cases m)
  show "fst (exec_step g m) = g" if "\<not> snd (exec_step g m)"
    using that by (cases rule: admit_cases [of g s q n]) (auto simp: exec_step_def m)
  show "l < (fst \<circ> snd) m" if "snd (exec_step g m)" "last_seq g (fst m) = Some l" for l
    using that by (cases rule: admit_cases [of g s q n]) (auto simp: exec_step_def m)
  show "last_seq (fst (exec_step g m)) (fst m) = Some ((fst \<circ> snd) m)" if "snd (exec_step g m)"
    using that by (cases rule: admit_cases [of g s q n]) (auto simp: exec_step_def m)
  show "last_seq (fst (exec_step g m)) c = last_seq g c" if "snd (exec_step g m)" "c \<noteq> fst m" for c
    using that by (cases rule: admit_cases [of g s q n]) (auto simp: exec_step_def m)
qed

interpretation ctl_replay: replay_guard ctl_step "\<lambda>g (_ :: unit). c_last_seq g" "\<lambda>_. ()" fst
  by unfold_locales
    (auto simp: ctl_step_def ctl_admit_def Let_def not_le split: option.splits if_splits)

section \<open>The nonce window\<close>

definition replay_wf :: "ReplayGuard \<Rightarrow> bool" where
  "replay_wf g \<longleftrightarrow>
    seen_nonces g = set (nonce_order g) \<and> distinct (nonce_order g) \<and> length (nonce_order g) \<le> NONCE_WINDOW"

lemma replay_wf_new: "replay_wf replay_new"
  by (simp add: replay_wf_def replay_new_def)

lemma replay_commit_order:
  "nonce_order (replay_commit g s q n) =
    (let o' = nonce_order g @ [n] in if length o' > NONCE_WINDOW then tl o' else o')"
  by (auto simp: replay_commit_def Let_def split: list.splits)

lemma replay_wf_admit: "replay_wf g \<Longrightarrow> replay_wf (fst (admit g s q n))"
proof (cases rule: admit_cases [of g s q n])
  case ok
  assume wf: "replay_wf g"
  show ?thesis
  proof (cases "nonce_order g")
    case Nil
    then show ?thesis
      using ok wf by (auto simp: replay_wf_def replay_commit_def NONCE_WINDOW_def)
  next
    case (Cons e rest)
    then show ?thesis
      using ok wf by (auto simp: replay_wf_def replay_commit_def Let_def)
  qed
qed auto

lemma replay_wf_after: "replay_wf g \<Longrightarrow> replay_wf (after exec_step g ms)"
proof (induction ms arbitrary: g)
  case (Cons m ms)
  then show ?case
    using replay_wf_admit [of g "fst m" "fst (snd m)" "snd (snd m)"]
    by (simp add: exec_step_def split_beta)
qed simp

text \<open>The window holds the nonces of the last \<open>NONCE_WINDOW\<close> admitted requests.\<close>

definition spaced :: "nonce list \<Rightarrow> bool" where
  "spaced ns \<longleftrightarrow> (\<forall>i j. i < j \<longrightarrow> j < length ns \<longrightarrow> j - i \<le> NONCE_WINDOW \<longrightarrow> ns ! i \<noteq> ns ! j)"

definition window_of :: "nonce list \<Rightarrow> nonce list" where
  "window_of ns = drop (length ns - NONCE_WINDOW) ns"

lemma window_snoc:
  "window_of (ns @ [n]) =
    (let o' = window_of ns @ [n] in if length o' > NONCE_WINDOW then tl o' else o')"
proof (cases "length ns < NONCE_WINDOW")
  case True
  then show ?thesis by (simp add: window_of_def)
next
  case False
  moreover have "0 < NONCE_WINDOW" by (simp add: NONCE_WINDOW_def)
  ultimately have "drop (length ns - NONCE_WINDOW) ns \<noteq> []" by auto
  then have "tl (drop (length ns - NONCE_WINDOW) ns @ [n]) = drop (Suc (length ns - NONCE_WINDOW)) ns @ [n]"
    by (simp add: drop_Suc tl_drop)
  then show ?thesis using False \<open>0 < NONCE_WINDOW\<close> by (simp add: window_of_def Suc_diff_le)
qed

lemma spaced_snoc:
  assumes "spaced ns" and "n \<notin> set (window_of ns)"
  shows "spaced (ns @ [n])"
  unfolding spaced_def
proof (intro allI impI)
  fix i j
  assume ij: "i < j" "j < length (ns @ [n])" "j - i \<le> NONCE_WINDOW"
  show "(ns @ [n]) ! i \<noteq> (ns @ [n]) ! j"
  proof (cases "j = length ns")
    case True
    then have "i - (length ns - NONCE_WINDOW) < length (window_of ns)"
      "window_of ns ! (i - (length ns - NONCE_WINDOW)) = ns ! i"
      using ij by (auto simp: window_of_def)
    then have "ns ! i \<in> set (window_of ns)" by (metis nth_mem)
    then show ?thesis using True ij assms(2) by (auto simp: nth_append)
  next
    case False
    then show ?thesis using assms(1) ij by (auto simp: spaced_def nth_append)
  qed
qed

lemma window_run:
  assumes "nonce_order g = window_of acc" "seen_nonces g = set (nonce_order g)" "replay_wf g" "spaced acc"
  shows "nonce_order (after exec_step g ms)
      = window_of (acc @ map (snd \<circ> snd) (admitted exec_step g ms))
    \<and> spaced (acc @ map (snd \<circ> snd) (admitted exec_step g ms))"
  using assms
proof (induction ms arbitrary: g acc)
  case (Cons m ms)
  obtain s q n where m: "m = (s, q, n)" by (cases m)
  show ?case
  proof (cases rule: admit_cases [of g s q n])
    case ok
    let ?g = "replay_commit g s q n"
    have step: "exec_step g m = (?g, True)" using ok by (simp add: exec_step_def m)
    have wf: "replay_wf ?g" using replay_wf_admit [OF Cons.prems(3), of s q n] ok by simp
    have order: "nonce_order ?g = window_of (acc @ [n])"
      using Cons.prems(1) by (simp add: replay_commit_order window_snoc)
    have sp: "spaced (acc @ [n])"
      using Cons.prems ok by (intro spaced_snoc) auto
    show ?thesis
      using Cons.IH [OF order _ wf sp] wf step by (simp add: m replay_wf_def)
  qed (use Cons in \<open>auto simp: exec_step_def m\<close>)
qed simp

section \<open>Properties\<close>

text \<open>C15: no replay.  From a fresh guard, whatever requests arrive in whatever order: the sequence
  numbers admitted for one session strictly increase, no request is admitted twice, and two
  admitted requests that carry the same nonce are more than 4096 admissions apart.\<close>

theorem replay_admitted:
  "sorted_wrt (<) (map (fst \<circ> snd) (filter (\<lambda>m. fst m = s) (admitted exec_step replay_new ms)))
    \<and> distinct (admitted exec_step replay_new ms)
    \<and> spaced (map (snd \<circ> snd) (admitted exec_step replay_new ms))"
proof -
  have "nonce_order replay_new = window_of []" "spaced []"
    by (simp_all add: replay_new_def window_of_def spaced_def)
  then have "spaced ([] @ map (snd \<circ> snd) (admitted exec_step replay_new ms))"
    using window_run [of replay_new "[]" ms] replay_wf_new by (simp add: replay_new_def)
  then show ?thesis
    using exec_replay.admitted_increasing exec_replay.admitted_distinct by simp
qed

text \<open>The guard's state stays bounded and consistent.  Every state that requests can lead to
  remembers exactly the nonces of its order queue, without duplicates and at most 4096 of them,
  and a refused request leaves the state as it was.\<close>

theorem replay_state_bounded:
  "replay_wf (after exec_step replay_new ms)
    \<and> (snd (admit (after exec_step replay_new ms) s q n) = Inr ()
       \<or> fst (admit (after exec_step replay_new ms) s q n) = after exec_step replay_new ms)"
proof -
  let ?g = "after exec_step replay_new ms"
  have "snd (admit ?g s q n) = Inr () \<or> fst (admit ?g s q n) = ?g"
    by (cases rule: admit_cases [of ?g s q n]) auto
  then show ?thesis using replay_wf_after [OF replay_wf_new] by blast
qed

end
