(* ===== verification/Rate_Limit.thy ===== *)
theory Rate_Limit
  imports Core_Types
begin

text \<open>
  \<open>archangel-execd/src/ratelimit.rs\<close>: the host-wide blast-rate limiter with its three sliding
  windows.  An \<open>Instant\<close> is the number of nanoseconds since an arbitrary origin; subtraction on
  \<open>nat\<close> truncates at zero, which is \<open>saturating_duration_since\<close>.
\<close>

type_synonym instant = nat
type_synonym duration = nat

definition MINUTE :: duration where
  "MINUTE = 60 * 1000000000"

definition HOUR :: duration where
  "HOUR = 60 * 60 * 1000000000"

record RateLimits =
  actions_per_minute :: u32
  mutating_actions_per_minute :: u32
  critical_actions_per_hour :: u32

definition rate_limits_default :: RateLimits where
  "rate_limits_default =
    \<lparr> actions_per_minute = 20, mutating_actions_per_minute = 5, critical_actions_per_hour = 2 \<rparr>"

record ActionClass =
  ac_mutating :: bool
  ac_critical :: bool

datatype RateRejection = TotalPerMinute | MutatingPerMinute | CriticalPerHour

section \<open>One window\<close>

record Window =
  horizon :: duration
  w_max :: nat
  hits :: "instant list"

definition window_new :: "duration \<Rightarrow> u32 \<Rightarrow> Window" where
  "window_new h m = \<lparr> horizon = h, w_max = unat m, hits = [] \<rparr>"

definition window_prune :: "Window \<Rightarrow> instant \<Rightarrow> Window" where
  "window_prune w now = w\<lparr> hits := dropWhile (\<lambda>front. now - front \<ge> horizon w) (hits w) \<rparr>"

definition window_is_full :: "Window \<Rightarrow> instant \<Rightarrow> Window \<times> bool" where
  "window_is_full w now = (let w1 = window_prune w now in (w1, length (hits w1) \<ge> w_max w1))"

definition window_record :: "Window \<Rightarrow> instant \<Rightarrow> Window" where
  "window_record w now = w\<lparr> hits := hits w @ [now] \<rparr>"

section \<open>The limiter\<close>

record RateLimiter =
  total :: Window
  mutating :: Window
  critical :: Window

definition limiter_new :: "RateLimits \<Rightarrow> RateLimiter" where
  "limiter_new limits =
    \<lparr> total = window_new MINUTE (actions_per_minute limits),
      mutating = window_new MINUTE (mutating_actions_per_minute limits),
      critical = window_new HOUR (critical_actions_per_hour limits) \<rparr>"

definition try_admit ::
  "RateLimiter \<Rightarrow> instant \<Rightarrow> ActionClass \<Rightarrow> RateLimiter \<times> (RateRejection, unit) result"
where
  "try_admit rl now class' =
    (let (t, full) = window_is_full (total rl) now; rl1 = rl\<lparr> total := t \<rparr> in
     if full then (rl1, Inl TotalPerMinute)
     else
     let (m, mfull) = (if ac_mutating class' then window_is_full (mutating rl1) now
                       else (mutating rl1, False));
         rl2 = rl1\<lparr> mutating := m \<rparr> in
     if ac_mutating class' \<and> mfull then (rl2, Inl MutatingPerMinute)
     else
     let (c, cfull) = (if ac_critical class' then window_is_full (critical rl2) now
                       else (critical rl2, False));
         rl3 = rl2\<lparr> critical := c \<rparr> in
     if ac_critical class' \<and> cfull then (rl3, Inl CriticalPerHour)
     else
     let rl4 = rl3\<lparr> total := window_record (total rl3) now \<rparr>;
         rl5 = (if ac_mutating class' then rl4\<lparr> mutating := window_record (mutating rl4) now \<rparr> else rl4);
         rl6 = (if ac_critical class' then rl5\<lparr> critical := window_record (critical rl5) now \<rparr> else rl5) in
     (rl6, Inr ()))"

section \<open>Window invariant\<close>

text \<open>\<open>in_span t h xs\<close> counts the instants of \<open>xs\<close> in the half-open interval of length \<open>h\<close> that
  starts at \<open>t\<close>.\<close>

definition in_span :: "instant \<Rightarrow> duration \<Rightarrow> instant list \<Rightarrow> nat" where
  "in_span t h xs = length (filter (\<lambda>x. t \<le> x \<and> x < t + h) xs)"

text \<open>\<open>w\<close> represents the history \<open>hist\<close> of its admissions up to the clock \<open>now\<close>: what it forgot has
  aged out, and no interval of the length of its horizon holds more than its maximum.\<close>

definition window_inv :: "Window \<Rightarrow> instant list \<Rightarrow> instant \<Rightarrow> bool" where
  "window_inv w hist now \<longleftrightarrow>
    (\<exists>old. hist = old @ hits w \<and> (\<forall>x \<in> set old. x + horizon w \<le> now))
    \<and> (\<forall>x \<in> set hist. x \<le> now)
    \<and> (\<forall>t. in_span t (horizon w) hist \<le> w_max w)
    \<and> 0 < horizon w"

lemma window_inv_new: "0 < h \<Longrightarrow> window_inv (window_new h m) [] now"
  by (simp add: window_inv_def window_new_def in_span_def)

lemma window_prune_simps [simp]:
  "horizon (window_prune w now) = horizon w" "w_max (window_prune w now) = w_max w"
  by (simp_all add: window_prune_def)

lemma window_inv_later: "window_inv w hist now \<Longrightarrow> now \<le> later \<Longrightarrow> window_inv w hist later"
  unfolding window_inv_def by fastforce

lemma window_inv_prune:
  assumes "window_inv w hist now"
  shows "window_inv (window_prune w now) hist now"
proof -
  let ?P = "\<lambda>front. now - front \<ge> horizon w"
  from assms obtain old where old: "hist = old @ hits w" "\<forall>x \<in> set old. x + horizon w \<le> now"
    and le: "\<forall>x \<in> set hist. x \<le> now" and pos: "0 < horizon w"
    by (auto simp: window_inv_def)
  have "hist = (old @ takeWhile ?P (hits w)) @ hits (window_prune w now)"
    using old by (simp add: window_prune_def)
  moreover have "\<forall>x \<in> set (old @ takeWhile ?P (hits w)). x + horizon w \<le> now"
    using old pos by (auto dest!: set_takeWhileD)
  ultimately show ?thesis
    using assms by (auto simp: window_inv_def)
qed

lemma window_not_full_record:
  assumes inv: "window_inv w hist now" and room: "length (hits w) < w_max w"
  shows "window_inv (window_record w now) (hist @ [now]) now"
proof -
  from inv obtain old where old: "hist = old @ hits w" "\<forall>x \<in> set old. x + horizon w \<le> now"
    by (auto simp: window_inv_def)
  have "in_span t (horizon w) (hist @ [now]) \<le> w_max w" for t
  proof (cases "t \<le> now \<and> now < t + horizon w")
    case True
    have "filter (\<lambda>x. t \<le> x \<and> x < t + horizon w) old = []"
      using old(2) True by (auto simp: filter_empty_conv)
    then have "in_span t (horizon w) hist \<le> length (hits w)"
      by (simp add: in_span_def old(1))
    with True room show ?thesis by (simp add: in_span_def)
  next
    case False
    then have "in_span t (horizon w) (hist @ [now]) = in_span t (horizon w) hist"
      by (auto simp: in_span_def)
    then show ?thesis using inv by (simp add: window_inv_def)
  qed
  then show ?thesis using inv old by (auto simp: window_inv_def window_record_def)
qed

text \<open>The contract of a window towards the limiter: a check never changes the admissions it
  represents, and recording is sound after a check that reported room.\<close>

locale sliding_window =
  fixes inv :: "'w \<Rightarrow> instant list \<Rightarrow> instant \<Rightarrow> bool"
    and is_full :: "'w \<Rightarrow> instant \<Rightarrow> 'w \<times> bool"
    and rec :: "'w \<Rightarrow> instant \<Rightarrow> 'w"
  assumes later: "inv w hist now \<Longrightarrow> now \<le> t \<Longrightarrow> inv w hist t"
    and check_keeps: "inv w hist now \<Longrightarrow> inv (fst (is_full w now)) hist now"
    and record_room: "inv w hist now \<Longrightarrow> \<not> snd (is_full w now) \<Longrightarrow>
      inv (rec (fst (is_full w now)) now) (hist @ [now]) now"
begin

definition guarded :: "bool \<Rightarrow> 'w \<Rightarrow> instant \<Rightarrow> 'w \<times> bool" where
  "guarded b w now = (if b then is_full w now else (w, False))"

lemma guarded_keeps: "inv w hist now \<Longrightarrow> inv (fst (guarded b w now)) hist now"
  by (simp add: guarded_def check_keeps)

lemma guarded_record:
  "inv w hist now \<Longrightarrow> \<not> snd (guarded b w now) \<Longrightarrow>
    inv (if b then rec (fst (guarded b w now)) now else fst (guarded b w now))
      (if b then hist @ [now] else hist) now"
  by (cases b) (simp_all add: guarded_def record_room)

end

interpretation rate_window: sliding_window window_inv window_is_full window_record
  by unfold_locales
    (auto simp: window_is_full_def Let_def intro: window_inv_later window_inv_prune
      window_not_full_record)

section \<open>Limiter invariant\<close>

text \<open>One admitted action: its instant and class.  The limiter represents the list of all actions
  it admitted.\<close>

type_synonym admission = "instant \<times> ActionClass"

definition times :: "(ActionClass \<Rightarrow> bool) \<Rightarrow> admission list \<Rightarrow> instant list" where
  "times sel acts = map fst (filter (sel \<circ> snd) acts)"

definition limiter_inv :: "RateLimiter \<Rightarrow> admission list \<Rightarrow> instant \<Rightarrow> bool" where
  "limiter_inv rl acts now \<longleftrightarrow>
    window_inv (total rl) (times (\<lambda>_. True) acts) now
    \<and> window_inv (mutating rl) (times ac_mutating acts) now
    \<and> window_inv (critical rl) (times ac_critical acts) now"

definition limits_of :: "RateLimiter \<Rightarrow> (duration \<times> nat) list" where
  "limits_of rl = map (\<lambda>w. (horizon w, w_max w)) [total rl, mutating rl, critical rl]"

lemma times_snoc [simp]:
  "times sel (acts @ [(now, c)]) = (if sel c then times sel acts @ [now] else times sel acts)"
  by (simp add: times_def)

lemma limiter_inv_later: "limiter_inv rl acts now \<Longrightarrow> now \<le> t \<Longrightarrow> limiter_inv rl acts t"
  by (auto simp: limiter_inv_def intro: window_inv_later)

lemma try_admit_guarded:
  "try_admit rl now c =
    (let t = window_is_full (total rl) now;
         m = rate_window.guarded (ac_mutating c) (mutating rl) now;
         k = rate_window.guarded (ac_critical c) (critical rl) now in
     if snd t then (rl\<lparr> total := fst t \<rparr>, Inl TotalPerMinute)
     else if snd m then (rl\<lparr> total := fst t, mutating := fst m \<rparr>, Inl MutatingPerMinute)
     else if snd k then (rl\<lparr> total := fst t, mutating := fst m, critical := fst k \<rparr>, Inl CriticalPerHour)
     else (rl\<lparr> total := window_record (fst t) now,
              mutating := (if ac_mutating c then window_record (fst m) now else fst m),
              critical := (if ac_critical c then window_record (fst k) now else fst k) \<rparr>, Inr ()))"
  by (simp add: try_admit_def rate_window.guarded_def Let_def split_beta)

lemma try_admit_inv:
  assumes "limiter_inv rl acts now"
  shows "limiter_inv (fst (try_admit rl now c))
    (if is_ok (snd (try_admit rl now c)) then acts @ [(now, c)] else acts) now"
proof -
  let ?m = "rate_window.guarded (ac_mutating c) (mutating rl) now"
  let ?k = "rate_window.guarded (ac_critical c) (critical rl) now"
  from assms have inv: "window_inv (total rl) (times (\<lambda>_. True) acts) now"
      "window_inv (mutating rl) (times ac_mutating acts) now"
      "window_inv (critical rl) (times ac_critical acts) now"
    by (simp_all add: limiter_inv_def)
  note keeps = rate_window.check_keeps [OF inv(1)] rate_window.guarded_keeps [OF inv(2)]
    rate_window.guarded_keeps [OF inv(3)]
  note records = rate_window.record_room [OF inv(1)] rate_window.guarded_record [OF inv(2), of "ac_mutating c"]
    rate_window.guarded_record [OF inv(3), of "ac_critical c"]
  show ?thesis
    using inv keeps records unfolding try_admit_guarded Let_def limiter_inv_def
    by (simp split del: if_split add: if_distrib [of fst] if_distrib [of snd])
      (auto split: if_splits)
qed

lemma is_full_config [simp]:
  "horizon (fst (window_is_full w now)) = horizon w"
  "w_max (fst (window_is_full w now)) = w_max w"
  by (simp_all add: window_is_full_def Let_def)

lemma record_config [simp]:
  "horizon (window_record w now) = horizon w"
  "w_max (window_record w now) = w_max w"
  by (simp_all add: window_record_def)

lemma guarded_config [simp]:
  "horizon (fst (rate_window.guarded b w now)) = horizon w"
  "w_max (fst (rate_window.guarded b w now)) = w_max w"
  by (simp_all add: rate_window.guarded_def)

lemma try_admit_limits: "limits_of (fst (try_admit rl now c)) = limits_of rl"
  by (simp add: try_admit_guarded Let_def limits_of_def)

section \<open>Runs\<close>

text \<open>The limiter over a sequence of attempts; its last component lists the admitted ones.\<close>

primrec limiter_run :: "RateLimiter \<Rightarrow> admission list \<Rightarrow> admission list \<Rightarrow> RateLimiter \<times> admission list" where
  "limiter_run rl acts [] = (rl, acts)"
| "limiter_run rl acts (x # xs) =
    (let (rl', r) = try_admit rl (fst x) (snd x) in
     limiter_run rl' (if is_ok r then acts @ [x] else acts) xs)"

lemma limiter_run_inv:
  assumes "limiter_inv rl acts now" and "sorted (now # map fst xs)"
  shows "limiter_inv (fst (limiter_run rl acts xs)) (snd (limiter_run rl acts xs)) (last (now # map fst xs))
    \<and> limits_of (fst (limiter_run rl acts xs)) = limits_of rl"
  using assms
proof (induction xs arbitrary: rl acts now)
  case (Cons x xs)
  have "limiter_inv rl acts (fst x)"
    using Cons.prems by (auto intro: limiter_inv_later)
  from try_admit_inv [OF this, of "snd x"]
  have step: "limiter_inv (fst (try_admit rl (fst x) (snd x)))
      (if is_ok (snd (try_admit rl (fst x) (snd x))) then acts @ [x] else acts) (fst x)"
    by (simp only: prod.collapse)
  show ?case
    using Cons.IH [OF step] Cons.prems(2) try_admit_limits [of rl "fst x" "snd x"]
    by (simp add: split_beta)
qed simp

lemma limiter_inv_new: "limiter_inv (limiter_new limits) [] now"
  by (simp add: limiter_inv_def limiter_new_def times_def window_inv_new MINUTE_def HOUR_def)

lemma window_inv_bound: "window_inv w hist now \<Longrightarrow> in_span t (horizon w) hist \<le> w_max w"
  by (simp add: window_inv_def)

text \<open>Runs compose.\<close>

lemma limiter_run_acc:
  "limiter_run rl acts xs = (fst (limiter_run rl [] xs), acts @ snd (limiter_run rl [] xs))"
proof (induction xs arbitrary: rl acts)
  case (Cons x xs)
  let ?r = "try_admit rl (fst x) (snd x)"
  show ?case
    using Cons.IH [of "fst ?r" "acts @ [x]"] Cons.IH [of "fst ?r" acts] Cons.IH [of "fst ?r" "[x]"]
    by (cases "is_ok (snd ?r)") (simp_all add: split_beta)
qed simp

lemma limiter_run_append:
  "fst (limiter_run rl [] (xs @ ys)) = fst (limiter_run (fst (limiter_run rl [] xs)) [] ys)"
  "snd (limiter_run rl [] (xs @ ys)) = snd (limiter_run rl [] xs) @ snd (limiter_run (fst (limiter_run rl [] xs)) [] ys)"
proof -
  have "limiter_run rl acts (xs @ ys)
      = limiter_run (fst (limiter_run rl acts xs)) (snd (limiter_run rl acts xs)) ys" for acts
    by (induction xs arbitrary: rl acts) (auto simp: split_beta)
  from this [of "[]"]
  show "fst (limiter_run rl [] (xs @ ys)) = fst (limiter_run (fst (limiter_run rl [] xs)) [] ys)"
    "snd (limiter_run rl [] (xs @ ys)) = snd (limiter_run rl [] xs) @ snd (limiter_run (fst (limiter_run rl [] xs)) [] ys)"
    using limiter_run_acc [of "fst (limiter_run rl [] xs)" "snd (limiter_run rl [] xs)" ys] by simp_all
qed

lemma limiter_run_bound:
  assumes "sorted (map fst attempts)"
    and "acts = snd (limiter_run (limiter_new limits) [] attempts)"
  shows "in_span t MINUTE (map fst acts) \<le> unat (actions_per_minute limits)
    \<and> in_span t MINUTE (map fst (filter (ac_mutating \<circ> snd) acts)) \<le> unat (mutating_actions_per_minute limits)
    \<and> in_span t HOUR (map fst (filter (ac_critical \<circ> snd) acts)) \<le> unat (critical_actions_per_hour limits)"
proof -
  let ?rl = "fst (limiter_run (limiter_new limits) [] attempts)"
  have "sorted (0 # map fst attempts)" using assms(1) by simp
  from limiter_run_inv [OF limiter_inv_new this, of limits]
  have inv: "limiter_inv ?rl acts (last (0 # map fst attempts))"
    and lim: "limits_of ?rl = limits_of (limiter_new limits)"
    using assms(2) by auto
  have conf: "horizon (total ?rl) = MINUTE" "w_max (total ?rl) = unat (actions_per_minute limits)"
    "horizon (mutating ?rl) = MINUTE" "w_max (mutating ?rl) = unat (mutating_actions_per_minute limits)"
    "horizon (critical ?rl) = HOUR" "w_max (critical ?rl) = unat (critical_actions_per_hour limits)"
    using lim by (simp_all add: limits_of_def limiter_new_def window_new_def)
  from inv have "in_span t (horizon (total ?rl)) (times (\<lambda>_. True) acts) \<le> w_max (total ?rl)"
    "in_span t (horizon (mutating ?rl)) (times ac_mutating acts) \<le> w_max (mutating ?rl)"
    "in_span t (horizon (critical ?rl)) (times ac_critical acts) \<le> w_max (critical ?rl)"
    unfolding limiter_inv_def by (auto intro: window_inv_bound)
  then show ?thesis unfolding conf by (simp add: times_def comp_def)
qed

section \<open>Properties\<close>

text \<open>C16: the blast rate is bounded.  For every sequence of attempts at non-decreasing instants, any
  interval of one minute holds at most the configured number of admitted actions and of admitted
  mutating actions, and any interval of one hour at most the configured number of admitted
  critical ones; a limit of zero admits nothing.\<close>

theorem rate_limit_bound:
  assumes "sorted (map fst attempts)"
    and "acts = snd (limiter_run (limiter_new limits) [] attempts)"
  shows "in_span t MINUTE (map fst acts) \<le> unat (actions_per_minute limits)
    \<and> in_span t MINUTE (map fst (filter (ac_mutating \<circ> snd) acts)) \<le> unat (mutating_actions_per_minute limits)
    \<and> in_span t HOUR (map fst (filter (ac_critical \<circ> snd) acts)) \<le> unat (critical_actions_per_hour limits)"
  using assms by (rule limiter_run_bound)

theorem rate_limit_bound_witness:
  "let limits = \<lparr> actions_per_minute = 2, mutating_actions_per_minute = 1, critical_actions_per_hour = 0 \<rparr>;
       read = \<lparr> ac_mutating = False, ac_critical = False \<rparr>;
       acts = snd (limiter_run (limiter_new limits) [] [(0, read), (1, read), (2, read)]) in
   acts = [(0, read), (1, read)] \<and> in_span 0 MINUTE (map fst acts) \<le> 2"
proof -
  let ?limits = "\<lparr> actions_per_minute = 2, mutating_actions_per_minute = 1, critical_actions_per_hour = 0 \<rparr>"
  let ?read = "\<lparr> ac_mutating = False, ac_critical = False \<rparr>"
  have run: "snd (limiter_run (limiter_new ?limits) [] [(0, ?read), (1, ?read), (2, ?read)])
      = [(0, ?read), (1, ?read)]"
    by (simp add: limiter_new_def window_new_def try_admit_def window_is_full_def window_prune_def
        window_record_def MINUTE_def)
  show ?thesis
    using rate_limit_bound [of "[(0, ?read), (1, ?read), (2, ?read)]" _ ?limits 0, OF _ run [symmetric]] run
    by simp
qed

text \<open>A rejected attempt consumes no budget: it names the first full window in the order total,
  mutating, critical, and the only change it makes is to forget hits that have aged out, so
  the same attempt at the same instant is rejected again for the same reason.\<close>

theorem rate_rejection_free:
  assumes "try_admit rl now c = (rl', Inl why)"
  shows "try_admit rl' now c = (rl', Inl why)
    \<and> rl' \<in> {rl\<lparr> total := window_prune (total rl) now \<rparr>,
             rl\<lparr> total := window_prune (total rl) now, mutating := window_prune (mutating rl) now \<rparr>,
             rl\<lparr> total := window_prune (total rl) now, critical := window_prune (critical rl) now \<rparr>,
             rl\<lparr> total := window_prune (total rl) now, mutating := window_prune (mutating rl) now,
                critical := window_prune (critical rl) now \<rparr>}"
proof -
  have idem: "window_prune (window_prune w now) now = window_prune w now" for w :: Window
    by (simp add: window_prune_def)
  show ?thesis
    using assms
    by (auto simp: try_admit_def window_is_full_def Let_def idem split: if_splits)
qed

theorem rate_rejection_free_witness:
  "let rl = limiter_new \<lparr> actions_per_minute = 0, mutating_actions_per_minute = 1, critical_actions_per_hour = 1 \<rparr>;
       c = \<lparr> ac_mutating = True, ac_critical = True \<rparr> in
   try_admit (fst (try_admit rl 5 c)) 5 c = (fst (try_admit rl 5 c), Inl TotalPerMinute)"
proof -
  let ?rl = "limiter_new \<lparr> actions_per_minute = 0, mutating_actions_per_minute = 1, critical_actions_per_hour = 1 \<rparr>"
  let ?c = "\<lparr> ac_mutating = True, ac_critical = True \<rparr>"
  have "try_admit ?rl 5 ?c = (fst (try_admit ?rl 5 ?c), Inl TotalPerMinute)"
    by (simp add: limiter_new_def window_new_def try_admit_def window_is_full_def Let_def window_prune_def)
  then show ?thesis using rate_rejection_free by (metis (no_types, lifting))
qed

end
