(* ===== verification/Sandbox_Limits.thy ===== *)
theory Sandbox_Limits
  imports Rust_Strings
begin

text \<open>
  \<open>archangel-sandbox\<close>, part one: the resource ceilings and the per-action cgroup
  (\<open>cgroup.rs\<close>), the capability set (\<open>capability.rs\<close>) and the crate's errors.  The capability
  names come from the crate \<open>caps\<close>, whose canonicalisation and parser are parameters.  The
  cgroup file system is an explicit state; which creations, writes and removals the kernel
  accepts is a parameter.
\<close>

datatype LimitMessage =
    CpuExpectedPercent string
  | CpuNonInteger string
  | CpuOverflow string
  | CpuZero
  | CpuOverCeiling u64
  | MemEmpty
  | MemUnknownUnit string
  | MemNonInteger string
  | MemAmountOverflow string
  | MemByteOverflow string
  | MemZero
  | MemOverCeiling u64

datatype CgroupMessage =
    CgroupReadSelf
  | CgroupNoV2
  | CgroupUnsafeName string
  | CgroupCreate string
  | CgroupWrite string

datatype PathProblem = PathEmpty | PathNotAbsolute | PathTooLong | PathNul | PathDotDot

datatype SandboxError =
    UnknownProfile string
  | UnknownCapability string
  | InvalidLimit LimitMessage
  | InvalidProfile string PathProblem
  | SeccompCompile string
  | CgroupFailed CgroupMessage
  | Unsupported

section \<open>CPU ceiling\<close>

definition CPU_PERIOD_US :: u64 where
  "CPU_PERIOD_US = 100000"

definition MAX_CPU_PERCENT :: u64 where
  "MAX_CPU_PERCENT = 100"

definition MAX_MEMORY_BYTES :: u64 where
  "MAX_MEMORY_BYTES = 1024 * 1024 * 1024 * 1024"

definition parse_u64 :: "string \<Rightarrow> u64 option" where
  "parse_u64 s = map_option of_nat (parse_unsigned (2 ^ 64 - 1) s)"

record CpuMax =
  percent :: u64

definition cpu_parse :: "string \<Rightarrow> (SandboxError, CpuMax) result" where
  "cpu_parse s0 =
    (let s = trim s0 in
     bind_res (ok_or (InvalidLimit (CpuExpectedPercent s)) (strip_suffix ''%'' s)) (\<lambda>digits.
     if digits = [] \<or> \<not> list_all is_ascii_digit digits then Inl (InvalidLimit (CpuNonInteger s))
     else
     bind_res (ok_or (InvalidLimit (CpuOverflow s)) (parse_u64 digits)) (\<lambda>p.
     if p = 0 then Inl (InvalidLimit CpuZero)
     else if p > MAX_CPU_PERCENT then Inl (InvalidLimit (CpuOverCeiling p))
     else Inr \<lparr> percent = p \<rparr>)))"

definition saturating_mul :: "u64 \<Rightarrow> u64 \<Rightarrow> u64" where
  "saturating_mul a b = (case checked_mul a b of Some c \<Rightarrow> c | None \<Rightarrow> - 1)"

definition cpu_quota :: "CpuMax \<Rightarrow> u64" where
  "cpu_quota c = saturating_mul (percent c) CPU_PERIOD_US div 100"

definition cpu_cgroup_value :: "CpuMax \<Rightarrow> string" where
  "cpu_cgroup_value c = show_nat (unat (cpu_quota c)) @ '' '' @ show_nat (unat CPU_PERIOD_US)"

section \<open>Memory ceiling\<close>

record MemoryMax =
  bytes :: u64

definition strip_suffix_char :: "char list \<Rightarrow> string \<Rightarrow> string option" where
  "strip_suffix_char cs s = (if s \<noteq> [] \<and> last s \<in> set cs then Some (butlast s) else None)"

definition memory_unit :: "string \<Rightarrow> (string \<times> u64) option" where
  "memory_unit s =
    (case strip_suffix_char [CHR ''k'', CHR ''K''] s of
       Some p \<Rightarrow> Some (p, 1024)
     | None \<Rightarrow>
    (case strip_suffix_char [CHR ''m'', CHR ''M''] s of
       Some p \<Rightarrow> Some (p, 1024 * 1024)
     | None \<Rightarrow>
    (case strip_suffix_char [CHR ''g'', CHR ''G''] s of
       Some p \<Rightarrow> Some (p, 1024 * 1024 * 1024)
     | None \<Rightarrow>
       if s \<noteq> [] \<and> is_ascii_digit (last s) then Some (s, 1) else None)))"

definition memory_parse :: "string \<Rightarrow> (SandboxError, MemoryMax) result" where
  "memory_parse s0 =
    (let s = trim s0 in
     if s = [] then Inl (InvalidLimit MemEmpty)
     else
     bind_res (ok_or (InvalidLimit (MemUnknownUnit s)) (memory_unit s)) (\<lambda>(num_part, multiplier).
     if num_part = [] \<or> \<not> list_all is_ascii_digit num_part then Inl (InvalidLimit (MemNonInteger s))
     else
     bind_res (ok_or (InvalidLimit (MemAmountOverflow s)) (parse_u64 num_part)) (\<lambda>value.
     bind_res (ok_or (InvalidLimit (MemByteOverflow s)) (checked_mul value multiplier)) (\<lambda>b.
     if b = 0 then Inl (InvalidLimit MemZero)
     else if b > MAX_MEMORY_BYTES then Inl (InvalidLimit (MemOverCeiling b))
     else Inr \<lparr> bytes = b \<rparr>))))"

definition memory_cgroup_value :: "MemoryMax \<Rightarrow> string" where
  "memory_cgroup_value m = show_nat (unat (bytes m))"

section \<open>The per-action cgroup\<close>

definition CGROUP_V2_MOUNT :: string where
  "CGROUP_V2_MOUNT = ''/sys/fs/cgroup''"

fun find_map :: "('a \<Rightarrow> 'b option) \<Rightarrow> 'a list \<Rightarrow> 'b option" where
  "find_map f [] = None"
| "find_map f (x # xs) = (case f x of Some y \<Rightarrow> Some y | None \<Rightarrow> find_map f xs)"

definition parse_self_cgroup_v2 :: "string \<Rightarrow> string option" where
  "parse_self_cgroup_v2 proc_content =
    find_map (\<lambda>line. Option.bind (strip_prefix ''0::'' line) (\<lambda>rest.
      if starts_with ''/'' rest then Some rest else None)) (str_lines proc_content)"

definition safe_component :: "string \<Rightarrow> bool" where
  "safe_component name \<longleftrightarrow>
    name \<noteq> [] \<and> length name \<le> 128 \<and> CHR ''/'' \<notin> set name \<and> CHR 0x00 \<notin> set name
    \<and> name \<noteq> ''.'' \<and> name \<noteq> ''..''"

text \<open>The directories and files of the cgroup hierarchy, and what the kernel accepts.\<close>

record CgroupFs =
  cg_dirs :: "string set"
  cg_files :: "string \<Rightarrow> string option"

record CgroupKernel =
  ck_create :: "string \<Rightarrow> bool"
  ck_write :: "string \<Rightarrow> bool"
  ck_remove :: "string \<Rightarrow> bool"

record Cgroup =
  cg_path :: string

definition fs_create_dir :: "CgroupKernel \<Rightarrow> CgroupFs \<Rightarrow> string \<Rightarrow> CgroupFs \<times> bool" where
  "fs_create_dir K fs path =
    (if path \<notin> cg_dirs fs \<and> ck_create K path
     then (fs\<lparr> cg_dirs := insert path (cg_dirs fs) \<rparr>, True) else (fs, False))"

definition cgroup_write_file ::
  "CgroupKernel \<Rightarrow> CgroupFs \<Rightarrow> Cgroup \<Rightarrow> string \<Rightarrow> string \<Rightarrow> CgroupFs \<times> (SandboxError, unit) result"
where
  "cgroup_write_file K fs cg file value =
    (let target = path_join (cg_path cg) file in
     if ck_write K target then (fs\<lparr> cg_files := (cg_files fs)(target \<mapsto> value) \<rparr>, Inr ())
     else (fs, Inl (CgroupFailed (CgroupWrite target))))"

definition cgroup_drop :: "CgroupKernel \<Rightarrow> CgroupFs \<Rightarrow> Cgroup \<Rightarrow> CgroupFs" where
  "cgroup_drop K fs cg =
    (if ck_remove K (cg_path cg) then
       fs\<lparr> cg_dirs := cg_dirs fs - {cg_path cg},
          cg_files := (\<lambda>f. if starts_with (cg_path cg @ ''/'') f then None else cg_files fs f) \<rparr>
     else fs)"

text \<open>An optional limit file, written when the limit is declared.\<close>

definition write_limit ::
  "CgroupKernel \<Rightarrow> CgroupFs \<Rightarrow> Cgroup \<Rightarrow> string \<Rightarrow> string option \<Rightarrow> CgroupFs \<times> (SandboxError, unit) result"
where
  "write_limit K fs cg file lim =
    (case lim of None \<Rightarrow> (fs, Inr ()) | Some v \<Rightarrow> cgroup_write_file K fs cg file v)"

definition create_under ::
  "CgroupKernel \<Rightarrow> CgroupFs \<Rightarrow> string \<Rightarrow> string \<Rightarrow> CpuMax option \<Rightarrow> MemoryMax option
    \<Rightarrow> CgroupFs \<times> (SandboxError, Cgroup) result"
where
  "create_under K fs parent name cpu memory =
    (if \<not> safe_component name then (fs, Inl (CgroupFailed (CgroupUnsafeName name)))
     else
     let path = path_join parent name; (fs1, made) = fs_create_dir K fs path in
     if \<not> made then (fs1, Inl (CgroupFailed (CgroupCreate path)))
     else
     let cg = \<lparr> cg_path = path \<rparr>;
         (fs2, r2) = write_limit K fs1 cg ''cpu.max'' (map_option cpu_cgroup_value cpu) in
     case r2 of
       Inl e \<Rightarrow> (cgroup_drop K fs2 cg, Inl e)
     | Inr _ \<Rightarrow>
         let (fs3, r3) = write_limit K fs2 cg ''memory.max'' (map_option memory_cgroup_value memory) in
         (case r3 of
            Inl e \<Rightarrow> (cgroup_drop K fs3 cg, Inl e)
          | Inr _ \<Rightarrow> (fs3, Inr cg)))"

definition trim_start_slashes :: "string \<Rightarrow> string" where
  "trim_start_slashes s = dropWhile (\<lambda>c. c = CHR ''/'') s"

text \<open>\<open>proc_self\<close> is the content of \<open>/proc/self/cgroup\<close>, if it can be read.\<close>

definition create_for_self ::
  "CgroupKernel \<Rightarrow> CgroupFs \<Rightarrow> string option \<Rightarrow> string \<Rightarrow> CpuMax option \<Rightarrow> MemoryMax option
    \<Rightarrow> CgroupFs \<times> (SandboxError, Cgroup option) result"
where
  "create_for_self K fs proc_self name cpu memory =
    (if cpu = None \<and> memory = None then (fs, Inr None)
     else case proc_self of
       None \<Rightarrow> (fs, Inl (CgroupFailed CgroupReadSelf))
     | Some proc \<Rightarrow>
        (case parse_self_cgroup_v2 proc of
           None \<Rightarrow> (fs, Inl (CgroupFailed CgroupNoV2))
         | Some rel \<Rightarrow>
             let root = path_join CGROUP_V2_MOUNT (trim_start_slashes rel);
                 (fs', r) = create_under K fs root name cpu memory in
             (fs', map_ok Some r)))"

definition cgroup_add_pid ::
  "CgroupKernel \<Rightarrow> CgroupFs \<Rightarrow> Cgroup \<Rightarrow> u32 \<Rightarrow> CgroupFs \<times> (SandboxError, unit) result"
where
  "cgroup_add_pid K fs cg pid = cgroup_write_file K fs cg ''cgroup.procs'' (show_nat (unat pid))"

section \<open>Capabilities\<close>

text \<open>\<open>to_canonical\<close> and \<open>is_cap\<close> stand for \<open>caps::to_canonical\<close> and for a successful parse as a
  \<open>caps::Capability\<close>.\<close>

record CapsLib =
  to_canonical :: "string \<Rightarrow> string"
  is_cap :: "string \<Rightarrow> bool"

record CapabilitySet =
  cap_names :: "string set"

definition capability_resolve :: "CapsLib \<Rightarrow> string list \<Rightarrow> (SandboxError, CapabilitySet) result" where
  "capability_resolve L declared =
    map_ok (\<lambda>names. \<lparr> cap_names = names \<rparr>)
      (fold_res (\<lambda>raw names.
         let canonical = to_canonical L raw in
         if \<not> is_cap L canonical then Inl (UnknownCapability raw)
         else Inr (insert canonical names)) declared {})"

section \<open>Lemmas\<close>

lemma parse_u64_Some: "parse_u64 s = Some v \<Longrightarrow> parse_unsigned (2 ^ 64 - 1) s = Some (unat v)"
proof -
  assume "parse_u64 s = Some v"
  then obtain n where n: "parse_unsigned (2 ^ 64 - 1) s = Some n" "v = of_nat n"
    by (auto simp: parse_u64_def)
  then have "n < 2 ^ 64" using parse_unsigned_le [OF n(1)] by simp
  then have "unat v = n" using n(2) by (simp add: unat_of_nat)
  with n show ?thesis by simp
qed

lemma digits_no_plus: "list_all is_ascii_digit ds \<Longrightarrow> strip_prefix ''+'' ds = None"
proof (cases ds)
  case (Cons c cs)
  assume "list_all is_ascii_digit ds"
  with Cons have "c \<noteq> CHR ''+''" by (auto simp: is_ascii_digit_def)
  with Cons show ?thesis by (simp add: strip_prefix_def)
qed (simp add: strip_prefix_def)

lemma parse_u64_digits:
  assumes "list_all is_ascii_digit ds" and "parse_u64 ds = Some v"
  shows "dec_value 0 ds = Some (unat v)"
  using parse_u64_Some [OF assms(2)] digits_no_plus [OF assms(1)]
  by (auto simp: parse_unsigned_def Let_def split: option.splits if_splits)

lemma cpu_parse_ok:
  assumes "cpu_parse s = Inr c"
  shows "\<exists>ds. trim s = ds @ ''%'' \<and> list_all is_ascii_digit ds
      \<and> dec_value 0 ds = Some (unat (percent c)) \<and> 1 \<le> unat (percent c) \<and> unat (percent c) \<le> 100"
proof -
  from assms obtain ds where ds: "trim s = ds @ ''%''" "list_all is_ascii_digit ds"
    "parse_u64 ds = Some (percent c)" "percent c \<noteq> 0" "percent c \<le> MAX_CPU_PERCENT"
    by (auto simp: cpu_parse_def Let_def bind_res_eq_Inr strip_suffix_Some not_less split: if_splits)
  have "1 \<le> unat (percent c)" using ds(4) by (simp add: unat_eq_0 Suc_le_eq flip: neq0_conv)
  moreover have "unat (percent c) \<le> 100" using ds(5) by (simp add: word_le_nat_alt MAX_CPU_PERCENT_def)
  ultimately show ?thesis using ds parse_u64_digits by blast
qed

lemma cpu_quota_exact:
  assumes "unat (percent c) \<le> 100"
  shows "unat (cpu_quota c) = unat (percent c) * 1000"
proof -
  let ?p = "unat (percent c)"
  have bound: "?p * 100000 < 2 ^ 64" using assms by simp
  then have "checked_mul (percent c) CPU_PERIOD_US = Some (percent c * CPU_PERIOD_US)"
    by (simp add: checked_mul_def CPU_PERIOD_US_def)
  moreover have "unat (percent c * CPU_PERIOD_US) = ?p * 100000"
    using bound by (simp add: unat_word_ariths CPU_PERIOD_US_def)
  ultimately show ?thesis
    by (simp add: cpu_quota_def saturating_mul_def unat_div)
qed

text \<open>The amount and unit that a memory ceiling denotes.\<close>

definition memory_denotes :: "string \<Rightarrow> nat \<Rightarrow> bool" where
  "memory_denotes s n \<longleftrightarrow>
    (\<exists>ds u v. dec_value 0 ds = Some v \<and> list_all is_ascii_digit ds \<and> ds \<noteq> [] \<and> n = v * u
      \<and> (u = 1 \<and> s = ds
         \<or> u = 1024 \<and> s \<in> {ds @ ''k'', ds @ ''K''}
         \<or> u = 1024 ^ 2 \<and> s \<in> {ds @ ''m'', ds @ ''M''}
         \<or> u = 1024 ^ 3 \<and> s \<in> {ds @ ''g'', ds @ ''G''}))"

lemma strip_suffix_char_Some:
  "strip_suffix_char cs s = Some p \<longleftrightarrow> (\<exists>c \<in> set cs. s = p @ [c])"
  by (auto simp: strip_suffix_char_def) (metis append_butlast_last_id)

lemma memory_unit_Some:
  assumes "memory_unit s = Some (ds, u)"
  shows "u = 1 \<and> s = ds \<or> u = 1024 \<and> s \<in> {ds @ ''k'', ds @ ''K''}
    \<or> u = 1024 ^ 2 \<and> s \<in> {ds @ ''m'', ds @ ''M''} \<or> u = 1024 ^ 3 \<and> s \<in> {ds @ ''g'', ds @ ''G''}"
  using assms unfolding memory_unit_def
  by (auto simp: strip_suffix_char_Some split: option.splits if_splits)

lemma memory_parse_ok:
  assumes "memory_parse s = Inr m"
  shows "memory_denotes (trim s) (unat (bytes m)) \<and> 1 \<le> unat (bytes m) \<and> unat (bytes m) \<le> 1024 ^ 4"
proof -
  from assms obtain ds u v where unit: "memory_unit (trim s) = Some (ds, u)"
    and ds: "ds \<noteq> []" "list_all is_ascii_digit ds" "parse_u64 ds = Some v"
    and b: "checked_mul v u = Some (bytes m)" "bytes m \<noteq> 0" "bytes m \<le> MAX_MEMORY_BYTES"
    by (auto simp: memory_parse_def Let_def bind_res_eq_Inr not_less split: if_splits)
  have val: "dec_value 0 ds = Some (unat v)" "unat (bytes m) = unat v * unat u"
    using parse_u64_digits [OF ds(2,3)] checked_mul_Some [OF b(1)] by auto
  have "memory_denotes (trim s) (unat (bytes m))"
    unfolding memory_denotes_def
    using memory_unit_Some [OF unit] ds val
    by (intro exI [of _ ds] exI [of _ "unat u"] exI [of _ "unat v"]) auto
  moreover have "1 \<le> unat (bytes m)" using b(2) by (simp add: unat_eq_0 Suc_le_eq flip: neq0_conv)
  moreover have "unat (bytes m) \<le> 1024 ^ 4"
    using b(3) by (simp add: word_le_nat_alt MAX_MEMORY_BYTES_def)
  ultimately show ?thesis by blast
qed

lemma capability_fold_ok:
  assumes "fold_res (\<lambda>raw names. let canonical = to_canonical L raw in
      if \<not> is_cap L canonical then Inl (UnknownCapability raw) else Inr (insert canonical names)) ds acc
    = Inr names"
  shows "names = acc \<union> to_canonical L ` set ds \<and> (\<forall>d \<in> set ds. is_cap L (to_canonical L d))"
  using assms by (induction ds arbitrary: acc) (auto simp: Let_def split: if_splits)

lemma capability_resolve_ok:
  assumes "capability_resolve L ds = Inr cs"
  shows "cap_names cs = to_canonical L ` set ds \<and> (\<forall>n \<in> cap_names cs. is_cap L n)"
  using assms capability_fold_ok unfolding capability_resolve_def map_ok_eq_Inr by fastforce

lemma write_limit_ok:
  assumes "write_limit K fs cg file lim = (fs', r)"
  shows "cg_dirs fs' = cg_dirs fs
    \<and> (r = Inr () \<longrightarrow> cg_files fs' = (case lim of None \<Rightarrow> cg_files fs
         | Some v \<Rightarrow> (cg_files fs)(path_join (cg_path cg) file \<mapsto> v)))"
  using assms by (auto simp: write_limit_def cgroup_write_file_def Let_def split: option.splits if_splits)

lemma path_join_limit:
  assumes "safe_component n" and "\<not> starts_with ''/'' f"
  shows "path_join (path_join p n) f = path_join p n @ ''/'' @ f"
proof -
  have "\<not> starts_with ''/'' n" using assms(1) by (auto simp: safe_component_def starts_with_iff)
  moreover have "last n \<noteq> CHR ''/''" "n \<noteq> []"
    using assms(1) by (auto simp: safe_component_def dest: last_in_set)
  ultimately show ?thesis using assms(2) by (simp add: path_join_def)
qed

lemma cgroup_drop_dirs:
  "ck_remove K (cg_path cg) \<Longrightarrow> cg_dirs (cgroup_drop K fs cg) = cg_dirs fs - {cg_path cg}"
  by (simp add: cgroup_drop_def)

section \<open>Properties\<close>

text \<open>The CPU ceiling.  An accepted text is a decimal number from 1 to 100 and a percent sign, up
  to surrounding white space; the value written to \<open>cpu.max\<close> is exactly that share of the 100000
  microsecond period, computed without overflow.\<close>

theorem cpu_ceiling_exact:
  assumes "cpu_parse s = Inr c"
  shows "\<exists>ds p. trim s = ds @ ''%'' \<and> dec_value 0 ds = Some p \<and> 1 \<le> p \<and> p \<le> 100
    \<and> cpu_cgroup_value c = show_nat (p * 1000) @ '' '' @ show_nat 100000"
proof -
  from cpu_parse_ok [OF assms] obtain ds where "trim s = ds @ ''%''"
    "dec_value 0 ds = Some (unat (percent c))" "1 \<le> unat (percent c)" "unat (percent c) \<le> 100"
    by blast
  then show ?thesis
    using cpu_quota_exact [of c]
    by (intro exI [of _ ds] exI [of _ "unat (percent c)"]) (simp add: cpu_cgroup_value_def CPU_PERIOD_US_def)
qed

lemma cpu_sample: "cpu_parse ''25%'' = Inr \<lparr> percent = 25 \<rparr>"
proof -
  have "trim ''25%'' = ''25%''" by (rule trim_plain) (simp add: plain_char_def)
  then show ?thesis
    by (simp add: cpu_parse_def strip_suffix_def strip_prefix_def is_ascii_digit_def parse_u64_def
        parse_unsigned_def MAX_CPU_PERCENT_def)
qed

theorem cpu_ceiling_exact_witness:
  "\<exists>ds p. trim ''25%'' = ds @ ''%'' \<and> dec_value 0 ds = Some p \<and> 1 \<le> p \<and> p \<le> 100
    \<and> cpu_cgroup_value \<lparr> percent = 25 \<rparr> = show_nat (p * 1000) @ '' '' @ show_nat 100000"
  by (rule cpu_ceiling_exact [OF cpu_sample])

text \<open>The memory ceiling.  An accepted text denotes, as a plain or \<open>K\<close>, \<open>M\<close> or \<open>G\<close> suffixed decimal,
  exactly the number of bytes written to \<open>memory.max\<close>; that number is at least 1 and at most
  one tebibyte, and no intermediate product wraps around.\<close>

theorem memory_ceiling_exact:
  assumes "memory_parse s = Inr m"
  shows "\<exists>n. memory_denotes (trim s) n \<and> 1 \<le> n \<and> n \<le> 1024 ^ 4 \<and> memory_cgroup_value m = show_nat n"
  using memory_parse_ok [OF assms] by (auto simp: memory_cgroup_value_def)

lemma memory_sample: "memory_parse ''128M'' = Inr \<lparr> bytes = 134217728 \<rparr>"
proof -
  have "trim ''128M'' = ''128M''" by (rule trim_plain) (simp add: plain_char_def)
  then show ?thesis
    by (simp add: memory_parse_def memory_unit_def strip_suffix_char_def strip_prefix_def is_ascii_digit_def
        parse_u64_def parse_unsigned_def checked_mul_def MAX_MEMORY_BYTES_def)
qed

theorem memory_ceiling_exact_witness:
  "\<exists>n. memory_denotes (trim ''128M'') n \<and> 1 \<le> n \<and> n \<le> 1024 ^ 4
    \<and> memory_cgroup_value \<lparr> bytes = 134217728 \<rparr> = show_nat n"
  by (rule memory_ceiling_exact [OF memory_sample])

text \<open>C40: a per-action cgroup is created completely or not at all.  On success its directory is new and
  each declared limit is in its file; on failure, provided the kernel lets the directory go,
  the set of directories is what it was.\<close>

theorem cgroup_all_or_nothing:
  assumes "create_under K fs parent name cpu memory = (fs', r)"
  defines "path \<equiv> path_join parent name"
  shows "(case r of
      Inr cg \<Rightarrow> cg_path cg = path \<and> path \<notin> cg_dirs fs \<and> cg_dirs fs' = insert path (cg_dirs fs)
        \<and> (\<forall>c. cpu = Some c \<longrightarrow> cg_files fs' (path @ ''/cpu.max'') = Some (cpu_cgroup_value c))
        \<and> (\<forall>m. memory = Some m \<longrightarrow> cg_files fs' (path @ ''/memory.max'') = Some (memory_cgroup_value m))
    | Inl e \<Rightarrow> (ck_remove K path \<longrightarrow> cg_dirs fs' = cg_dirs fs))"
proof (cases "safe_component name \<and> path \<notin> cg_dirs fs \<and> ck_create K path")
  case False
  then show ?thesis
    using assms by (auto simp: create_under_def fs_create_dir_def Let_def split: if_splits)
next
  case True
  let ?cg = "\<lparr> cg_path = path \<rparr>"
  define fs1 where "fs1 = fs\<lparr> cg_dirs := insert path (cg_dirs fs) \<rparr>"
  obtain fs2 r2 where w2: "write_limit K fs1 ?cg ''cpu.max'' (map_option cpu_cgroup_value cpu) = (fs2, r2)"
    by fastforce
  obtain fs3 r3 where w3: "write_limit K fs2 ?cg ''memory.max'' (map_option memory_cgroup_value memory) = (fs3, r3)"
    by fastforce
  have run: "(fs', r) = (case r2 of Inl e \<Rightarrow> (cgroup_drop K fs2 ?cg, Inl e)
      | Inr _ \<Rightarrow> (case r3 of Inl e \<Rightarrow> (cgroup_drop K fs3 ?cg, Inl e) | Inr _ \<Rightarrow> (fs3, Inr ?cg)))"
    using assms(1) True w2 w3
    by (auto simp: create_under_def fs_create_dir_def path_def fs1_def Let_def split: sum.splits)
  have join: "path_join path ''cpu.max'' = path @ ''/cpu.max''"
    "path_join path ''memory.max'' = path @ ''/memory.max''"
    using True path_join_limit [of name _ parent] by (simp_all add: path_def starts_with_def)
  note e2 = write_limit_ok [OF w2] and e3 = write_limit_ok [OF w3]
  have dirs: "cg_dirs fs2 = insert path (cg_dirs fs)" "cg_dirs fs3 = insert path (cg_dirs fs)"
    using e2 e3 by (simp_all add: fs1_def)
  show ?thesis
  proof (cases "r2 = Inr () \<and> r3 = Inr ()")
    case True
    then show ?thesis
      using run e2 e3 dirs \<open>safe_component name \<and> path \<notin> cg_dirs fs \<and> ck_create K path\<close>
      by (auto simp: join split: option.splits)
  next
    case False
    then show ?thesis
      using run dirs True cgroup_drop_dirs [of K ?cg] by (auto split: sum.splits)
  qed
qed

theorem cgroup_all_or_nothing_witness:
  "let K = \<lparr> ck_create = (\<lambda>_. True), ck_write = (\<lambda>f. f \<noteq> ''/cg/a/memory.max''), ck_remove = (\<lambda>_. True) \<rparr>;
       fs = \<lparr> cg_dirs = {''/cg''}, cg_files = Map.empty \<rparr>;
       (fs', r) = create_under K fs ''/cg'' ''a'' (Some \<lparr> percent = 10 \<rparr>) (Some \<lparr> bytes = 4096 \<rparr>) in
   r = Inl (CgroupFailed (CgroupWrite ''/cg/a/memory.max'')) \<and> cg_dirs fs' = {''/cg''}"
proof -
  let ?K = "\<lparr> ck_create = (\<lambda>_. True), ck_write = (\<lambda>f. f \<noteq> ''/cg/a/memory.max''), ck_remove = (\<lambda>_. True) \<rparr>"
  let ?fs = "\<lparr> cg_dirs = {''/cg''}, cg_files = Map.empty \<rparr>"
  let ?run = "create_under ?K ?fs ''/cg'' ''a'' (Some \<lparr> percent = 10 \<rparr>) (Some \<lparr> bytes = 4096 \<rparr>)"
  have r: "snd ?run = Inl (CgroupFailed (CgroupWrite ''/cg/a/memory.max''))"
    by (simp add: create_under_def safe_component_def fs_create_dir_def path_join_def starts_with_def
        write_limit_def cgroup_write_file_def Let_def)
  have "?run = (fst ?run, snd ?run)" by simp
  from cgroup_all_or_nothing [OF this] have "cg_dirs (fst ?run) = {''/cg''}" using r by simp
  with r show ?thesis by (simp add: split_beta)
qed

end
