(* ===== verification/Sandbox_Plan.thy ===== *)
theory Sandbox_Plan
  imports Sandbox_Limits
begin

text \<open>
  \<open>archangel-sandbox\<close>, part two: the seccomp profiles (\<open>seccomp.rs\<close>), the validated plan
  (\<open>plan.rs\<close>) and its installation in the child (\<open>apply.rs\<close>).  The crates \<open>seccompiler\<close>, \<open>libc\<close>
  and \<open>nix\<close> are parameters; \<open>seccomp_ok\<close> is the filter semantics that \<open>seccompiler\<close> documents.
\<close>

section \<open>Seccomp\<close>

datatype TargetArch = X86_64 | Aarch64

datatype SeccompAction = KillProcess | SeccompAllow

datatype CmpArgLen = Dword | Qword

datatype CmpOp = CmpEq

text \<open>System call numbers and address families of the platform.\<close>

record LibC =
  sys_nr :: "string \<Rightarrow> int"
  AF_UNIX :: "32 word"
  AF_NETLINK :: "32 word"

record ('c, 'r, 'f, 'b) SeccompLib =
  condition_new :: "nat \<Rightarrow> CmpArgLen \<Rightarrow> CmpOp \<Rightarrow> u64 \<Rightarrow> (string, 'c) result"
  rule_new :: "'c list \<Rightarrow> (string, 'r) result"
  filter_new :: "(int \<Rightarrow> 'r list option) \<Rightarrow> SeccompAction \<Rightarrow> SeccompAction \<Rightarrow> TargetArch \<Rightarrow> (string, 'f) result"
  bpf_try_from :: "'f \<Rightarrow> (string, 'b) result"

definition common_allow :: "LibC \<Rightarrow> int list" where
  "common_allow lc = map (sys_nr lc)
    [''read'', ''write'', ''readv'', ''writev'', ''pread64'', ''close'', ''lseek'',
     ''fcntl'', ''ioctl'', ''dup'', ''dup3'', ''pipe2'', ''openat'', ''newfstatat'',
     ''statx'', ''getdents64'', ''readlinkat'', ''faccessat'', ''getcwd'', ''chdir'',
     ''brk'', ''mmap'', ''munmap'', ''mprotect'', ''mremap'', ''madvise'', ''rt_sigaction'',
     ''rt_sigprocmask'', ''rt_sigreturn'', ''rt_sigtimedwait'', ''sigaltstack'',
     ''restart_syscall'', ''nanosleep'', ''clock_nanosleep'', ''clock_gettime'',
     ''clock_getres'', ''gettimeofday'', ''getpid'', ''getppid'', ''gettid'', ''getuid'',
     ''geteuid'', ''getgid'', ''getegid'', ''getgroups'', ''getpgid'', ''getsid'',
     ''setpgid'', ''setsid'', ''connect'', ''bind'', ''socketpair'', ''sendto'',
     ''recvfrom'', ''sendmsg'', ''recvmsg'', ''getsockopt'', ''setsockopt'',
     ''getpeername'', ''getsockname'', ''set_tid_address'', ''set_robust_list'', ''rseq'',
     ''prlimit64'', ''getrlimit'', ''futex'', ''sched_yield'', ''sched_getaffinity'',
     ''ppoll'', ''pselect6'', ''epoll_create1'', ''epoll_ctl'', ''epoll_pwait'', ''clone'',
     ''clone3'', ''execve'', ''execveat'', ''wait4'', ''waitid'', ''exit'', ''exit_group'',
     ''tgkill'', ''kill'', ''statfs'', ''fstatfs'', ''fadvise64'', ''uname'', ''sysinfo'',
     ''times'', ''getrandom'', ''membarrier'', ''umask'', ''prctl'']"

definition arch_extra_allow :: "LibC \<Rightarrow> TargetArch \<Rightarrow> int list" where
  "arch_extra_allow lc arch =
    (case arch of
       X86_64 \<Rightarrow> map (sys_nr lc)
    [''open'', ''stat'', ''lstat'', ''fstat'', ''poll'', ''select'', ''access'', ''dup2'',
     ''pipe'', ''fork'', ''vfork'', ''readlink'', ''arch_prctl'', ''epoll_create'',
     ''epoll_wait'', ''getpgrp'', ''time'']
     | Aarch64 \<Rightarrow> map (sys_nr lc) [''fstat''])"

definition KNOWN_PROFILES :: "string list" where
  "KNOWN_PROFILES = [''inspect'']"

definition allowlist_for :: "LibC \<Rightarrow> TargetArch \<Rightarrow> string \<Rightarrow> (SandboxError, int list) result" where
  "allowlist_for lc arch prof =
    (if prof = ''inspect'' then Inr (common_allow lc @ arch_extra_allow lc arch)
     else Inl (UnknownProfile prof))"

definition family_rule :: "('c, 'r, 'f, 'b) SeccompLib \<Rightarrow> 32 word \<Rightarrow> (SandboxError, 'r) result" where
  "family_rule S af =
    bind_res (map_err SeccompCompile (condition_new S 0 Dword CmpEq (scast af))) (\<lambda>cond.
    map_err SeccompCompile (rule_new S [cond]))"

definition socket_rules :: "('c, 'r, 'f, 'b) SeccompLib \<Rightarrow> LibC \<Rightarrow> (SandboxError, 'r list) result" where
  "socket_rules S lc =
    bind_res (family_rule S (AF_UNIX lc)) (\<lambda>u.
    bind_res (family_rule S (AF_NETLINK lc)) (\<lambda>nl. Inr [u, nl]))"

definition rules_for ::
  "('c, 'r, 'f, 'b) SeccompLib \<Rightarrow> LibC \<Rightarrow> TargetArch \<Rightarrow> string
    \<Rightarrow> (SandboxError, int \<Rightarrow> 'r list option) result"
where
  "rules_for S lc arch prof =
    bind_res (allowlist_for lc arch prof) (\<lambda>v.
    let rules = fold (\<lambda>s m. m(s \<mapsto> [])) v Map.empty in
    bind_res (socket_rules S lc) (\<lambda>sr. Inr (rules(sys_nr lc ''socket'' \<mapsto> sr))))"

record 'b SeccompProfile =
  sp_name :: string
  sp_program :: 'b

definition seccomp_compile ::
  "('c, 'r, 'f, 'b) SeccompLib \<Rightarrow> LibC \<Rightarrow> TargetArch \<Rightarrow> string \<Rightarrow> (SandboxError, 'b SeccompProfile) result"
where
  "seccomp_compile S lc arch prof =
    bind_res (rules_for S lc arch prof) (\<lambda>rules.
    bind_res (map_err SeccompCompile (filter_new S rules KillProcess SeccompAllow arch)) (\<lambda>filter'.
    bind_res (map_err SeccompCompile (bpf_try_from S filter')) (\<lambda>program.
    Inr \<lparr> sp_name = prof, sp_program = program \<rparr>)))"

section \<open>Plan\<close>

datatype NetworkMode = ModeNone | ModeLoopback | ModeEgress

record Namespaces =
  ns_mount :: bool
  ns_pid :: bool
  ns_ipc :: bool
  ns_uts :: bool
  ns_cgroup :: bool
  ns_user :: bool
  ns_net :: bool

record SandboxPolicy =
  sp_syscall_profile :: string
  sp_capabilities :: "string list"
  sp_allowed_paths_ro :: "string list"
  sp_allowed_paths_rw :: "string list"
  sp_network :: NetworkMode
  sp_cpu_max :: "string option"
  sp_memory_max :: "string option"

record 'b SandboxPlan =
  pl_seccomp :: "'b SeccompProfile"
  pl_capabilities :: CapabilitySet
  pl_cpu_max :: "CpuMax option"
  pl_memory_max :: "MemoryMax option"
  pl_paths_ro :: "string list"
  pl_paths_rw :: "string list"
  pl_network :: NetworkMode
  pl_namespaces :: Namespaces

definition validate_path :: "string \<Rightarrow> (SandboxError, unit) result" where
  "validate_path p =
    (if p = [] then Inl (InvalidProfile p PathEmpty)
     else if \<not> starts_with ''/'' p then Inl (InvalidProfile p PathNotAbsolute)
     else if length p > 4096 then Inl (InvalidProfile p PathTooLong)
     else if CHR 0x00 \<in> set p then Inl (InvalidProfile p PathNul)
     else if list_ex (\<lambda>c. c = ''..'') (split_char CHR ''/'' p) then Inl (InvalidProfile p PathDotDot)
     else Inr ())"

definition parse_opt :: "('a \<Rightarrow> ('e, 'b) result) \<Rightarrow> 'a option \<Rightarrow> ('e, 'b option) result" where
  "parse_opt parse x = (case x of None \<Rightarrow> Inr None | Some s \<Rightarrow> map_ok Some (parse s))"

definition plan ::
  "('c, 'r, 'f, 'b) SeccompLib \<Rightarrow> LibC \<Rightarrow> CapsLib \<Rightarrow> TargetArch \<Rightarrow> SandboxPolicy
    \<Rightarrow> (SandboxError, 'b SandboxPlan) result"
where
  "plan S lc caps arch policy =
    bind_res (seccomp_compile S lc arch (sp_syscall_profile policy)) (\<lambda>seccomp.
    bind_res (capability_resolve caps (sp_capabilities policy)) (\<lambda>capabilities.
    bind_res (parse_opt cpu_parse (sp_cpu_max policy)) (\<lambda>cpu_max.
    bind_res (parse_opt memory_parse (sp_memory_max policy)) (\<lambda>memory_max.
    bind_res (fold_res (\<lambda>p _. validate_path p)
        (sp_allowed_paths_ro policy @ sp_allowed_paths_rw policy) ()) (\<lambda>_.
    Inr \<lparr> pl_seccomp = seccomp, pl_capabilities = capabilities, pl_cpu_max = cpu_max,
          pl_memory_max = memory_max, pl_paths_ro = sp_allowed_paths_ro policy,
          pl_paths_rw = sp_allowed_paths_rw policy, pl_network = sp_network policy,
          pl_namespaces = \<lparr> ns_mount = True, ns_pid = True, ns_ipc = True, ns_uts = True,
            ns_cgroup = True, ns_user = True,
            ns_net = (case sp_network policy of ModeEgress \<Rightarrow> False | _ \<Rightarrow> True) \<rparr> \<rparr>)))))"

section \<open>Installation in the child\<close>

text \<open>The child between \<open>fork\<close> and \<open>execve\<close>: whether \<open>no_new_privs\<close> is latched and which filter is
  loaded.  \<open>nnp_ok\<close> and \<open>load_ok\<close> say whether the two system calls succeed.\<close>

record 'b Child =
  no_new_privs :: bool
  loaded :: "'b option"

datatype InstallError = NoNewPrivsFailed | FilterFailed

definition install ::
  "bool \<Rightarrow> ('b Child \<Rightarrow> bool) \<Rightarrow> 'b \<Rightarrow> 'b Child \<Rightarrow> (InstallError, 'b Child) result"
where
  "install nnp_ok load_ok program child =
    bind_res (ensure nnp_ok NoNewPrivsFailed) (\<lambda>_.
    let child1 = child\<lparr> no_new_privs := True \<rparr> in
    bind_res (ensure (load_ok child1) FilterFailed) (\<lambda>_.
    Inr (child1\<lparr> loaded := Some program \<rparr>)))"

text \<open>\<open>harden\<close> arms the command: the child runs \<open>install\<close> before \<open>execve\<close>, and an error there makes it
  exit without executing anything.\<close>

definition harden ::
  "bool \<Rightarrow> ('b Child \<Rightarrow> bool) \<Rightarrow> 'b SandboxPlan \<Rightarrow> 'b Child \<Rightarrow> (InstallError, 'b Child) result"
where
  "harden nnp_ok load_ok pl child = install nnp_ok load_ok (sp_program (pl_seccomp pl)) child"

section \<open>What the seccomp compiler promises\<close>

text \<open>A condition on the low 32 bits of an argument, a rule as a conjunction, and a program that
  looks the call number up: an empty chain or a satisfied rule gives the match action, anything
  else the mismatch action.\<close>

definition seccomp_ok ::
  "('c, 'r, 'f, 'b) SeccompLib \<Rightarrow> ('c \<Rightarrow> u64 list \<Rightarrow> bool) \<Rightarrow> ('r \<Rightarrow> u64 list \<Rightarrow> bool)
    \<Rightarrow> ('b \<Rightarrow> int \<Rightarrow> u64 list \<Rightarrow> SeccompAction) \<Rightarrow> bool"
where
  "seccomp_ok S cond_holds rule_holds run \<longleftrightarrow>
    (\<forall>i v c args. condition_new S i Dword CmpEq v = Inr c \<longrightarrow>
       cond_holds c args = (ucast (args ! i) = (ucast v :: 32 word)))
    \<and> (\<forall>cs r args. rule_new S cs = Inr r \<longrightarrow> rule_holds r args = list_all (\<lambda>c. cond_holds c args) cs)
    \<and> (\<forall>rules mis mat arch f b nr args.
         filter_new S rules mis mat arch = Inr f \<longrightarrow> bpf_try_from S f = Inr b \<longrightarrow>
         run b nr args =
           (case rules nr of
              None \<Rightarrow> mis
            | Some rs \<Rightarrow> if rs = [] \<or> list_ex (\<lambda>r. rule_holds r args) rs then mat else mis))"

lemma fold_empty_chains: "fold (\<lambda>s m. m(s \<mapsto> [])) v m n = (if n \<in> set v then Some [] else m n)"
  by (induction v arbitrary: m) auto

lemma scast_ucast_32: "(ucast (scast (a :: 32 word) :: u64) :: 32 word) = a"
  by (rule bit_word_eqI) (simp add: bit_simps)

lemma family_rule_holds:
  assumes "seccomp_ok S cond_holds rule_holds run" and "family_rule S af = Inr r"
  shows "rule_holds r args \<longleftrightarrow> ucast (args ! 0) = af"
proof -
  from assms(2) obtain c where c: "condition_new S 0 Dword CmpEq (scast af) = Inr c" "rule_new S [c] = Inr r"
    by (auto simp: family_rule_def bind_res_eq_Inr)
  from assms(1) c have "rule_holds r args \<longleftrightarrow> cond_holds c args"
    unfolding seccomp_ok_def by simp
  also have "\<dots> \<longleftrightarrow> ucast (args ! 0) = (ucast (scast af :: u64) :: 32 word)"
    using assms(1) c(1) unfolding seccomp_ok_def by blast
  finally show ?thesis by (simp add: scast_ucast_32)
qed

lemma validate_path_ok:
  "validate_path p = Inr () \<longleftrightarrow>
    starts_with ''/'' p \<and> length p \<le> 4096 \<and> CHR 0x00 \<notin> set p \<and> ''..'' \<notin> set (split_char CHR ''/'' p)"
  by (auto simp: validate_path_def list_ex_iff starts_with_def)

lemma fold_validate_ok:
  "fold_res (\<lambda>p _. validate_path p) ps u = Inr w \<longleftrightarrow> (\<forall>p \<in> set ps. validate_path p = Inr ())"
  by (induction ps arbitrary: u) (auto simp: bind_res_eq_Inr)

section \<open>Properties\<close>

text \<open>C19: the compiled filter lets exactly the audited calls through: a call on the allowlist of the
  profile, or a \<open>socket\<close> call for one of the two local address families; every other call kills the
  process.  Unknown profile names are refused.  The call numbers of the platform keep \<open>socket\<close>
  apart from the listed calls.\<close>

theorem seccomp_verdict:
  assumes "seccomp_ok S cond_holds rule_holds run"
    and "seccomp_compile S lc arch prof = Inr p"
    and "sys_nr lc ''socket'' \<notin> set (common_allow lc) \<union> set (arch_extra_allow lc arch)"
  shows "prof \<in> set KNOWN_PROFILES \<and>
    run (sp_program p) nr args =
      (if nr \<in> set (common_allow lc) \<union> set (arch_extra_allow lc arch)
          \<or> nr = sys_nr lc ''socket'' \<and> ucast (args ! 0) \<in> {AF_UNIX lc, AF_NETLINK lc}
       then SeccompAllow else KillProcess)"
proof -
  from assms(2) obtain u nl f where prof: "prof = ''inspect''"
    and u: "family_rule S (AF_UNIX lc) = Inr u" and nl: "family_rule S (AF_NETLINK lc) = Inr nl"
    and f: "filter_new S ((fold (\<lambda>s m. m(s \<mapsto> [])) (common_allow lc @ arch_extra_allow lc arch) Map.empty)
        (sys_nr lc ''socket'' \<mapsto> [u, nl])) KillProcess SeccompAllow arch = Inr f"
    and b: "bpf_try_from S f = Inr (sp_program p)"
    by (auto simp: seccomp_compile_def rules_for_def socket_rules_def allowlist_for_def bind_res_eq_Inr
        Let_def split: if_splits)
  have "run (sp_program p) nr args =
      (case ((fold (\<lambda>s m. m(s \<mapsto> [])) (common_allow lc @ arch_extra_allow lc arch) Map.empty)
        (sys_nr lc ''socket'' \<mapsto> [u, nl])) nr of
         None \<Rightarrow> KillProcess
       | Some rs \<Rightarrow> if rs = [] \<or> list_ex (\<lambda>r. rule_holds r args) rs then SeccompAllow else KillProcess)"
    using assms(1) f b unfolding seccomp_ok_def by blast
  also have "\<dots> = (if nr \<in> set (common_allow lc) \<union> set (arch_extra_allow lc arch)
          \<or> nr = sys_nr lc ''socket'' \<and> ucast (args ! 0) \<in> {AF_UNIX lc, AF_NETLINK lc}
       then SeccompAllow else KillProcess)"
    using assms(3) family_rule_holds [OF assms(1) u, of args] family_rule_holds [OF assms(1) nl, of args]
    by (simp add: fold_empty_chains del: fold_append)
  finally show ?thesis using prof by (simp add: KNOWN_PROFILES_def)
qed

text \<open>C30: a plan holds what its policy declares, and nothing malformed.  Its profile is a known one; its capabilities are the
  canonical names of the declared ones, all of them recognised; its CPU limit is the declared percentage, from 1 to 100,
  and its memory limit the declared number of bytes, from 1 byte to 1 TiB, each absent exactly if none is declared; its
  paths are the declared ones, each absolute, at most 4096 bytes long, free of NUL and of double-dot components; and it
  records every namespace as required, the network one unless egress is declared.\<close>

theorem plan_isolates:
  assumes "plan S lc caps arch policy = Inr pl"
  shows "sp_syscall_profile policy \<in> set KNOWN_PROFILES \<and> sp_name (pl_seccomp pl) = sp_syscall_profile policy
    \<and> cap_names (pl_capabilities pl) = to_canonical caps ` set (sp_capabilities policy)
    \<and> (\<forall>n \<in> cap_names (pl_capabilities pl). is_cap caps n)
    \<and> (case sp_cpu_max policy of
         None \<Rightarrow> pl_cpu_max pl = None
       | Some s \<Rightarrow> \<exists>c digits. pl_cpu_max pl = Some c \<and> trim s = digits @ ''%'' \<and> dec_value 0 digits = Some (unat (percent c))
           \<and> 1 \<le> unat (percent c) \<and> unat (percent c) \<le> 100)
    \<and> (case sp_memory_max policy of
         None \<Rightarrow> pl_memory_max pl = None
       | Some s \<Rightarrow> \<exists>m. pl_memory_max pl = Some m \<and> memory_denotes (trim s) (unat (bytes m))
           \<and> 1 \<le> unat (bytes m) \<and> unat (bytes m) \<le> 1024 ^ 4)
    \<and> pl_paths_ro pl = sp_allowed_paths_ro policy \<and> pl_paths_rw pl = sp_allowed_paths_rw policy
    \<and> (\<forall>p \<in> set (pl_paths_ro pl) \<union> set (pl_paths_rw pl).
         starts_with ''/'' p \<and> length p \<le> 4096 \<and> CHR 0x00 \<notin> set p \<and> ''..'' \<notin> set (split_char CHR ''/'' p))
    \<and> pl_network pl = sp_network policy
    \<and> pl_namespaces pl = \<lparr> ns_mount = True, ns_pid = True, ns_ipc = True, ns_uts = True,
      ns_cgroup = True, ns_user = True, ns_net = (sp_network policy \<noteq> ModeEgress) \<rparr>"
proof -
  from assms obtain sec cap cpu mem where
    sec: "seccomp_compile S lc arch (sp_syscall_profile policy) = Inr sec"
    and cap: "capability_resolve caps (sp_capabilities policy) = Inr cap"
    and lim: "parse_opt cpu_parse (sp_cpu_max policy) = Inr cpu" "parse_opt memory_parse (sp_memory_max policy) = Inr mem"
    and paths: "fold_res (\<lambda>p _. validate_path p) (sp_allowed_paths_ro policy @ sp_allowed_paths_rw policy) () = Inr ()"
    and pl: "pl = \<lparr> pl_seccomp = sec, pl_capabilities = cap, pl_cpu_max = cpu,
          pl_memory_max = mem, pl_paths_ro = sp_allowed_paths_ro policy,
          pl_paths_rw = sp_allowed_paths_rw policy, pl_network = sp_network policy,
          pl_namespaces = \<lparr> ns_mount = True, ns_pid = True, ns_ipc = True, ns_uts = True,
            ns_cgroup = True, ns_user = True,
            ns_net = (case sp_network policy of ModeEgress \<Rightarrow> False | _ \<Rightarrow> True) \<rparr> \<rparr>"
    unfolding plan_def bind_res_eq_Inr by auto
  have "(case sp_network policy of ModeEgress \<Rightarrow> False | _ \<Rightarrow> True) \<longleftrightarrow> sp_network policy \<noteq> ModeEgress"
    by (cases "sp_network policy") auto
  moreover have "sp_syscall_profile policy \<in> set KNOWN_PROFILES" "sp_name sec = sp_syscall_profile policy"
    using sec by (auto simp: seccomp_compile_def rules_for_def allowlist_for_def bind_res_eq_Inr
        KNOWN_PROFILES_def split: if_splits)
  moreover have "case sp_cpu_max policy of None \<Rightarrow> pl_cpu_max pl = None
      | Some s \<Rightarrow> \<exists>c digits. pl_cpu_max pl = Some c \<and> trim s = digits @ ''%'' \<and> dec_value 0 digits = Some (unat (percent c))
          \<and> 1 \<le> unat (percent c) \<and> unat (percent c) \<le> 100"
  proof (cases "sp_cpu_max policy")
    case (Some s)
    then obtain c where "cpu = Some c" "cpu_parse s = Inr c" using lim(1) by (auto simp: parse_opt_def map_ok_eq_Inr)
    then show ?thesis using cpu_parse_ok [of s c] Some pl by auto
  qed (use lim(1) pl in \<open>simp add: parse_opt_def\<close>)
  moreover have "case sp_memory_max policy of None \<Rightarrow> pl_memory_max pl = None
      | Some s \<Rightarrow> \<exists>m. pl_memory_max pl = Some m \<and> memory_denotes (trim s) (unat (bytes m)) \<and> 1 \<le> unat (bytes m) \<and> unat (bytes m) \<le> 1024 ^ 4"
  proof (cases "sp_memory_max policy")
    case (Some s)
    then obtain m where "mem = Some m" "memory_parse s = Inr m" using lim(2) by (auto simp: parse_opt_def map_ok_eq_Inr)
    then show ?thesis using memory_parse_ok [of s m] Some pl by auto
  qed (use lim(2) pl in \<open>simp add: parse_opt_def\<close>)
  moreover have "\<forall>p \<in> set (sp_allowed_paths_ro policy) \<union> set (sp_allowed_paths_rw policy). validate_path p = Inr ()"
    using paths by (auto simp: fold_validate_ok)
  ultimately show ?thesis
    using capability_resolve_ok [OF cap] by (intro conjI; (assumption | simp only:)?) (simp_all add: pl validate_path_ok)
qed

text \<open>Concrete instances for the witnesses: conditions and rules as data, programs as rule maps.\<close>

type_synonym sample_rule = "(nat \<times> u64) list"

type_synonym sample_program = "(int \<Rightarrow> sample_rule list option) \<times> SeccompAction \<times> SeccompAction"

definition sample_seccomp :: "(nat \<times> u64, sample_rule, sample_program, sample_program) SeccompLib" where
  "sample_seccomp =
    \<lparr> condition_new = (\<lambda>i _ _ v. Inr (i, v)), rule_new = Inr,
      filter_new = (\<lambda>rules mis mat _. Inr (rules, mis, mat)), bpf_try_from = Inr \<rparr>"

definition sample_cond_holds :: "nat \<times> u64 \<Rightarrow> u64 list \<Rightarrow> bool" where
  "sample_cond_holds c args \<longleftrightarrow> ucast (args ! fst c) = (ucast (snd c) :: 32 word)"

definition sample_rule_holds :: "sample_rule \<Rightarrow> u64 list \<Rightarrow> bool" where
  "sample_rule_holds r args \<longleftrightarrow> list_all (\<lambda>c. sample_cond_holds c args) r"

definition sample_run :: "sample_program \<Rightarrow> int \<Rightarrow> u64 list \<Rightarrow> SeccompAction" where
  "sample_run b nr args =
    (case b of (rules, mis, mat) \<Rightarrow>
      (case rules nr of
         None \<Rightarrow> mis
       | Some rs \<Rightarrow> if rs = [] \<or> list_ex (\<lambda>r. sample_rule_holds r args) rs then mat else mis))"

lemma sample_seccomp_ok: "seccomp_ok sample_seccomp sample_cond_holds sample_rule_holds sample_run"
  by (simp add: seccomp_ok_def sample_seccomp_def sample_cond_holds_def sample_rule_holds_def sample_run_def)

text \<open>Numbering the calls by their names keeps them apart.\<close>

definition sample_libc :: LibC where
  "sample_libc =
    \<lparr> sys_nr = foldl (\<lambda>n c. n * 256 + of_char c) 0, AF_UNIX = 1, AF_NETLINK = 16 \<rparr>"

definition sample_caps :: CapsLib where
  "sample_caps = \<lparr> to_canonical = (\<lambda>s. s), is_cap = (\<lambda>s. s = ''CAP_CHOWN'') \<rparr>"

definition inspect_policy :: SandboxPolicy where
  "inspect_policy =
    \<lparr> sp_syscall_profile = ''inspect'', sp_capabilities = [''CAP_CHOWN''], sp_allowed_paths_ro = [''/proc''],
      sp_allowed_paths_rw = [], sp_network = ModeNone, sp_cpu_max = Some ''25%'', sp_memory_max = None \<rparr>"

lemma inspect_plan_ok: "is_ok (plan sample_seccomp sample_libc sample_caps X86_64 inspect_policy)"
  by (simp add: plan_def inspect_policy_def seccomp_compile_def rules_for_def allowlist_for_def socket_rules_def
      family_rule_def sample_seccomp_def capability_resolve_def sample_caps_def parse_opt_def cpu_sample
      validate_path_def starts_with_def is_ok_def)

theorem seccomp_verdict_witness:
  "\<exists>p. seccomp_compile sample_seccomp sample_libc Aarch64 ''inspect'' = Inr p
    \<and> sample_run (sp_program p) (sys_nr sample_libc ''socket'') [2] = KillProcess
    \<and> sample_run (sp_program p) (sys_nr sample_libc ''socket'') [1] = SeccompAllow"
proof -
  obtain p where p: "seccomp_compile sample_seccomp sample_libc Aarch64 ''inspect'' = Inr p"
    by (simp add: seccomp_compile_def rules_for_def allowlist_for_def socket_rules_def family_rule_def
        sample_seccomp_def)
  have "sys_nr sample_libc ''socket'' \<notin> set (common_allow sample_libc) \<union> set (arch_extra_allow sample_libc Aarch64)"
    by (simp add: sample_libc_def common_allow_def arch_extra_allow_def)
  from seccomp_verdict [OF sample_seccomp_ok p this] this p show ?thesis
    by (auto simp: sample_libc_def)
qed

theorem plan_isolates_witness:
  "\<exists>pl c. plan sample_seccomp sample_libc sample_caps X86_64 inspect_policy = Inr pl
    \<and> ns_net (pl_namespaces pl) \<and> pl_cpu_max pl = Some c \<and> unat (percent c) \<le> 100 \<and> cap_names (pl_capabilities pl) = {''CAP_CHOWN''}"
proof -
  obtain pl where pl: "plan sample_seccomp sample_libc sample_caps X86_64 inspect_policy = Inr pl"
    using inspect_plan_ok by (auto simp: is_ok_iff)
  have fields: "sp_cpu_max inspect_policy = Some ''25%''" "sp_capabilities inspect_policy = [''CAP_CHOWN'']" "sp_network inspect_policy = ModeNone"
    by (simp_all add: inspect_policy_def)
  note isolated = plan_isolates [OF pl, unfolded fields option.case]
  then obtain c where "pl_cpu_max pl = Some c" "unat (percent c) \<le> 100" by blast
  moreover have "cap_names (pl_capabilities pl) = {''CAP_CHOWN''}"
    using isolated [THEN conjunct2, THEN conjunct2, THEN conjunct1] by (simp add: sample_caps_def)
  moreover have "ns_net (pl_namespaces pl)" using isolated by simp
  ultimately show ?thesis using pl by blast
qed

end
