(* ===== verification/Ipc.thy ===== *)
theory Ipc
  imports Crypto_Lib
begin

text \<open>
  The crates \<open>archangel-ipc\<close> (daemon to executor, boundary B) and \<open>archangel-ctl\<close> (operator to
  daemon, boundary A): messages, signed envelopes and length-prefixed frames.  The CBOR codec
  is a parameter, one \<open>Codec\<close> per message type.  Texts of reasons are structured values of a
  type parameter.  The interfaces \<open>signed_envelope\<close> and \<open>framing\<close> hold for both protocols.
\<close>

section \<open>CBOR\<close>

record 'a Codec =
  into_writer :: "'a \<Rightarrow> (string, byte list) result"
  from_reader :: "byte list \<Rightarrow> (string, 'a) result"

text \<open>What the protocol relies on: decoding inverts encoding.\<close>

definition codec_ok :: "'a Codec \<Rightarrow> bool" where
  "codec_ok c \<longleftrightarrow> (\<forall>v bs. into_writer c v = Inr bs \<longrightarrow> from_reader c bs = Inr v)"

section \<open>Boundary B messages\<close>

record ExecRequest =
  rq_session_id :: SessionId
  rq_action_id :: ActionId
  rq_seq :: u64
  rq_nonce :: "byte list"
  rq_issued_ms :: u64
  rq_profile :: string
  rq_mode :: OperationMode
  rq_exec_name :: string
  rq_args :: "(string \<times> string) list"
  rq_declared_risk :: RiskLevel
  rq_declared_read_only :: bool

datatype RejectStage =
    PeerUnauthorized | StageSignatureInvalid | Replay | BundleUnverified | DenylistHit
  | NotAllowlisted' | StageArgRejected | NotReadOnly | SnapshotUnavailable | SandboxRejected
  | RateLimited | ExecFailure

datatype 'r ExecOutcome =
    Completed (exit_code: "32 word") (duration_ms: u64) (out_stdout: string) (out_stderr: string)
      (output_truncated: bool) (snapshot_id: "string option")
  | Rejected (rej_stage: RejectStage) (rej_reason: 'r)

record 'r ExecResponse =
  rs_action_id :: ActionId
  rs_outcome :: "'r ExecOutcome"

definition rejected :: "ActionId \<Rightarrow> RejectStage \<Rightarrow> 'r \<Rightarrow> 'r ExecResponse" where
  "rejected action_id stage reason = \<lparr> rs_action_id = action_id, rs_outcome = Rejected stage reason \<rparr>"

datatype IpcError =
    VersionMismatch u16 u16
  | Codec string
  | BadSignatureLen nat
  | SignatureInvalid
  | Framing nat

section \<open>Boundary B envelope and frames\<close>

definition PROTOCOL_VERSION :: u16 where
  "PROTOCOL_VERSION = 1"

definition MAX_FRAME_LEN :: nat where
  "MAX_FRAME_LEN = 1024 * 1024"

record SignedEnvelope =
  se_version :: u16
  se_request :: "byte list"
  se_signature :: "byte list"

definition cbor_to_vec :: "'a Codec \<Rightarrow> 'a \<Rightarrow> (IpcError, byte list) result" where
  "cbor_to_vec c value = map_err Codec (into_writer c value)"

definition cbor_from_slice :: "'a Codec \<Rightarrow> byte list \<Rightarrow> (IpcError, 'a) result" where
  "cbor_from_slice c bs = map_err Codec (from_reader c bs)"

definition envelope_seal ::
  "Crypto \<Rightarrow> ExecRequest Codec \<Rightarrow> ExecRequest \<Rightarrow> SigningKey \<Rightarrow> (IpcError, SignedEnvelope) result"
where
  "envelope_seal C rc request signing_key =
    bind_res (cbor_to_vec rc request) (\<lambda>request_bytes.
    Inr \<lparr> se_version = PROTOCOL_VERSION, se_request = request_bytes,
          se_signature = sig_bytes (sign C signing_key request_bytes) \<rparr>)"

definition envelope_open ::
  "Crypto \<Rightarrow> ExecRequest Codec \<Rightarrow> SignedEnvelope \<Rightarrow> VerifyingKey \<Rightarrow> (IpcError, ExecRequest) result"
where
  "envelope_open C rc env verifying_key' =
    (if se_version env \<noteq> PROTOCOL_VERSION
     then Inl (VersionMismatch (se_version env) PROTOCOL_VERSION)
     else
     bind_res (ok_or (BadSignatureLen (length (se_signature env))) (to_array 64 (se_signature env))) (\<lambda>sig.
     if \<not> verify_strict C verifying_key' (se_request env) (Signature sig) then Inl SignatureInvalid
     else cbor_from_slice rc (se_request env)))"

definition u32_try_from :: "nat \<Rightarrow> nat option" where
  "u32_try_from n = (if n < 2 ^ 32 then Some n else None)"

definition to_frame :: "SignedEnvelope Codec \<Rightarrow> SignedEnvelope \<Rightarrow> (IpcError, byte list) result" where
  "to_frame ec env =
    bind_res (cbor_to_vec ec env) (\<lambda>body.
    if length body > MAX_FRAME_LEN then Inl (Framing (length body))
    else
    bind_res (ok_or (Framing (length body)) (u32_try_from (length body))) (\<lambda>len.
    Inr (be32 len @ body)))"

definition frame_len :: "byte list \<Rightarrow> (IpcError, nat) result" where
  "frame_len prefix' =
    (let len = of_be32 prefix' in if len > MAX_FRAME_LEN then Inl (Framing len) else Inr len)"

definition from_frame_body :: "SignedEnvelope Codec \<Rightarrow> byte list \<Rightarrow> (IpcError, SignedEnvelope) result" where
  "from_frame_body ec body = cbor_from_slice ec body"

definition response_to_frame :: "'r ExecResponse Codec \<Rightarrow> 'r ExecResponse \<Rightarrow> (IpcError, byte list) result" where
  "response_to_frame rc response =
    bind_res (cbor_to_vec rc response) (\<lambda>body.
    bind_res (ok_or (Framing (length body)) (u32_try_from (length body))) (\<lambda>len.
    Inr (be32 len @ body)))"

definition response_from_frame_body :: "'r ExecResponse Codec \<Rightarrow> byte list \<Rightarrow> (IpcError, 'r ExecResponse) result" where
  "response_from_frame_body rc body = cbor_from_slice rc body"

section \<open>Boundary A messages\<close>

datatype CtlRequest =
    Ping
  | RunTask string "(string \<times> string) list"
  | Approve string string
  | Reject string
  | ReloadPolicy

datatype 'r CtlOutcome =
    CtlAsked string
  | CtlRefused string
  | CtlDenied string 'r
  | CtlApprovalRequired string string string 'r string bool
  | CtlCompromised
  | CtlExecuted string "32 word" string string

datatype 'r CtlResponse =
    Pong
  | Task "'r CtlOutcome"
  | PolicyReloaded bool string
  | CtlErrorReply 'r

datatype CtlError =
    CtlVersionMismatch u16 u16
  | CtlCodec string
  | CtlBadSignatureLen nat
  | CtlSignatureInvalid
  | CtlFraming nat

section \<open>Boundary A envelope and frames\<close>

definition CTL_PROTOCOL_VERSION :: u16 where
  "CTL_PROTOCOL_VERSION = 1"

definition CTL_MAX_FRAME_LEN :: nat where
  "CTL_MAX_FRAME_LEN = 1024 * 1024"

record CtlBody =
  cb_seq :: u64
  cb_nonce :: "byte list"
  cb_issued_ms :: u64
  cb_request :: CtlRequest

record SignedCtlEnvelope =
  ce_version :: u16
  ce_body :: "byte list"
  ce_signature :: "byte list"

definition ctl_cbor_to_vec :: "'a Codec \<Rightarrow> 'a \<Rightarrow> (CtlError, byte list) result" where
  "ctl_cbor_to_vec c v = map_err CtlCodec (into_writer c v)"

definition ctl_cbor_from_slice :: "'a Codec \<Rightarrow> byte list \<Rightarrow> (CtlError, 'a) result" where
  "ctl_cbor_from_slice c b = map_err CtlCodec (from_reader c b)"

definition ctl_seal ::
  "Crypto \<Rightarrow> CtlBody Codec \<Rightarrow> CtlBody \<Rightarrow> SigningKey \<Rightarrow> (CtlError, SignedCtlEnvelope) result"
where
  "ctl_seal C bc body operator_key =
    bind_res (ctl_cbor_to_vec bc body) (\<lambda>body_bytes.
    Inr \<lparr> ce_version = CTL_PROTOCOL_VERSION, ce_body = body_bytes,
          ce_signature = sig_bytes (sign C operator_key body_bytes) \<rparr>)"

definition ctl_open ::
  "Crypto \<Rightarrow> CtlBody Codec \<Rightarrow> SignedCtlEnvelope \<Rightarrow> VerifyingKey \<Rightarrow> (CtlError, CtlBody) result"
where
  "ctl_open C bc env operator_pub =
    (if ce_version env \<noteq> CTL_PROTOCOL_VERSION
     then Inl (CtlVersionMismatch (ce_version env) CTL_PROTOCOL_VERSION)
     else
     bind_res (ok_or (CtlBadSignatureLen (length (ce_signature env))) (to_array 64 (ce_signature env))) (\<lambda>sig.
     if \<not> verify_strict C operator_pub (ce_body env) (Signature sig) then Inl CtlSignatureInvalid
     else ctl_cbor_from_slice bc (ce_body env)))"

definition ctl_to_frame :: "SignedCtlEnvelope Codec \<Rightarrow> SignedCtlEnvelope \<Rightarrow> (CtlError, byte list) result" where
  "ctl_to_frame ec env =
    bind_res (ctl_cbor_to_vec ec env) (\<lambda>body.
    if length body > CTL_MAX_FRAME_LEN then Inl (CtlFraming (length body))
    else
    bind_res (ok_or (CtlFraming (length body)) (u32_try_from (length body))) (\<lambda>len.
    Inr (be32 len @ body)))"

definition ctl_frame_len :: "byte list \<Rightarrow> (CtlError, nat) result" where
  "ctl_frame_len prefix' =
    (let len = of_be32 prefix' in if len > CTL_MAX_FRAME_LEN then Inl (CtlFraming len) else Inr len)"

definition ctl_from_frame_body :: "SignedCtlEnvelope Codec \<Rightarrow> byte list \<Rightarrow> (CtlError, SignedCtlEnvelope) result" where
  "ctl_from_frame_body ec body = ctl_cbor_from_slice ec body"

definition ctl_response_to_frame :: "'r CtlResponse Codec \<Rightarrow> 'r CtlResponse \<Rightarrow> (CtlError, byte list) result" where
  "ctl_response_to_frame rc response =
    bind_res (ctl_cbor_to_vec rc response) (\<lambda>body.
    bind_res (ok_or (CtlFraming (length body)) (u32_try_from (length body))) (\<lambda>len.
    Inr (be32 len @ body)))"

definition ctl_response_from_frame_body :: "'r CtlResponse Codec \<Rightarrow> byte list \<Rightarrow> (CtlError, 'r CtlResponse) result" where
  "ctl_response_from_frame_body rc body = ctl_cbor_from_slice rc body"

section \<open>Interfaces\<close>

text \<open>An envelope opens to the sealed message under the matching key, and whatever opens was signed
  over the exact bytes that are decoded.\<close>

locale signed_envelope =
  fixes C :: Crypto
    and codec :: "'m Codec"
    and seal :: "'m \<Rightarrow> SigningKey \<Rightarrow> ('e, 'env) result"
    and unseal :: "'env \<Rightarrow> VerifyingKey \<Rightarrow> ('e, 'm) result"
    and env_bytes :: "'env \<Rightarrow> byte list"
    and env_sig :: "'env \<Rightarrow> byte list"
  assumes seal_unseal: "crypto_ok C \<Longrightarrow> codec_ok codec \<Longrightarrow> seal m k = Inr env \<Longrightarrow>
      unseal env (verifying_key C k) = Inr m"
    and unseal_signed: "unseal env vk = Inr m \<Longrightarrow>
      length (env_sig env) = 64 \<and> verify_strict C vk (env_bytes env) (Signature (env_sig env))"
    and unseal_bytes: "unseal env vk = Inr m \<Longrightarrow> from_reader codec (env_bytes env) = Inr m"
begin

lemma same_bytes_same_message:
  "unseal env vk = Inr m \<Longrightarrow> unseal env' vk' = Inr m' \<Longrightarrow> env_bytes env = env_bytes env' \<Longrightarrow> m = m'"
  using unseal_bytes by (metis sum.inject(2))

lemma unsigned_never_opens:
  "(\<And>s. \<not> verify_strict C vk (env_bytes env) s) \<Longrightarrow> \<not> is_ok (unseal env vk)"
  using unseal_signed by (auto simp: is_ok_iff)

lemma seal_inj:
  "crypto_ok C \<Longrightarrow> codec_ok codec \<Longrightarrow> seal m k = Inr env \<Longrightarrow> seal m' k = Inr env \<Longrightarrow> m = m'"
  using seal_unseal by (metis sum.inject(2))

end

lemma envelope_open_ok:
  "envelope_open C rc env vk = Inr r \<longleftrightarrow>
    se_version env = PROTOCOL_VERSION \<and> length (se_signature env) = 64
    \<and> verify_strict C vk (se_request env) (Signature (se_signature env))
    \<and> from_reader rc (se_request env) = Inr r"
  by (auto simp: envelope_open_def bind_res_eq_Inr cbor_from_slice_def)

lemma ctl_open_ok:
  "ctl_open C bc env vk = Inr b \<longleftrightarrow>
    ce_version env = CTL_PROTOCOL_VERSION \<and> length (ce_signature env) = 64
    \<and> verify_strict C vk (ce_body env) (Signature (ce_signature env))
    \<and> from_reader bc (ce_body env) = Inr b"
  by (auto simp: ctl_open_def bind_res_eq_Inr ctl_cbor_from_slice_def)

interpretation ipc_env: signed_envelope C rc "envelope_seal C rc" "envelope_open C rc" se_request se_signature
  for C :: Crypto and rc :: "ExecRequest Codec"
  by unfold_locales
    (auto simp: envelope_open_ok envelope_seal_def bind_res_eq_Inr cbor_to_vec_def crypto_ok_def codec_ok_def)

interpretation ctl_env: signed_envelope C bc "ctl_seal C bc" "ctl_open C bc" ce_body ce_signature
  for C :: Crypto and bc :: "CtlBody Codec"
  by unfold_locales
    (auto simp: ctl_open_ok ctl_seal_def bind_res_eq_Inr ctl_cbor_to_vec_def crypto_ok_def codec_ok_def)

text \<open>The reading side is written out four times, in both servers and both clients: four bytes, the
  announced length against the cap, then exactly that many bytes.  A stream is the bytes the
  peer sends before it closes; \<open>read_exact\<close> fails when they run out.\<close>

definition read_exact :: "nat \<Rightarrow> byte list \<Rightarrow> (byte list \<times> byte list) option" where
  "read_exact n stream = (if length stream < n then None else Some (take n stream, drop n stream))"

datatype 'e FrameReadError = ShortLength | BadLength 'e | ShortBody

definition read_body ::
  "(byte list \<Rightarrow> ('e, nat) result) \<Rightarrow> byte list \<Rightarrow> ('e FrameReadError, byte list) result"
where
  "read_body fr_len stream =
    (case read_exact 4 stream of
       None \<Rightarrow> Inl ShortLength
     | Some (prefix', rest) \<Rightarrow>
        (case fr_len prefix' of
           Inl e \<Rightarrow> Inl (BadLength e)
         | Inr len \<Rightarrow>
            (case read_exact len rest of
               None \<Rightarrow> Inl ShortBody
             | Some (body, _) \<Rightarrow> Inr body)))"

text \<open>A framed protocol: the writer prefixes the length of the body, the reader reads four bytes,
  checks the announced length against its cap and decodes exactly that many bytes.\<close>

locale framing =
  fixes codec :: "'a Codec"
    and to_fr :: "'a \<Rightarrow> ('e, byte list) result"
    and fr_len :: "byte list \<Rightarrow> ('e, nat) result"
    and of_body :: "byte list \<Rightarrow> ('e, 'a) result"
    and cap :: nat
  assumes frame_shape: "to_fr v = Inr fr \<Longrightarrow>
      \<exists>body. into_writer codec v = Inr body \<and> fr = be32 (length body) @ body \<and> length body < 2 ^ 32"
    and len_capped: "fr_len p = Inr n \<longleftrightarrow> n = of_be32 p \<and> n \<le> cap"
    and body_decodes: "codec_ok codec \<Longrightarrow> into_writer codec v = Inr body \<Longrightarrow> of_body body = Inr v"
begin

lemma announced_length:
  assumes "to_fr v = Inr fr"
  shows "of_be32 (take 4 fr) = length fr - 4 \<and> 4 \<le> length fr"
proof -
  from frame_shape [OF assms] obtain body where "fr = be32 (length body) @ body" "length body < 2 ^ 32"
    by blast
  then show ?thesis by (simp add: of_be32_be32)
qed

lemma read_back:
  assumes "codec_ok codec" and "to_fr v = Inr fr" and "length fr - 4 \<le> cap"
  shows "\<exists>body. read_body fr_len (fr @ rest) = Inr body \<and> of_body body = Inr v"
proof -
  from frame_shape [OF assms(2)] obtain body where body: "into_writer codec v = Inr body"
      "fr = be32 (length body) @ body" "length body < 2 ^ 32"
    by blast
  then have "fr_len (be32 (length body)) = Inr (length body)"
    using assms(3) by (auto simp: len_capped of_be32_be32)
  then show ?thesis
    using body body_decodes [OF assms(1) body(1)] by (simp add: read_body_def read_exact_def)
qed

lemma oversized_refused:
  assumes "to_fr v = Inr fr" and "length fr - 4 > cap"
  shows "\<exists>e. read_body fr_len (fr @ rest) = Inl (BadLength e)"
proof -
  have "of_be32 (take 4 (fr @ rest)) = length fr - 4" "4 \<le> length (fr @ rest)"
    using announced_length [OF assms(1)] by auto
  then have "fr_len (take 4 (fr @ rest)) \<noteq> Inr n" for n
    using assms(2) by (auto simp: len_capped)
  then have "\<exists>e. fr_len (take 4 (fr @ rest)) = Inl e"
    by (cases "fr_len (take 4 (fr @ rest))") auto
  then show ?thesis using \<open>4 \<le> length (fr @ rest)\<close> by (auto simp: read_body_def read_exact_def)
qed

text \<open>No reader ever buffers more than the cap.\<close>

lemma body_bounded: "read_body fr_len stream = Inr body \<Longrightarrow> length body \<le> cap"
  by (auto simp: read_body_def read_exact_def len_capped split: option.splits sum.splits if_splits)

end

lemma frame_len_ok: "frame_len p = Inr n \<longleftrightarrow> n = of_be32 p \<and> n \<le> MAX_FRAME_LEN"
  by (auto simp: frame_len_def Let_def)

lemma ctl_frame_len_ok: "ctl_frame_len p = Inr n \<longleftrightarrow> n = of_be32 p \<and> n \<le> CTL_MAX_FRAME_LEN"
  by (auto simp: ctl_frame_len_def Let_def)

lemmas frame_defs = to_frame_def response_to_frame_def ctl_to_frame_def ctl_response_to_frame_def
  cbor_to_vec_def ctl_cbor_to_vec_def u32_try_from_def from_frame_body_def response_from_frame_body_def
  ctl_from_frame_body_def ctl_response_from_frame_body_def cbor_from_slice_def ctl_cbor_from_slice_def

interpretation ipc_request_frames: framing ec "to_frame ec" frame_len "from_frame_body ec" MAX_FRAME_LEN
  for ec :: "SignedEnvelope Codec"
  by unfold_locales
    (auto simp: frame_defs frame_len_ok codec_ok_def bind_res_eq_Inr split: if_splits)

interpretation ipc_response_frames:
  framing rc "response_to_frame rc" frame_len "response_from_frame_body rc" MAX_FRAME_LEN
  for rc :: "'r ExecResponse Codec"
  by unfold_locales
    (auto simp: frame_defs frame_len_ok codec_ok_def bind_res_eq_Inr split: if_splits)

interpretation ctl_request_frames: framing ec "ctl_to_frame ec" ctl_frame_len "ctl_from_frame_body ec" CTL_MAX_FRAME_LEN
  for ec :: "SignedCtlEnvelope Codec"
  by unfold_locales
    (auto simp: frame_defs ctl_frame_len_ok codec_ok_def bind_res_eq_Inr split: if_splits)

interpretation ctl_response_frames:
  framing rc "ctl_response_to_frame rc" ctl_frame_len "ctl_response_from_frame_body rc" CTL_MAX_FRAME_LEN
  for rc :: "'r CtlResponse Codec"
  by unfold_locales
    (auto simp: frame_defs ctl_frame_len_ok codec_ok_def bind_res_eq_Inr split: if_splits)

end
