(* ===== verification/Snapshot.thy ===== *)
theory Snapshot
  imports Rust_Strings
begin

text \<open>
  The crate \<open>archangel-snapshot\<close>: detection of the file system behind a path, and the BTRFS
  backend.  Running a command is a parameter, the exit status and standard error of an argument
  vector; a panic of \<open>String::truncate\<close> is the value \<open>None\<close>.
\<close>

datatype SnapshotError =
    NoBackend string
  | BackendFailed string
  | SnapUnsupported
  | SnapIo

datatype SnapshotId = SnapshotId (snap_path: string)

section \<open>Detection\<close>

definition is_path_prefix :: "string \<Rightarrow> string \<Rightarrow> bool" where
  "is_path_prefix pre path =
    (if pre = ''/'' then starts_with ''/'' path
     else case strip_prefix pre path of
       None \<Rightarrow> False
     | Some rest \<Rightarrow> rest = [] \<or> starts_with ''/'' rest)"

text \<open>The mount point and type of a line of \<open>/proc/mounts\<close>: its second and third field.\<close>

definition mount_fields :: "string \<Rightarrow> (string \<times> string) option" where
  "mount_fields line =
    (case split_whitespace line of
       _ # mp # fstype # _ \<Rightarrow> Some (mp, fstype)
     | _ \<Rightarrow> None)"

definition better_mount :: "string \<Rightarrow> (string \<times> string) option \<Rightarrow> string \<Rightarrow> (string \<times> string) option" where
  "better_mount path best line =
    (case mount_fields line of
       None \<Rightarrow> best
     | Some (mp, fstype) \<Rightarrow>
        if is_path_prefix mp path then
          (case best of
             Some (bmp, bt) \<Rightarrow> if length bmp \<ge> length mp then best else Some (mp, fstype)
           | None \<Rightarrow> Some (mp, fstype))
        else best)"

definition fs_type_for :: "string \<Rightarrow> string \<Rightarrow> string option" where
  "fs_type_for mounts path = map_option snd (foldl (better_mount path) None (str_lines mounts))"

record BtrfsSnapshotter =
  snapshot_root :: string

definition detect_for :: "string option \<Rightarrow> string option \<Rightarrow> string \<Rightarrow> BtrfsSnapshotter option" where
  "detect_for proc_mounts target root =
    Option.bind proc_mounts (\<lambda>mounts.
    Option.bind target (\<lambda>p.
    Option.bind (fs_type_for mounts p) (\<lambda>t.
    if t = ''btrfs'' then Some \<lparr> snapshot_root = root \<rparr> else None)))"

section \<open>BTRFS backend\<close>

text \<open>\<open>output\<close> of a command: \<open>None\<close> if it could not be spawned, else success and standard error.\<close>

type_synonym run_command = "string list \<Rightarrow> (bool \<times> byte list) option"

definition run :: "run_command \<Rightarrow> string list \<Rightarrow> (SnapshotError, unit) result option" where
  "run output argv =
    (case output argv of
       None \<Rightarrow> Some (Inl SnapIo)
     | Some (success, stderr) \<Rightarrow>
        if success then Some (Inr ())
        else map_option (\<lambda>msg. Inl (BackendFailed msg)) (str_truncate 256 (from_utf8_lossy stderr)))"

text \<open>\<open>Path::file_name\<close>: the last component, unless there is none or it is a double dot.\<close>

definition file_name :: "string \<Rightarrow> string option" where
  "file_name p =
    (let cs = filter (\<lambda>c. c \<noteq> [] \<and> c \<noteq> ''.'') (split_char CHR ''/'' p) in
     if cs = [] \<or> last cs = ''..'' then None else Some (last cs))"

definition btrfs_snapshot ::
  "run_command \<Rightarrow> bool \<Rightarrow> nat \<Rightarrow> BtrfsSnapshotter \<Rightarrow> string \<Rightarrow> (SnapshotError, SnapshotId) result option"
where
  "btrfs_snapshot output mkdir_ok unique_suffix self target =
    (let stem = unwrap_or ''root'' (file_name target);
         dest = path_join (snapshot_root self) (stem @ ''.'' @ show_nat unique_suffix) in
     if \<not> mkdir_ok then Some (Inl SnapIo)
     else map_option (map_ok (\<lambda>_. SnapshotId dest))
       (run output [''btrfs'', ''subvolume'', ''snapshot'', ''-r'', target, dest]))"

definition btrfs_rollback :: "SnapshotId \<Rightarrow> (SnapshotError, unit) result" where
  "btrfs_rollback i = Inl SnapUnsupported"

definition btrfs_discard :: "run_command \<Rightarrow> SnapshotId \<Rightarrow> (SnapshotError, unit) result option" where
  "btrfs_discard output i = run output [''btrfs'', ''subvolume'', ''delete'', snap_path i]"

section \<open>Lemmas\<close>

text \<open>The mounts that cover a path.\<close>

definition covering :: "string \<Rightarrow> string list \<Rightarrow> (string \<times> string) set" where
  "covering path ls = {m. \<exists>l \<in> set ls. mount_fields l = Some m \<and> is_path_prefix (fst m) path}"

lemma covering_snoc:
  "covering path (ls @ [l]) = covering path ls
    \<union> (case mount_fields l of Some m \<Rightarrow> if is_path_prefix (fst m) path then {m} else {} | None \<Rightarrow> {})"
  by (auto simp: covering_def split: option.splits)

definition best_of :: "string \<Rightarrow> string list \<Rightarrow> (string \<times> string) option \<Rightarrow> bool" where
  "best_of path ls b =
    (case b of
       None \<Rightarrow> covering path ls = {}
     | Some m \<Rightarrow> m \<in> covering path ls \<and> (\<forall>k \<in> covering path ls. length (fst k) \<le> length (fst m)))"

lemma better_mount_best:
  "best_of path ls b \<Longrightarrow> best_of path (ls @ [l]) (better_mount path b l)"
  by (cases "mount_fields l"; cases b)
    (fastforce simp: best_of_def better_mount_def covering_snoc)+

lemma fold_mounts_best: "best_of path ls (foldl (better_mount path) None ls)"
proof (induction ls rule: rev_induct)
  case Nil
  then show ?case by (simp add: best_of_def covering_def)
next
  case (snoc l ls)
  then show ?case using better_mount_best by simp
qed

section \<open>Properties\<close>

text \<open>The file system of a path is the one of a longest covering mount point; there is none only
  if no mount covers the path.\<close>

theorem fs_type_longest_mount:
  "(case fs_type_for mounts path of
      None \<Rightarrow> covering path (str_lines mounts) = {}
    | Some t \<Rightarrow> \<exists>mp. is_arg_max (\<lambda>k. length (fst k)) (\<lambda>k. k \<in> covering path (str_lines mounts)) (mp, t))"
  using fold_mounts_best [of path "str_lines mounts"]
  by (fastforce simp: fs_type_for_def best_of_def is_arg_max_def not_less split: option.splits)

text \<open>The backend's error path can panic: a failing command whose standard error has a character
  across byte 256, here 255 letters and a two-byte character.\<close>

lemma ascii_lossy: "\<forall>b \<in> set bs. unat b < 128 \<Longrightarrow> utf8_lossy (bs @ cs) = bs @ utf8_lossy cs"
proof (induction bs)
  case (Cons b bs)
  then show ?case by (subst utf8_lossy.simps) (simp add: utf8_len_def in_range_def)
qed simp

lemma lossy_e_acute: "utf8_lossy [0xC3, 0xA9] = [0xC3, 0xA9]"
  by (simp add: utf8_lossy.simps [of "[0xC3, 0xA9]"] utf8_lossy.simps [of "[]"] utf8_len_def in_range_def Let_def)

theorem snapshot_error_panics:
  "run (\<lambda>_. Some (False, replicate 255 0x61 @ [0xC3, 0xA9])) argv = None"
proof -
  have "utf8_lossy (replicate 255 0x61 @ [0xC3, 0xA9]) = replicate 255 0x61 @ [0xC3, 0xA9]"
    by (subst ascii_lossy) (simp_all add: lossy_e_acute)
  moreover have "\<not> is_char_boundary (str_of_bytes (replicate 255 0x61 @ [0xC3, 0xA9])) 256"
    by (simp add: is_char_boundary_def str_of_bytes_def nth_append in_range_def)
  ultimately show ?thesis
    by (simp add: run_def from_utf8_lossy_def str_truncate_def)
qed

end
