(* ===== verification/Executor.thy ===== *)
theory Executor
  imports Policy_Engine Replay_Guard Rate_Limit Exec_Format Sandbox_Plan Ipc Snapshot
begin

text \<open>
  \<open>archangel-execd\<close>: the security pipeline (\<open>handler.rs\<close>).  \<open>ExecEnv\<close> gathers everything the
  pipeline calls outside the repository or outside its own state: the libraries of the other
  theories, the file system of bundles, the kernel's cgroups and the runner.  \<open>World\<close> is what it
  changes there: the cgroup files, and the log of the two visible effects, taking a snapshot
  and running an action.
\<close>

section \<open>State and environment\<close>

record RunResult =
  rr_exit_code :: "32 word"
  rr_duration_ms :: u64
  rr_stdout :: string
  rr_stderr :: string
  rr_truncated :: bool

record 'b RunContext =
  rc_script :: string
  rc_args :: "string btree_map"
  rc_timeout :: duration
  rc_max_output :: nat
  rc_sandbox :: "'b SandboxPlan option"
  rc_cgroup :: "Cgroup option"

record ExecLimits =
  el_timeout :: duration
  el_max_output :: nat

definition exec_limits_default :: ExecLimits where
  "exec_limits_default = \<lparr> el_timeout = 30 * 1000000000, el_max_output = 1024 * 1024 \<rparr>"

datatype Effect =
    TookSnapshot string
  | RanAction string "string btree_map"

record World =
  w_cgroups :: CgroupFs
  w_log :: "Effect list"

record ('g, 's, 'r, 'c, 'u, 'f, 'b) ExecEnv =
  e_crypto :: Crypto
  e_request_codec :: "ExecRequest Codec"
  e_envelope_codec :: "SignedEnvelope Codec"
  e_toml :: "string \<Rightarrow> (string, ExecManifest) result"
  e_read :: "string \<Rightarrow> byte list option"
  e_regex :: regex_new
  e_match :: "('g, 's, 'r) MatchLib"
  e_seccomp :: "('c, 'u, 'f, 'b) SeccompLib"
  e_libc :: LibC
  e_caps :: CapsLib
  e_arch :: TargetArch
  e_kernel :: CgroupKernel
  e_proc_self :: "string option"
  e_runner :: "'b RunContext \<Rightarrow> RunResult"

record Executor =
  x_session_key :: VerifyingKey
  x_trust :: OperatorTrust
  x_policy :: PolicyEngine
  x_bundle_dir :: string
  x_limits :: ExecLimits
  x_replay :: ReplayGuard
  x_snapshotter :: "(string \<Rightarrow> (SnapshotError, SnapshotId) result) option"
  x_mode_ceiling :: OperationMode
  x_rate :: RateLimiter

datatype HandlerReason =
    MalformedEnvelope IpcError
  | EnvelopeRejected IpcError
  | ReplayReason ReplayRejection
  | UnsafeExecName string
  | BundleDidNotVerify ExecFormatError
  | ArgumentRejected ExecFormatError
  | ExecutorReadOnly
  | RateLimitHit RateRejection
  | DeniedBecause DenyCategory DenyReason
  | NotAllowedBecause NotAllowedReason
  | NoRwPath
  | NoSnapshotBackend
  | SnapshotFailed SnapshotError
  | SandboxPlanRefused SandboxError
  | CgroupNotEnforceable SandboxError
  | ResponseEncodingFailed

type_synonym exec_response = "HandlerReason ExecResponse"

type_synonym 'a gate = "(exec_response, 'a) result"

definition unknown_action :: ActionId where
  "unknown_action = ActionId (replicate 16 0)"

definition safe_exec_name :: "string \<Rightarrow> bool" where
  "safe_exec_name name \<longleftrightarrow>
    name \<noteq> [] \<and> length name \<le> 128 \<and> name \<noteq> ''.'' \<and> name \<noteq> ''..'' \<and> \<not> contains ''..'' name
    \<and> list_all (\<lambda>b. is_ascii_alphanumeric b \<or> b = CHR ''.'' \<or> b = CHR ''_'' \<or> b = CHR ''-'') name"

section \<open>Construction\<close>

definition executor_new ::
  "VerifyingKey \<Rightarrow> OperatorTrust \<Rightarrow> PolicyEngine \<Rightarrow> string \<Rightarrow> ExecLimits
    \<Rightarrow> (string \<Rightarrow> (SnapshotError, SnapshotId) result) option \<Rightarrow> Executor"
where
  "executor_new session_key trust policy bundle_dir limits snapshotter =
    \<lparr> x_session_key = session_key, x_trust = trust, x_policy = policy, x_bundle_dir = bundle_dir,
      x_limits = limits, x_replay = replay_new, x_snapshotter = snapshotter,
      x_mode_ceiling = ReadOnly, x_rate = limiter_new rate_limits_default \<rparr>"

definition set_rate_limits :: "Executor \<Rightarrow> RateLimits \<Rightarrow> Executor" where
  "set_rate_limits ex limits = ex\<lparr> x_rate := limiter_new limits \<rparr>"

definition set_mode_ceiling :: "Executor \<Rightarrow> OperationMode \<Rightarrow> Executor" where
  "set_mode_ceiling ex mode = ex\<lparr> x_mode_ceiling := mode \<rparr>"

definition set_session_key :: "Executor \<Rightarrow> VerifyingKey \<Rightarrow> Executor" where
  "set_session_key ex key = ex\<lparr> x_session_key := key \<rparr>"

section \<open>Gates\<close>

definition authenticate ::
  "('g, 's, 'r, 'c, 'u, 'f, 'b) ExecEnv \<Rightarrow> Executor \<Rightarrow> byte list \<Rightarrow> ExecRequest gate"
where
  "authenticate E ex frame_body =
    bind_res (map_err (\<lambda>e. rejected unknown_action StageSignatureInvalid (MalformedEnvelope e))
      (from_frame_body (e_envelope_codec E) frame_body)) (\<lambda>envelope.
    map_err (\<lambda>e. rejected unknown_action StageSignatureInvalid (EnvelopeRejected e))
      (envelope_open (e_crypto E) (e_request_codec E) envelope (x_session_key ex)))"

definition anti_replay :: "Executor \<Rightarrow> ExecRequest \<Rightarrow> Executor \<times> unit gate" where
  "anti_replay ex request =
    (let (g, r) = admit (x_replay ex) (rq_session_id request) (rq_seq request) (rq_nonce request) in
     (ex\<lparr> x_replay := g \<rparr>,
      map_err (\<lambda>why. rejected (rq_action_id request) Replay (ReplayReason why)) r))"

definition resolve_bundle ::
  "('g, 's, 'r, 'c, 'u, 'f, 'b) ExecEnv \<Rightarrow> Executor \<Rightarrow> ExecRequest \<Rightarrow> VerifiedBundle gate"
where
  "resolve_bundle E ex request =
    (if \<not> safe_exec_name (rq_exec_name request)
     then Inl (rejected (rq_action_id request) BundleUnverified (UnsafeExecName (rq_exec_name request)))
     else
     let exec_path = path_join (x_bundle_dir ex) (rq_exec_name request @ ''.exec'');
         sig_path = path_join (x_bundle_dir ex) (rq_exec_name request @ ''.exec.sig'') in
     map_err (\<lambda>e. rejected (rq_action_id request) BundleUnverified (BundleDidNotVerify e))
       (bundle_load (e_crypto E) (e_toml E) (e_read E) exec_path sig_path (x_trust ex)))"

definition check_args_and_mutation ::
  "('g, 's, 'r, 'c, 'u, 'f, 'b) ExecEnv \<Rightarrow> Executor \<Rightarrow> ExecRequest \<Rightarrow> VerifiedBundle \<Rightarrow> unit gate"
where
  "check_args_and_mutation E ex request bundle =
    bind_res (map_err (\<lambda>e. rejected (rq_action_id request) StageArgRejected (ArgumentRejected e))
      (validate_args (e_regex E) (vb_manifest bundle) (rq_args request))) (\<lambda>_.
    if m_read_only (meta (vb_manifest bundle)) \<or> allows_mutation (x_mode_ceiling ex) then Inr ()
    else Inl (rejected (rq_action_id request) NotReadOnly ExecutorReadOnly))"

definition action_class :: "VerifiedBundle \<Rightarrow> ActionClass" where
  "action_class bundle =
    \<lparr> ac_mutating = (\<not> m_read_only (meta (vb_manifest bundle))),
      ac_critical = (m_risk (meta (vb_manifest bundle)) = Critical) \<rparr>"

definition rate_gate :: "Executor \<Rightarrow> instant \<Rightarrow> ExecRequest \<Rightarrow> VerifiedBundle \<Rightarrow> Executor \<times> unit gate" where
  "rate_gate ex now request bundle =
    (let (rl, r) = try_admit (x_rate ex) now (action_class bundle) in
     (ex\<lparr> x_rate := rl \<rparr>,
      map_err (\<lambda>why. rejected (rq_action_id request) RateLimited (RateLimitHit why)) r))"

definition policy_request :: "ExecRequest \<Rightarrow> VerifiedBundle \<Rightarrow> PolicyRequest" where
  "policy_request request bundle =
    (let mf = vb_manifest bundle;
         intents = map (\<lambda>p. \<lparr> pi_path = p, pi_access = Read \<rparr>) (ss_allowed_paths_ro (sandbox mf))
                 @ map (\<lambda>p. \<lparr> pi_path = p, pi_access = Write \<rparr>) (ss_allowed_paths_rw (sandbox mf)) in
     \<lparr> pr_profile = rq_profile request, pr_mode = rq_mode request, pr_exec = rq_exec_name request,
       pr_risk = m_risk (meta mf), pr_commands = [p_inline (payload mf)], pr_paths = intents \<rparr>)"

definition handler_policy_gate ::
  "('g, 's, 'r, 'c, 'u, 'f, 'b) ExecEnv \<Rightarrow> Executor \<Rightarrow> ExecRequest \<Rightarrow> VerifiedBundle \<Rightarrow> unit gate"
where
  "handler_policy_gate E ex request bundle =
    (case evaluate (e_match E) (x_policy ex) (policy_request request bundle) of
       Allow \<Rightarrow> Inr ()
     | RequireApproval _ _ \<Rightarrow> Inr ()
     | Deny cat _ reason \<Rightarrow> Inl (rejected (rq_action_id request) DenylistHit (DeniedBecause cat reason))
     | NotAllowed reason \<Rightarrow> Inl (rejected (rq_action_id request) NotAllowlisted' (NotAllowedBecause reason)))"

definition snapshot_gate ::
  "Executor \<Rightarrow> World \<Rightarrow> ExecRequest \<Rightarrow> VerifiedBundle \<Rightarrow> World \<times> string option gate"
where
  "snapshot_gate ex w request bundle =
    (let mf = vb_manifest bundle;
         reject = (\<lambda>reason. Inl (rejected (rq_action_id request) SnapshotUnavailable reason)) in
     if \<not> m_mutates_persistent_state (meta mf) then (w, Inr None)
     else case first (ss_allowed_paths_rw (sandbox mf)) of
       None \<Rightarrow> (w, reject NoRwPath)
     | Some target \<Rightarrow>
        (case x_snapshotter ex of
           None \<Rightarrow> (w, reject NoSnapshotBackend)
         | Some snapshot \<Rightarrow>
            (case snapshot target of
               Inr i \<Rightarrow> (w\<lparr> w_log := w_log w @ [TookSnapshot target] \<rparr>, Inr (Some (snap_path i)))
             | Inl e \<Rightarrow> (w, reject (SnapshotFailed e)))))"

definition network_mode :: "NetworkPolicy \<Rightarrow> NetworkMode" where
  "network_mode n = (case n of NetNone \<Rightarrow> ModeNone | NetLoopback \<Rightarrow> ModeLoopback | NetEgress \<Rightarrow> ModeEgress)"

definition sandbox_policy :: "SandboxSpec \<Rightarrow> SandboxPolicy" where
  "sandbox_policy s =
    \<lparr> sp_syscall_profile = ss_syscall_profile s, sp_capabilities = ss_capabilities s,
      sp_allowed_paths_ro = ss_allowed_paths_ro s, sp_allowed_paths_rw = ss_allowed_paths_rw s,
      sp_network = network_mode (ss_network s), sp_cpu_max = ss_cpu_max s, sp_memory_max = ss_memory_max s \<rparr>"

definition sandbox_gate ::
  "('g, 's, 'r, 'c, 'u, 'f, 'b) ExecEnv \<Rightarrow> ExecRequest \<Rightarrow> VerifiedBundle \<Rightarrow> 'b SandboxPlan gate"
where
  "sandbox_gate E request bundle =
    map_err (\<lambda>e. rejected (rq_action_id request) SandboxRejected (SandboxPlanRefused e))
      (plan (e_seccomp E) (e_libc E) (e_caps E) (e_arch E) (sandbox_policy (sandbox (vb_manifest bundle))))"

definition cgroup_gate ::
  "('g, 's, 'r, 'c, 'u, 'f, 'b) ExecEnv \<Rightarrow> World \<Rightarrow> ExecRequest \<Rightarrow> 'b SandboxPlan \<Rightarrow> World \<times> Cgroup option gate"
where
  "cgroup_gate E w request pl =
    (let name = ''archangel-'' @ id_display (action_bytes (rq_action_id request));
         (fs, r) = create_for_self (e_kernel E) (w_cgroups w) (e_proc_self E) name
                     (pl_cpu_max pl) (pl_memory_max pl) in
     (w\<lparr> w_cgroups := fs \<rparr>,
      map_err (\<lambda>e. rejected (rq_action_id request) SandboxRejected (CgroupNotEnforceable e)) r))"

definition execute ::
  "('g, 's, 'r, 'c, 'u, 'f, 'b) ExecEnv \<Rightarrow> World \<Rightarrow> ExecLimits \<Rightarrow> ExecRequest \<Rightarrow> VerifiedBundle \<Rightarrow> ActionId
    \<Rightarrow> string option \<Rightarrow> 'b SandboxPlan \<Rightarrow> Cgroup option \<Rightarrow> World \<times> exec_response"
where
  "execute E w limits request bundle action_id snap pl cgroup =
    (let script = p_inline (payload (vb_manifest bundle));
         result = e_runner E \<lparr> rc_script = script, rc_args = rq_args request, rc_timeout = el_timeout limits,
           rc_max_output = el_max_output limits, rc_sandbox = Some pl, rc_cgroup = cgroup \<rparr> in
     (w\<lparr> w_log := w_log w @ [RanAction script (rq_args request)] \<rparr>,
      \<lparr> rs_action_id = action_id,
        rs_outcome = Completed (rr_exit_code result) (rr_duration_ms result) (rr_stdout result)
          (rr_stderr result) (rr_truncated result) snap \<rparr>))"

section \<open>Pipeline\<close>

text \<open>The cgroup guard is dropped when \<open>dispatch\<close> returns.\<close>

definition drop_cgroup :: "CgroupKernel \<Rightarrow> World \<Rightarrow> Cgroup option \<Rightarrow> World" where
  "drop_cgroup K w cg =
    (case cg of None \<Rightarrow> w | Some c \<Rightarrow> w\<lparr> w_cgroups := cgroup_drop K (w_cgroups w) c \<rparr>)"

definition dispatch ::
  "('g, 's, 'r, 'c, 'u, 'f, 'b) ExecEnv \<Rightarrow> instant \<Rightarrow> Executor \<Rightarrow> World \<Rightarrow> byte list
    \<Rightarrow> (Executor \<times> World) \<times> exec_response gate"
where
  "dispatch E now ex w frame_body =
    (case authenticate E ex frame_body of Inl r \<Rightarrow> ((ex, w), Inl r) | Inr request \<Rightarrow>
     let action_id = rq_action_id request; (ex1, replayed) = anti_replay ex request in
     case replayed of Inl r \<Rightarrow> ((ex1, w), Inl r) | Inr _ \<Rightarrow>
    (case resolve_bundle E ex1 request of Inl r \<Rightarrow> ((ex1, w), Inl r) | Inr bundle \<Rightarrow>
    (case check_args_and_mutation E ex1 request bundle of Inl r \<Rightarrow> ((ex1, w), Inl r) | Inr _ \<Rightarrow>
    (case handler_policy_gate E ex1 request bundle of Inl r \<Rightarrow> ((ex1, w), Inl r) | Inr _ \<Rightarrow>
     let (ex2, rated) = rate_gate ex1 now request bundle in
     case rated of Inl r \<Rightarrow> ((ex2, w), Inl r) | Inr _ \<Rightarrow>
     let (w1, snapped) = snapshot_gate ex2 w request bundle in
     case snapped of Inl r \<Rightarrow> ((ex2, w1), Inl r) | Inr snap \<Rightarrow>
    (case sandbox_gate E request bundle of Inl r \<Rightarrow> ((ex2, w1), Inl r) | Inr pl \<Rightarrow>
     let (w2, grouped) = cgroup_gate E w1 request pl in
     case grouped of Inl r \<Rightarrow> ((ex2, w2), Inl r) | Inr cgroup \<Rightarrow>
     let (w3, response) = execute E w2 (x_limits ex2) request bundle action_id snap pl cgroup in
     ((ex2, drop_cgroup (e_kernel E) w3 cgroup), Inr response))))))"

definition handle ::
  "('g, 's, 'r, 'c, 'u, 'f, 'b) ExecEnv \<Rightarrow> instant \<Rightarrow> Executor \<Rightarrow> World \<Rightarrow> byte list
    \<Rightarrow> (Executor \<times> World) \<times> exec_response"
where
  "handle E now ex w frame_body =
    (let (s, r) = dispatch E now ex w frame_body in (s, case r of Inl resp \<Rightarrow> resp | Inr resp \<Rightarrow> resp))"

section \<open>Inversion\<close>

lemma authenticate_ok [gate_elims]:
  assumes "authenticate E ex body = Inr request"
  obtains env where "from_reader (e_envelope_codec E) body = Inr env"
    "se_version env = PROTOCOL_VERSION" "length (se_signature env) = 64"
    "verify_strict (e_crypto E) (x_session_key ex) (se_request env) (Signature (se_signature env))"
    "from_reader (e_request_codec E) (se_request env) = Inr request"
  using assms
  by (auto simp: authenticate_def bind_res_eq_Inr envelope_open_ok from_frame_body_def cbor_from_slice_def)

lemma anti_replay_ok:
  "snd (anti_replay ex request) = Inr () \<longleftrightarrow>
    snd (admit (x_replay ex) (rq_session_id request) (rq_seq request) (rq_nonce request)) = Inr ()"
  by (simp add: anti_replay_def split_beta)

lemma anti_replay_ex:
  "fst (anti_replay ex request) =
    ex\<lparr> x_replay := fst (admit (x_replay ex) (rq_session_id request) (rq_seq request) (rq_nonce request)) \<rparr>"
  by (simp add: anti_replay_def split_beta)

lemma rate_gate_ok:
  "snd (rate_gate ex now request bundle) = Inr () \<longleftrightarrow>
    snd (try_admit (x_rate ex) now (action_class bundle)) = Inr ()"
  by (simp add: rate_gate_def split_beta)

lemma rate_gate_ex:
  "fst (rate_gate ex now request bundle) =
    ex\<lparr> x_rate := fst (try_admit (x_rate ex) now (action_class bundle)) \<rparr>"
  by (simp add: rate_gate_def split_beta)

lemma policy_gate_ok:
  "handler_policy_gate E ex request bundle = Inr () \<longleftrightarrow>
    \<not> request_denied (e_match E) (policy_request request bundle)
    \<and> engine_lists (x_policy ex) (policy_request request bundle)"
proof -
  let ?d = "evaluate (e_match E) (x_policy ex) (policy_request request bundle)"
  have "handler_policy_gate E ex request bundle = Inr () \<longleftrightarrow> \<not> is_deny ?d \<and> \<not> (\<exists>x. ?d = NotAllowed x)"
    by (cases ?d) (auto simp: handler_policy_gate_def is_deny_def)
  then show ?thesis
    using engine.denied_final engine.refused_unlisted by blast
qed

lemma snapshot_gate_ok:
  assumes "snapshot_gate ex w request bundle = (w', Inr snap)"
  shows "(m_mutates_persistent_state (meta (vb_manifest bundle)) \<longleftrightarrow> snap \<noteq> None)
    \<and> w_log w' = w_log w @ (if snap = None then [] else [TookSnapshot (hd (ss_allowed_paths_rw (sandbox (vb_manifest bundle))))])"
  using assms by (auto simp: snapshot_gate_def Let_def first_def split: if_splits option.splits sum.splits list.splits)

lemma snapshot_gate_frame:
  "w_cgroups (fst (snapshot_gate ex w request bundle)) = w_cgroups w"
  "is_ok (snd (snapshot_gate ex w request bundle)) \<or> fst (snapshot_gate ex w request bundle) = w"
  by (auto simp: snapshot_gate_def Let_def split: option.splits sum.splits)

lemma cgroup_gate_log: "w_log (fst (cgroup_gate E w request pl)) = w_log w"
  by (simp add: cgroup_gate_def split_beta Let_def)

lemma cgroup_gate_none:
  "snd (cgroup_gate E w request pl) = Inr None \<longleftrightarrow> pl_cpu_max pl = None \<and> pl_memory_max pl = None"
  by (auto simp: cgroup_gate_def create_for_self_def Let_def split_beta map_ok_eq_Inr
      split: option.splits if_splits)

text \<open>A request that ran passed every gate; the states it went through are named.\<close>

lemma dispatch_InrE:
  assumes "dispatch E now ex w body = (s, Inr response)"
  obtains request vb snap pl cgroup w1 w2 where
    "authenticate E ex body = Inr request"
    "snd (anti_replay ex request) = Inr ()"
    "resolve_bundle E (fst (anti_replay ex request)) request = Inr vb"
    "check_args_and_mutation E (fst (anti_replay ex request)) request vb = Inr ()"
    "handler_policy_gate E (fst (anti_replay ex request)) request vb = Inr ()"
    "snd (rate_gate (fst (anti_replay ex request)) now request vb) = Inr ()"
    "w1 = fst (snapshot_gate (fst (rate_gate (fst (anti_replay ex request)) now request vb)) w request vb)"
    "snd (snapshot_gate (fst (rate_gate (fst (anti_replay ex request)) now request vb)) w request vb) = Inr snap"
    "sandbox_gate E request vb = Inr pl"
    "w2 = fst (cgroup_gate E w1 request pl)"
    "snd (cgroup_gate E w1 request pl) = Inr cgroup"
    "response = snd (execute E w2 (x_limits ex) request vb (rq_action_id request) snap pl cgroup)"
    "fst s = fst (rate_gate (fst (anti_replay ex request)) now request vb)"
    "snd s = drop_cgroup (e_kernel E)
       (fst (execute E w2 (x_limits ex) request vb (rq_action_id request) snap pl cgroup)) cgroup"
proof -
  have lim: "x_limits (fst (rate_gate (fst (anti_replay ex request)) now request vb)) = x_limits ex"
    for request vb by (simp add: anti_replay_ex rate_gate_ex)
  from assms show thesis
    unfolding dispatch_def Let_def
    by (auto simp: split_beta lim split: sum.splits prod.splits intro!: that)
qed

section \<open>Rejections\<close>

text \<open>Every rejection of a gate is a \<open>Rejected\<close> response.\<close>

definition is_rejected :: "exec_response \<Rightarrow> bool" where
  "is_rejected r = (case rs_outcome r of Rejected _ _ \<Rightarrow> True | Completed _ _ _ _ _ _ \<Rightarrow> False)"

lemma is_rejected_rejected [simp]: "is_rejected (rejected a st why)"
  by (simp add: is_rejected_def rejected_def)

lemma gate_rejections:
  "authenticate E ex body = Inl r \<Longrightarrow> is_rejected r"
  "snd (anti_replay ex request) = Inl r \<Longrightarrow> is_rejected r"
  "resolve_bundle E ex request = Inl r \<Longrightarrow> is_rejected r"
  "check_args_and_mutation E ex request vb = Inl r \<Longrightarrow> is_rejected r"
  "handler_policy_gate E ex request vb = Inl r \<Longrightarrow> is_rejected r"
  "snd (rate_gate ex now request vb) = Inl r \<Longrightarrow> is_rejected r"
  "snd (snapshot_gate ex w request vb) = Inl r \<Longrightarrow> is_rejected r"
  "sandbox_gate E request vb = Inl r \<Longrightarrow> is_rejected r"
  "snd (cgroup_gate E w request pl) = Inl r \<Longrightarrow> is_rejected r"
          apply (auto simp: authenticate_def res_eq) [1]
         apply (auto simp: anti_replay_def split_beta res_eq) [1]
        apply (auto simp: resolve_bundle_def Let_def res_eq split: if_splits) [1]
       apply (auto simp: check_args_and_mutation_def res_eq split: if_splits) [1]
      apply (auto simp: handler_policy_gate_def split: PolicyDecision.splits) [1]
     apply (auto simp: rate_gate_def split_beta res_eq) [1]
    apply (auto simp: snapshot_gate_def Let_def split: if_splits option.splits sum.splits) [1]
   apply (auto simp: sandbox_gate_def res_eq) [1]
  apply (auto simp: cgroup_gate_def split_beta Let_def res_eq)
  done

text \<open>The log after a snapshot gate: at most one snapshot more.\<close>

definition is_run :: "Effect \<Rightarrow> bool" where
  "is_run e = (case e of RanAction _ _ \<Rightarrow> True | TookSnapshot _ \<Rightarrow> False)"

lemma snapshot_gate_runs:
  "filter is_run (w_log (fst (snapshot_gate ex w request vb))) = filter is_run (w_log w)"
  by (auto simp: snapshot_gate_def Let_def is_run_def split: option.splits sum.splits)

lemma drop_cgroup_log [simp]: "w_log (drop_cgroup K w cg) = w_log w"
  by (simp add: drop_cgroup_def split: option.splits)

lemma execute_log:
  "w_log (fst (execute E w limits request vb a snap pl cg))
    = w_log w @ [RanAction (p_inline (payload (vb_manifest vb))) (rq_args request)]"
  by (simp add: execute_def Let_def)

lemma execute_completed: "\<not> is_rejected (snd (execute E w limits request vb a snap pl cg))"
  by (simp add: execute_def Let_def is_rejected_def)

lemma dispatch_Inl:
  assumes "dispatch E now ex w body = (s, Inl r)"
  shows "is_rejected r \<and> filter is_run (w_log (snd s)) = filter is_run (w_log w)"
  using assms gate_rejections
  unfolding dispatch_def Let_def
  by (auto simp: split_beta snapshot_gate_runs cgroup_gate_log split: sum.splits)

lemma handle_cases:
  assumes "handle E now ex w body = (s, resp)"
  obtains (rej) "dispatch E now ex w body = (s, Inl resp)" "is_rejected resp"
  | (ran) "dispatch E now ex w body = (s, Inr resp)" "\<not> is_rejected resp"
proof (cases "snd (dispatch E now ex w body)")
  case (Inl r)
  then have "dispatch E now ex w body = (s, Inl resp)"
    using assms by (auto simp: handle_def split_beta intro: prod_eqI)
  then show thesis using rej dispatch_Inl by blast
next
  case (Inr r)
  then have "dispatch E now ex w body = (s, Inr resp)"
    using assms by (auto simp: handle_def split_beta intro: prod_eqI)
  moreover from this have "\<not> is_rejected resp"
    by (rule dispatch_InrE) (simp add: execute_completed)
  ultimately show thesis by (rule ran)
qed

section \<open>State changes of one request\<close>

text \<open>Only the replay guard and the rate limiter ever change, each by its own admission step.\<close>

definition replay_msg :: "ExecRequest \<Rightarrow> SessionId \<times> u64 \<times> nonce" where
  "replay_msg request = (rq_session_id request, rq_seq request, rq_nonce request)"

lemma anti_replay_step:
  "x_replay (fst (anti_replay ex request)) = fst (exec_step (x_replay ex) (replay_msg request))"
  "is_ok (snd (anti_replay ex request)) = snd (exec_step (x_replay ex) (replay_msg request))"
  by (auto simp: anti_replay_def exec_step_def replay_msg_def split_beta is_ok_def split: sum.splits)

definition same_config :: "Executor \<Rightarrow> Executor \<Rightarrow> bool" where
  "same_config a b \<longleftrightarrow>
    x_session_key a = x_session_key b \<and> x_trust a = x_trust b \<and> x_policy a = x_policy b
    \<and> x_bundle_dir a = x_bundle_dir b \<and> x_limits a = x_limits b \<and> x_snapshotter a = x_snapshotter b
    \<and> x_mode_ceiling a = x_mode_ceiling b"

lemma same_config_gates:
  "same_config (fst (anti_replay ex request)) ex"
  "same_config (fst (rate_gate ex now request vb)) ex"
  by (simp_all add: same_config_def anti_replay_ex rate_gate_ex)

lemma same_config_trans: "same_config a b \<Longrightarrow> same_config b c \<Longrightarrow> same_config a c"
  by (simp add: same_config_def)

lemma dispatch_executor:
  "(case authenticate E ex body of
      Inl _ \<Rightarrow> fst (fst (dispatch E now ex w body)) = ex
    | Inr request \<Rightarrow>
        fst (fst (dispatch E now ex w body)) = fst (anti_replay ex request)
        \<or> snd (anti_replay ex request) = Inr ()
          \<and> (\<exists>vb. fst (fst (dispatch E now ex w body))
                = fst (rate_gate (fst (anti_replay ex request)) now request vb)))"
  unfolding dispatch_def Let_def
  by (auto simp: split_beta split: sum.splits)

lemma handle_executor: "fst (handle E now ex w body) = fst (dispatch E now ex w body)"
  by (simp add: handle_def split_beta)

lemma handle_replay:
  "x_replay (fst (fst (handle E now ex w body))) =
    (case authenticate E ex body of
       Inl _ \<Rightarrow> x_replay ex
     | Inr request \<Rightarrow> fst (exec_step (x_replay ex) (replay_msg request)))"
  using dispatch_executor [where E = E and ex = ex and body = body and now = now and w = w]
  by (auto simp: handle_executor anti_replay_step [symmetric] rate_gate_ex split: sum.splits)

lemma handle_config: "same_config (fst (fst (handle E now ex w body))) ex"
  using dispatch_executor [where E = E and ex = ex and body = body and now = now and w = w] same_config_gates same_config_trans
  by (auto simp: handle_executor same_config_def [of ex ex] split: sum.splits)
    (metis same_config_gates same_config_trans)+

lemma handle_rate:
  "x_rate (fst (fst (handle E now ex w body))) = x_rate ex
    \<or> (\<exists>c. x_rate (fst (fst (handle E now ex w body))) = fst (try_admit (x_rate ex) now c))"
  using dispatch_executor [where E = E and ex = ex and body = body and now = now and w = w]
  by (auto simp: handle_executor rate_gate_ex anti_replay_ex split: sum.splits)

section \<open>Sequences of requests\<close>

text \<open>The executor serves its connections one after the other; every frame body arrives with the
  instant at which it is handled.\<close>

primrec handle_all ::
  "('g, 's, 'r, 'c, 'u, 'f, 'b) ExecEnv \<Rightarrow> Executor \<Rightarrow> World \<Rightarrow> (instant \<times> byte list) list
    \<Rightarrow> (instant \<times> byte list \<times> exec_response) list"
where
  "handle_all E ex w [] = []"
| "handle_all E ex w (x # xs) =
    (let ((ex1, w1), resp) = handle E (fst x) ex w (snd x) in
     (fst x, snd x, resp) # handle_all E ex1 w1 xs)"

definition ran :: "(instant \<times> byte list \<times> exec_response) list \<Rightarrow> (instant \<times> byte list \<times> exec_response) list" where
  "ran rs = filter (\<lambda>(_, _, resp). \<not> is_rejected resp) rs"

text \<open>The request of a frame body, by the checks of \<open>authenticate\<close>.\<close>

definition msg_of ::
  "('g, 's, 'r, 'c, 'u, 'f, 'b) ExecEnv \<Rightarrow> Executor \<Rightarrow> byte list \<Rightarrow> SessionId \<times> u64 \<times> nonce"
where
  "msg_of E ex body =
    (case authenticate E ex body of Inr request \<Rightarrow> replay_msg request | Inl _ \<Rightarrow> (SessionId [], 0, []))"

definition authentic_msgs ::
  "('g, 's, 'r, 'c, 'u, 'f, 'b) ExecEnv \<Rightarrow> Executor \<Rightarrow> (instant \<times> byte list) list \<Rightarrow> (SessionId \<times> u64 \<times> nonce) list"
where
  "authentic_msgs E ex xs = map (msg_of E ex \<circ> snd) (filter (is_ok \<circ> authenticate E ex \<circ> snd) xs)"

lemma authenticate_config: "same_config a b \<Longrightarrow> authenticate E a body = authenticate E b body"
  by (simp add: authenticate_def same_config_def)

lemma msg_of_config: "same_config a b \<Longrightarrow> msg_of E a body = msg_of E b body"
  by (simp add: msg_of_def authenticate_config [of a b])

lemma authentic_msgs_config: "same_config a b \<Longrightarrow> authentic_msgs E a xs = authentic_msgs E b xs"
  by (simp add: authentic_msgs_def authenticate_config [of a b] msg_of_config [of a b] comp_def)

lemma sorted_wrt_subseq: "subseq xs ys \<Longrightarrow> sorted_wrt P ys \<Longrightarrow> sorted_wrt P xs"
proof (induction rule: list_emb.induct)
  case (list_emb_Cons2 x y xs ys)
  then show ?case by (auto dest: list_emb_set)
qed auto

lemma distinct_subseq: "subseq xs ys \<Longrightarrow> distinct ys \<Longrightarrow> distinct xs"
proof (induction rule: list_emb.induct)
  case (list_emb_Cons2 x y xs ys)
  then show ?case by (auto dest: list_emb_set)
qed auto

text \<open>A request that ran was authentic, and the replay and rate guards admitted it.\<close>

lemma ran_admitted:
  assumes "handle E now ex w body = (s, resp)" and "\<not> is_rejected resp"
  shows "is_ok (authenticate E ex body)" "snd (exec_step (x_replay ex) (msg_of E ex body))"
    "\<exists>c. snd (try_admit (x_rate ex) now c) = Inr () \<and> x_rate (fst s) = fst (try_admit (x_rate ex) now c)"
proof -
  from assms have d: "dispatch E now ex w body = (s, Inr resp)"
    by (cases rule: handle_cases [OF assms(1)]) auto
  then show "is_ok (authenticate E ex body)" by (rule dispatch_InrE) simp
  from d show "snd (exec_step (x_replay ex) (msg_of E ex body))"
    by (rule dispatch_InrE) (simp add: anti_replay_step [symmetric] msg_of_def)
  from d show "\<exists>c. snd (try_admit (x_rate ex) now c) = Inr () \<and> x_rate (fst s) = fst (try_admit (x_rate ex) now c)"
    by (rule dispatch_InrE) (auto simp: rate_gate_ok rate_gate_ex anti_replay_ex)
qed

lemma ran_subseq_admitted:
  "subseq (map (\<lambda>(_, body, _). msg_of E ex body) (ran (handle_all E ex w xs)))
    (admitted exec_step (x_replay ex) (authentic_msgs E ex xs))"
proof (induction xs arbitrary: ex w)
  case (Cons x xs)
  obtain ex1 w1 resp where h: "handle E (fst x) ex w (snd x) = ((ex1, w1), resp)" by (metis surj_pair)
  have cfg: "same_config ex1 ex" using handle_config [of E "fst x" ex w "snd x"] h by simp
  have guard: "x_replay ex1 = (case authenticate E ex (snd x) of Inl _ \<Rightarrow> x_replay ex
      | Inr request \<Rightarrow> fst (exec_step (x_replay ex) (replay_msg request)))"
    using handle_replay [of E "fst x" ex w "snd x"] h by simp
  note IH = Cons.IH [of ex1 w1, unfolded authentic_msgs_config [OF cfg] msg_of_config [OF cfg]]
  show ?case
  proof (cases "authenticate E ex (snd x)")
    case (Inl r)
    then have "is_rejected resp" using ran_admitted(1) [OF h] by auto
    then show ?thesis using IH h Inl guard by (simp add: ran_def authentic_msgs_def)
  next
    case (Inr request)
    then have m: "msg_of E ex (snd x) = replay_msg request" by (simp add: msg_of_def)
    have "snd (exec_step (x_replay ex) (replay_msg request))" if "\<not> is_rejected resp"
      using ran_admitted(2) [OF h that] m by simp
    then show ?thesis using IH h Inr guard m by (auto simp: ran_def authentic_msgs_def)
  qed
qed (simp add: ran_def authentic_msgs_def)

lemma handle_all_rate:
  assumes "limiter_inv (x_rate ex) acts now" and "sorted (now # map fst xs)"
  shows "\<exists>rl acts'. limiter_inv rl (acts @ acts') (last (now # map fst xs))
    \<and> limits_of rl = limits_of (x_rate ex) \<and> subseq (map fst (ran (handle_all E ex w xs))) (map fst acts')"
  using assms
proof (induction xs arbitrary: ex w acts now)
  case Nil
  then show ?case by (intro exI [of _ "x_rate ex"] exI [of _ "[]"]) (simp add: ran_def)
next
  case (Cons x xs)
  obtain ex1 w1 resp where h: "handle E (fst x) ex w (snd x) = ((ex1, w1), resp)" by (metis surj_pair)
  have now: "limiter_inv (x_rate ex) acts (fst x)" and sorted: "sorted (fst x # map fst xs)"
    using Cons.prems by (auto intro: limiter_inv_later)
  have lims: "limits_of (x_rate ex1) = limits_of (x_rate ex)"
    using handle_rate [of E "fst x" ex w "snd x"] h try_admit_limits by auto
  show ?case
  proof (cases "is_rejected resp")
    case True
    have "\<exists>acts1. limiter_inv (x_rate ex1) (acts @ acts1) (fst x)"
    proof -
      consider "x_rate ex1 = x_rate ex" | c where "x_rate ex1 = fst (try_admit (x_rate ex) (fst x) c)"
        using handle_rate [of E "fst x" ex w "snd x"] h by auto
      then show ?thesis
      proof cases
        case 1
        then show ?thesis using now by (intro exI [of _ "[]"]) simp
      next
        case (2 c)
        have "limiter_inv (x_rate ex1) (acts @ (if is_ok (snd (try_admit (x_rate ex) (fst x) c)) then [(fst x, c)] else [])) (fst x)"
          using try_admit_inv [OF now, of c] 2 by (simp split: if_splits)
        then show ?thesis by blast
      qed
    qed
    then obtain acts1 where inv: "limiter_inv (x_rate ex1) (acts @ acts1) (fst x)" by blast
    obtain rl acts' where IH: "limiter_inv rl ((acts @ acts1) @ acts') (last (fst x # map fst xs))"
      "limits_of rl = limits_of (x_rate ex1)" "subseq (map fst (ran (handle_all E ex1 w1 xs))) (map fst acts')"
      using Cons.IH [OF inv sorted] by blast
    have "subseq (map fst (ran (handle_all E ex w (x # xs)))) (map fst (acts1 @ acts'))"
      using IH(3) h True by (simp add: ran_def subseq_drop_many)
    then show ?thesis
      using IH lims by (intro exI [of _ rl] exI [of _ "acts1 @ acts'"]) simp
  next
    case False
    obtain c where c: "snd (try_admit (x_rate ex) (fst x) c) = Inr ()" "x_rate ex1 = fst (try_admit (x_rate ex) (fst x) c)"
      using ran_admitted(3) [OF h False] by auto
    have inv: "limiter_inv (x_rate ex1) (acts @ [(fst x, c)]) (fst x)"
      using try_admit_inv [OF now, of c] c by simp
    obtain rl acts' where IH: "limiter_inv rl ((acts @ [(fst x, c)]) @ acts') (last (fst x # map fst xs))"
      "limits_of rl = limits_of (x_rate ex1)" "subseq (map fst (ran (handle_all E ex1 w1 xs))) (map fst acts')"
      using Cons.IH [OF inv sorted] by blast
    have "subseq (map fst (ran (handle_all E ex w (x # xs)))) (map fst ([(fst x, c)] @ acts'))"
      using IH(3) h False by (simp add: ran_def)
    then show ?thesis
      using IH lims by (intro exI [of _ rl] exI [of _ "[(fst x, c)] @ acts'"]) simp
  qed
qed

lemma in_span_subseq: "subseq xs ys \<Longrightarrow> in_span t h xs \<le> in_span t h ys"
  unfolding in_span_def by (rule list_emb_length) (erule subseq_filter)

section \<open>A concrete executor\<close>

text \<open>An executor with one trusted key and one read-only bundle, for the witnesses.  Its codecs
  recognise one frame; signatures and digests are those of \<open>sample_crypto\<close>.\<close>

definition sample_key :: SigningKey where
  "sample_key = SigningKey [7]"

definition sample_request :: ExecRequest where
  "sample_request =
    \<lparr> rq_session_id = SessionId (replicate 16 1), rq_action_id = ActionId (replicate 16 2), rq_seq = 1,
      rq_nonce = replicate 16 3, rq_issued_ms = 0, rq_profile = ''default'', rq_mode = ReadOnly,
      rq_exec_name = ''unit-status'', rq_args = [(''unit'', ''sshd'')], rq_declared_risk = Low,
      rq_declared_read_only = True \<rparr>"

definition sample_envelope :: SignedEnvelope where
  "sample_envelope =
    \<lparr> se_version = PROTOCOL_VERSION, se_request = [1],
      se_signature = sig_bytes (sign sample_crypto sample_key [1]) \<rparr>"

definition const_codec :: "'a \<Rightarrow> 'a Codec" where
  "const_codec v = \<lparr> into_writer = (\<lambda>_. Inr [1]), from_reader = (\<lambda>_. Inr v) \<rparr>"

definition sample_files :: "string \<Rightarrow> byte list option" where
  "sample_files p =
    (if p = ''/b/unit-status.exec'' then Some (as_bytes ''[meta]'')
     else if p = ''/b/unit-status.exec.sig''
     then Some (as_bytes (hex_encode (sig_bytes (sign sample_crypto sample_key (as_bytes ''[meta]'')))))
     else None)"

definition sample_env ::
  "ExecManifest \<Rightarrow>
    (string, string list, string list, nat \<times> u64, sample_rule, sample_program, sample_program) ExecEnv"
where
  "sample_env mf =
    \<lparr> e_crypto = sample_crypto, e_request_codec = const_codec sample_request,
      e_envelope_codec = const_codec sample_envelope, e_toml = (\<lambda>_. Inr mf), e_read = sample_files,
      e_regex = sample_regex, e_match = literal_lib, e_seccomp = sample_seccomp, e_libc = sample_libc,
      e_caps = sample_caps, e_arch = X86_64,
      e_kernel = \<lparr> ck_create = (\<lambda>_. True), ck_write = (\<lambda>_. True), ck_remove = (\<lambda>_. True) \<rparr>,
      e_proc_self = None,
      e_runner = (\<lambda>_. \<lparr> rr_exit_code = 0, rr_duration_ms = 5, rr_stdout = ''active'', rr_stderr = [],
        rr_truncated = False \<rparr>) \<rparr>"

definition sample_executor :: Executor where
  "sample_executor =
    executor_new (verifying_key sample_crypto sample_key) \<lparr> trust_keys = [verifying_key sample_crypto sample_key] \<rparr>
      \<lparr> pe_allowlist = \<lparr> profiles = [\<lparr> pa_name = ''default'', pa_mode = ReadOnly, allowed_exec = [''unit-status''] \<rparr>] \<rparr> \<rparr>
      ''/b'' exec_limits_default None"

definition sample_world :: World where
  "sample_world = \<lparr> w_cgroups = \<lparr> cg_dirs = {}, cg_files = Map.empty \<rparr>, w_log = [] \<rparr>"

lemma sample_authenticate: "authenticate (sample_env mf) sample_executor body = Inr sample_request"
  by (simp add: authenticate_def from_frame_body_def cbor_from_slice_def envelope_open_def sample_env_def
      const_codec_def sample_envelope_def sample_executor_def executor_new_def sample_crypto_def to_array_def)

lemma sample_name: "safe_exec_name ''unit-status''"
  by (simp add: safe_exec_name_def contains.simps starts_with_def is_ascii_alphanumeric_def is_ascii_digit_def
      is_ascii_lowercase_def is_ascii_uppercase_def)

lemma sample_resolve:
  assumes "payload_bound sample_crypto mf" and "x_trust ex = x_trust sample_executor" "x_bundle_dir ex = ''/b''"
  shows "resolve_bundle (sample_env mf) ex sample_request = Inr \<lparr> vb_manifest = mf \<rparr>"
proof -
  let ?sig = "sig_bytes (sign sample_crypto sample_key (as_bytes ''[meta]''))"
  have "parse_signature (bundle_hex_encode ?sig) = Inr (Signature ?sig)"
    using parse_signature_encode [of "Signature ?sig"] by (simp add: sample_crypto_def)
  moreover have "from_utf8 (as_bytes ''[meta]'') = Some ''[meta]''"
    by (simp add: from_utf8_def utf8_valid_ascii as_bytes_def str_of_bytes_def)
  moreover have "verify_strict sample_crypto (verifying_key sample_crypto sample_key) (as_bytes ''[meta]'') (Signature ?sig)"
    by (simp add: sample_crypto_def)
  ultimately have "verify_bytes sample_crypto (\<lambda>_. Inr mf) (as_bytes ''[meta]'') (bundle_hex_encode ?sig)
      (x_trust sample_executor) = Inr \<lparr> vb_manifest = mf \<rparr>"
    using assms(1)
    by (simp add: verify_bytes_ok manifest_parse_def sample_executor_def executor_new_def)
  then show ?thesis
    using assms(2,3) sample_name hex_text_utf8 [of ?sig]
    by (simp add: resolve_bundle_def sample_request_def bundle_load_def sample_env_def path_join_def
        starts_with_def sample_files_def read_to_string_def bundle_hex_encode_def)
qed

lemma sample_payload_bound:
  "payload mf = payload sample_manifest \<Longrightarrow> payload_bound sample_crypto mf"
  by (simp add: payload_bound_def sample_manifest_def sample_crypto_def hex_encode_defs)

lemma sample_command_free: "check_command literal_lib ''true'' = None"
proof -
  have "normalize_command ''true'' = ''true''"
    by (simp add: normalize_command_def split_whitespace_plain plain_char_def)
  moreover have "\<forall>r \<in> set RULES. \<not> rule_denies_command literal_regex_hit r ''true''"
    by (simp add: RULES_def rule_denies_command_def literal_regex_hit_def re_def)
  moreover have "is_ok (build_from literal_lib rules)" for rules
  proof -
    have "is_ok (push_glob literal_lib r p b)" for r p and b :: "string Builder"
      by (simp add: push_glob_def literal_lib_def split: PathScope.splits)
    then have "is_ok (push_rule literal_lib r b)" for r and b :: "string Builder"
      unfolding push_rule_def by (intro fold_res_ok)
    then have "is_ok (fold_res (push_rule literal_lib) rules empty_builder)"
      by (intro fold_res_ok)
    then obtain b where "fold_res (push_rule literal_lib) rules empty_builder = Inr b"
      by (auto simp: is_ok_iff)
    then show ?thesis by (simp add: build_from_def) (simp add: literal_lib_def)
  qed
  ultimately show ?thesis
    by (simp add: check_command_None [OF literal_lib_ok] build_def)
qed

lemma sample_policy:
  assumes "payload mf = payload sample_manifest" and "sandbox mf = sandbox sample_manifest"
    and "x_policy ex = x_policy sample_executor"
  shows "handler_policy_gate (sample_env mf) ex sample_request \<lparr> vb_manifest = mf \<rparr> = Inr ()"
  unfolding policy_gate_ok
  using assms sample_command_free
  by (simp add: policy_request_def request_denied_def sample_manifest_def sample_env_def engine_lists_def
      sample_executor_def executor_new_def sample_request_def allowlist_is_allowed_iff profile_def)

lemma sample_args:
  assumes "args mf = args sample_manifest"
  shows "validate_args sample_regex mf (rq_args sample_request) = Inr ()"
  using assms
  by (simp add: validate_args_def sample_manifest_def sample_request_def contains_key_def check_value_def
      sample_regex_def is_ascii_alphanumeric_def is_ascii_digit_def is_ascii_lowercase_def is_ascii_uppercase_def)

lemma sample_replay: "anti_replay sample_executor sample_request
    = (sample_executor\<lparr> x_replay := replay_commit replay_new (SessionId (replicate 16 1)) 1 (replicate 16 3) \<rparr>, Inr ())"
  by (simp add: anti_replay_def admit_def sample_executor_def executor_new_def replay_new_def sample_request_def)

lemma sample_rate: "snd (try_admit (limiter_new rate_limits_default) now c) = Inr ()"
  by (simp add: try_admit_guarded rate_window.guarded_def Let_def limiter_new_def rate_limits_default_def
      window_new_def window_is_full_def window_prune_def)

lemma sample_sandboxed:
  obtains pl where "sandbox_gate (sample_env sample_manifest) sample_request \<lparr> vb_manifest = sample_manifest \<rparr> = Inr pl"
    "\<And>w. snd (cgroup_gate (sample_env sample_manifest) w sample_request pl) = Inr None"
proof -
  obtain pl where "sandbox_gate (sample_env sample_manifest) sample_request \<lparr> vb_manifest = sample_manifest \<rparr> = Inr pl"
      "pl_cpu_max pl = None" "pl_memory_max pl = None"
    by (simp add: sandbox_gate_def plan_def sandbox_policy_def sample_manifest_def sample_env_def seccomp_compile_def
        rules_for_def allowlist_for_def socket_rules_def family_rule_def sample_seccomp_def
        capability_resolve_def parse_opt_def)
  then show thesis using that by (simp add: cgroup_gate_none)
qed

lemma sample_completes:
  "\<not> is_rejected (snd (handle (sample_env sample_manifest) 0 sample_executor sample_world []))"
proof -
  let ?E = "sample_env sample_manifest"
  let ?ex = "sample_executor\<lparr> x_replay := replay_commit replay_new (SessionId (replicate 16 1)) 1 (replicate 16 3) \<rparr>"
  let ?vb = "\<lparr> vb_manifest = sample_manifest \<rparr>"
  have r: "resolve_bundle ?E ?ex sample_request = Inr ?vb"
    by (rule sample_resolve) (simp_all add: sample_payload_bound, simp add: sample_executor_def executor_new_def)
  have a: "check_args_and_mutation ?E ?ex sample_request ?vb = Inr ()"
    using sample_args [of sample_manifest]
    by (simp add: check_args_and_mutation_def sample_env_def) (simp add: sample_manifest_def)
  have p: "handler_policy_gate ?E ?ex sample_request ?vb = Inr ()" by (rule sample_policy) simp_all
  have "x_rate ?ex = limiter_new rate_limits_default" by (simp add: sample_executor_def executor_new_def)
  then have q: "snd (rate_gate ?ex 0 sample_request ?vb) = Inr ()"
    using sample_rate by (simp add: rate_gate_ok)
  have s: "snapshot_gate e w sample_request ?vb = (w, Inr None)" for e w
    by (simp add: snapshot_gate_def sample_manifest_def)
  obtain pl where pl: "sandbox_gate ?E sample_request ?vb = Inr pl" "\<And>w. snd (cgroup_gate ?E w sample_request pl) = Inr None"
    by (rule sample_sandboxed) blast
  show ?thesis
    using r a p q s pl
    by (simp add: handle_def dispatch_def sample_authenticate sample_replay split_beta Let_def execute_completed)
qed

text \<open>A request that the gates have cleared: the bundle of its name verifies, its arguments fit the schema, and policy
  and ceiling permit it.\<close>

definition cleared :: "('g, 's, 'r, 'c, 'u, 'f, 'b) ExecEnv \<Rightarrow> Executor \<Rightarrow> ExecRequest \<Rightarrow> VerifiedBundle \<Rightarrow> bool" where
  "cleared E ex request vb \<longleftrightarrow>
    safe_exec_name (rq_exec_name request)
    \<and> (\<exists>bytes. e_read E (path_join (x_bundle_dir ex) (rq_exec_name request @ ''.exec'')) = Some bytes
        \<and> authentic (e_crypto E) (x_trust ex) bytes
        \<and> manifest_parse (e_toml E) bytes = Inr (vb_manifest vb) \<and> payload_bound (e_crypto E) (vb_manifest vb))
    \<and> validate_args (e_regex E) (vb_manifest vb) (rq_args request) = Inr ()
    \<and> (m_read_only (meta (vb_manifest vb)) \<or> allows_mutation (x_mode_ceiling ex))
    \<and> \<not> request_denied (e_match E) (policy_request request vb)
    \<and> engine_lists (x_policy ex) (policy_request request vb)"

lemma gates_cleared:
  assumes "resolve_bundle E ex request = Inr vb" and "check_args_and_mutation E ex request vb = Inr ()"
    and "handler_policy_gate E ex request vb = Inr ()"
  shows "cleared E ex request vb"
proof -
  have name: "safe_exec_name (rq_exec_name request)"
    and load: "\<exists>sp. bundle_load (e_crypto E) (e_toml E) (e_read E)
      (path_join (x_bundle_dir ex) (rq_exec_name request @ ''.exec'')) sp (x_trust ex) = Inr vb"
    using assms(1) by (auto simp: resolve_bundle_def Let_def split: if_splits)
  moreover have "validate_args (e_regex E) (vb_manifest vb) (rq_args request) = Inr ()
      \<and> (m_read_only (meta (vb_manifest vb)) \<or> allows_mutation (x_mode_ceiling ex))"
    using assms(2) by (auto simp: check_args_and_mutation_def bind_res_eq_Inr split: if_splits)
  ultimately show ?thesis
    using assms(3) bundle_load_ok unfolding cleared_def policy_gate_ok by blast
qed

definition loads :: "('g, 's, 'r, 'c, 'u, 'f, 'b) ExecEnv \<Rightarrow> Executor \<Rightarrow> ExecRequest \<Rightarrow> VerifiedBundle \<Rightarrow> bool" where
  "loads E ex request vb \<longleftrightarrow>
    bundle_load (e_crypto E) (e_toml E) (e_read E) (path_join (x_bundle_dir ex) (rq_exec_name request @ ''.exec''))
      (path_join (x_bundle_dir ex) (rq_exec_name request @ ''.exec.sig'')) (x_trust ex) = Inr vb"

lemma bundle_gates_ok:
  "resolve_bundle E ex request = Inr vb \<and> check_args_and_mutation E ex request vb = Inr () \<and> handler_policy_gate E ex request vb = Inr ()
    \<longleftrightarrow> loads E ex request vb \<and> cleared E ex request vb"
  (is "?gates \<longleftrightarrow> ?load \<and> _")
proof
  assume g: ?gates
  then have "cleared E ex request vb" using gates_cleared by blast
  moreover have ?load using g by (auto simp: loads_def resolve_bundle_def Let_def split: if_splits)
  ultimately show "?load \<and> cleared E ex request vb" by blast
next
  assume "?load \<and> cleared E ex request vb"
  then show ?gates by (auto simp: cleared_def loads_def resolve_bundle_def check_args_and_mutation_def policy_gate_ok)
qed

lemma cleared_config:
  assumes "x_trust a = x_trust b" and "x_policy a = x_policy b" and "x_bundle_dir a = x_bundle_dir b" and "x_mode_ceiling a = x_mode_ceiling b"
  shows "cleared E a request vb \<longleftrightarrow> cleared E b request vb" "loads E a request vb \<longleftrightarrow> loads E b request vb"
  by (simp_all add: cleared_def loads_def assms)

text \<open>What is not rejected was cleared, and adds one run to the log.\<close>

lemma ran_cleared:
  assumes "handle E now ex w body = ((ex', w'), resp)" and "\<not> is_rejected resp"
  obtains request vb where "authenticate E ex body = Inr request" "loads E ex request vb" "cleared E ex request vb"
    "filter is_run (w_log w') = filter is_run (w_log w) @ [RanAction (p_inline (payload (vb_manifest vb))) (rq_args request)]"
proof -
  from assms have "dispatch E now ex w body = ((ex', w'), Inr resp)"
    by (cases rule: handle_cases [OF assms(1)]) auto
  then show thesis
  proof (rule dispatch_InrE, goal_cases)
    case (1 request vb snap pl cgroup w1 w2)
    have "loads E ex request vb" "cleared E ex request vb"
      using bundle_gates_ok [of E "fst (anti_replay ex request)" request vb] cleared_config [of "fst (anti_replay ex request)" ex E request vb] 1(3-5)
      by (simp_all add: anti_replay_ex)
    moreover have "filter is_run (w_log w') = filter is_run (w_log w) @ [RanAction (p_inline (payload (vb_manifest vb))) (rq_args request)]"
      using 1(7,10,14) by (simp add: execute_log cgroup_gate_log snapshot_gate_runs is_run_def)
    ultimately show thesis by (rule that [OF 1(1)])
  qed
qed

text \<open>What it takes to run an authentic request: it is fresh, its bundle loads, the rate limiter has room, a bundle that
  mutates persistent state can be snapshotted, and the sandbox and its control group can be set up.\<close>

definition runnable ::
  "('g, 's, 'r, 'c, 'u, 'f, 'b) ExecEnv \<Rightarrow> instant \<Rightarrow> Executor \<Rightarrow> World \<Rightarrow> ExecRequest \<Rightarrow> VerifiedBundle \<Rightarrow> bool"
where
  "runnable E now ex w request vb \<longleftrightarrow>
    snd (admit (x_replay ex) (rq_session_id request) (rq_seq request) (rq_nonce request)) = Inr ()
    \<and> loads E ex request vb \<and> cleared E ex request vb
    \<and> snd (try_admit (x_rate ex) now (action_class vb)) = Inr ()
    \<and> (m_mutates_persistent_state (meta (vb_manifest vb)) \<longrightarrow>
        (\<exists>target snapshot i. first (ss_allowed_paths_rw (sandbox (vb_manifest vb))) = Some target
          \<and> x_snapshotter ex = Some snapshot \<and> snapshot target = Inr i))
    \<and> (\<exists>pl. plan (e_seccomp E) (e_libc E) (e_caps E) (e_arch E) (sandbox_policy (sandbox (vb_manifest vb))) = Inr pl
        \<and> is_ok (snd (create_for_self (e_kernel E) (w_cgroups w) (e_proc_self E)
            (''archangel-'' @ id_display (action_bytes (rq_action_id request))) (pl_cpu_max pl) (pl_memory_max pl))))"

lemma machine_gates_ok:
  "is_ok (snd (snapshot_gate ex w request vb)) \<longleftrightarrow>
    (m_mutates_persistent_state (meta (vb_manifest vb)) \<longrightarrow>
      (\<exists>target snapshot i. first (ss_allowed_paths_rw (sandbox (vb_manifest vb))) = Some target
        \<and> x_snapshotter ex = Some snapshot \<and> snapshot target = Inr i))"
  "sandbox_gate E request vb = Inr pl \<longleftrightarrow>
    plan (e_seccomp E) (e_libc E) (e_caps E) (e_arch E) (sandbox_policy (sandbox (vb_manifest vb))) = Inr pl"
  "is_ok (snd (cgroup_gate E w request pl)) \<longleftrightarrow>
    is_ok (snd (create_for_self (e_kernel E) (w_cgroups w) (e_proc_self E)
      (''archangel-'' @ id_display (action_bytes (rq_action_id request))) (pl_cpu_max pl) (pl_memory_max pl)))"
  by (auto simp: snapshot_gate_def sandbox_gate_def cgroup_gate_def is_ok_iff Let_def split_beta split: option.splits sum.splits)

text \<open>The executor runs exactly the authentic requests that are runnable, and then it runs the script of their bundle.\<close>

lemma runs_iff_runnable:
  assumes auth: "authenticate E ex body = Inr request" and h: "handle E now ex w body = ((ex', w'), resp)"
  shows "\<not> is_rejected resp \<longleftrightarrow> (\<exists>vb. runnable E now ex w request vb)"
proof -
  let ?ex1 = "fst (anti_replay ex request)"
  have same: "cleared E ?ex1 request vb \<longleftrightarrow> cleared E ex request vb" "loads E ?ex1 request vb \<longleftrightarrow> loads E ex request vb" for vb
    by (rule cleared_config; simp add: anti_replay_ex)+
  have "runnable E now ex w request vb \<longleftrightarrow>
      snd (anti_replay ex request) = Inr ()
      \<and> (resolve_bundle E ?ex1 request = Inr vb \<and> check_args_and_mutation E ?ex1 request vb = Inr () \<and> handler_policy_gate E ?ex1 request vb = Inr ())
      \<and> snd (rate_gate ?ex1 now request vb) = Inr ()
      \<and> is_ok (snd (snapshot_gate (fst (rate_gate ?ex1 now request vb)) w request vb))
      \<and> (\<exists>pl. sandbox_gate E request vb = Inr pl
          \<and> is_ok (snd (cgroup_gate E (fst (snapshot_gate (fst (rate_gate ?ex1 now request vb)) w request vb)) request pl)))" for vb
    unfolding bundle_gates_ok same machine_gates_ok rate_gate_ok anti_replay_ok runnable_def
    by (simp add: rate_gate_ex anti_replay_ex snapshot_gate_frame)
  note run = this
  show ?thesis
  proof
    assume "\<not> is_rejected resp"
    then have "dispatch E now ex w body = ((ex', w'), Inr resp)" using handle_cases [OF h] by metis
    then show "\<exists>vb. runnable E now ex w request vb"
      by (rule dispatch_InrE) (use auth in \<open>auto simp: run is_ok_iff\<close>)
  next
    assume "\<exists>vb. runnable E now ex w request vb"
    then show "\<not> is_rejected resp"
      using h auth by (auto simp: run is_ok_iff handle_def dispatch_def split_beta Let_def execute_completed split: sum.splits)
  qed
qed

lemma runnable_runs:
  assumes auth: "authenticate E ex body = Inr request" and h: "handle E now ex w body = ((ex', w'), resp)"
    and run: "runnable E now ex w request vb"
  shows "filter is_run (w_log w') = filter is_run (w_log w) @ [RanAction (p_inline (payload (vb_manifest vb))) (rq_args request)]"
proof -
  have "\<not> is_rejected resp" using runs_iff_runnable [OF auth h] run by blast
  then obtain request' vb' where "authenticate E ex body = Inr request'" "loads E ex request' vb'"
      "filter is_run (w_log w') = filter is_run (w_log w) @ [RanAction (p_inline (payload (vb_manifest vb'))) (rq_args request')]"
    by (rule ran_cleared [OF h])
  then show ?thesis using auth run by (simp add: runnable_def loads_def)
qed

section \<open>Properties\<close>

text \<open>C4: whatever runs passed every gate.  If a frame is answered by anything but a rejection, its
  envelope had the protocol version and a signature of the session key over the exact request
  bytes; the request was fresh for its session; its name is a safe path component; the bundle file
  of that name was signed by a trusted operator, and the script that ran is the payload whose
  digest it declares; the arguments satisfy the bundle's schema; the bundle is read-only or the
  executor's own ceiling permits mutation; no denylist rule hits its payload or paths and the
  allowlist names it; the rate limiter admitted it; a bundle that mutates persistent state was snapshotted first; its
  sandbox profile has a plan, and a control group with the limits of the plan was created, or none was declared.  The
  runner was called on that script and those arguments, under the executor's own limits, with that plan and in that
  group; what it returned is the answer, beside the snapshot's name; and the group is dropped afterwards.\<close>

theorem executor_runs_only_vetted:
  assumes "handle E now ex w body = ((ex', w'), resp)" and "\<not> is_rejected resp"
  shows "\<exists>env request vb bytes pl fs cgroup snap.
    from_reader (e_envelope_codec E) body = Inr env \<and> se_version env = PROTOCOL_VERSION
    \<and> verify_strict (e_crypto E) (x_session_key ex) (se_request env) (Signature (se_signature env))
    \<and> from_reader (e_request_codec E) (se_request env) = Inr request
    \<and> snd (admit (x_replay ex) (rq_session_id request) (rq_seq request) (rq_nonce request)) = Inr ()
    \<and> safe_exec_name (rq_exec_name request)
    \<and> e_read E (path_join (x_bundle_dir ex) (rq_exec_name request @ ''.exec'')) = Some bytes
    \<and> authentic (e_crypto E) (x_trust ex) bytes
    \<and> manifest_parse (e_toml E) bytes = Inr (vb_manifest vb) \<and> payload_bound (e_crypto E) (vb_manifest vb)
    \<and> validate_args (e_regex E) (vb_manifest vb) (rq_args request) = Inr ()
    \<and> (m_read_only (meta (vb_manifest vb)) \<or> allows_mutation (x_mode_ceiling ex))
    \<and> \<not> request_denied (e_match E) (policy_request request vb)
    \<and> engine_lists (x_policy ex) (policy_request request vb)
    \<and> snd (try_admit (x_rate ex) now (action_class vb)) = Inr ()
    \<and> plan (e_seccomp E) (e_libc E) (e_caps E) (e_arch E) (sandbox_policy (sandbox (vb_manifest vb))) = Inr pl
    \<and> create_for_self (e_kernel E) (w_cgroups w) (e_proc_self E) (''archangel-'' @ id_display (action_bytes (rq_action_id request)))
        (pl_cpu_max pl) (pl_memory_max pl) = (fs, Inr cgroup)
    \<and> (snap \<noteq> None \<longleftrightarrow> m_mutates_persistent_state (meta (vb_manifest vb)))
    \<and> resp = (let r = e_runner E \<lparr> rc_script = p_inline (payload (vb_manifest vb)), rc_args = rq_args request,
          rc_timeout = el_timeout (x_limits ex), rc_max_output = el_max_output (x_limits ex), rc_sandbox = Some pl, rc_cgroup = cgroup \<rparr>
        in \<lparr> rs_action_id = rq_action_id request, rs_outcome = Completed (rr_exit_code r) (rr_duration_ms r) (rr_stdout r) (rr_stderr r)
          (rr_truncated r) snap \<rparr>)
    \<and> w_cgroups w' = (case cgroup of None \<Rightarrow> fs | Some cg \<Rightarrow> cgroup_drop (e_kernel E) fs cg)
    \<and> w_log w' = w_log w
        @ (if m_mutates_persistent_state (meta (vb_manifest vb))
           then [TookSnapshot (hd (ss_allowed_paths_rw (sandbox (vb_manifest vb))))] else [])
        @ [RanAction (p_inline (payload (vb_manifest vb))) (rq_args request)]"
proof -
  from assms have "dispatch E now ex w body = ((ex', w'), Inr resp)"
    by (cases rule: handle_cases [OF assms(1)]) auto
  then show ?thesis
  proof (rule dispatch_InrE)
    fix request vb snap pl cgroup w1 w2
    let ?ex1 = "fst (anti_replay ex request)"
    assume g: "authenticate E ex body = Inr request" "snd (anti_replay ex request) = Inr ()"
      "resolve_bundle E ?ex1 request = Inr vb" "check_args_and_mutation E ?ex1 request vb = Inr ()"
      "handler_policy_gate E ?ex1 request vb = Inr ()" "snd (rate_gate ?ex1 now request vb) = Inr ()"
      and w1: "w1 = fst (snapshot_gate (fst (rate_gate ?ex1 now request vb)) w request vb)"
      and snap: "snd (snapshot_gate (fst (rate_gate ?ex1 now request vb)) w request vb) = Inr snap"
      and pl: "sandbox_gate E request vb = Inr pl"
      and w2: "w2 = fst (cgroup_gate E w1 request pl)" and cg: "snd (cgroup_gate E w1 request pl) = Inr cgroup"
      and resp: "resp = snd (execute E w2 (x_limits ex) request vb (rq_action_id request) snap pl cgroup)"
      and w': "snd (ex', w') = drop_cgroup (e_kernel E)
        (fst (execute E w2 (x_limits ex) request vb (rq_action_id request) snap pl cgroup)) cgroup"
    obtain env where env: "from_reader (e_envelope_codec E) body = Inr env" "se_version env = PROTOCOL_VERSION"
      "verify_strict (e_crypto E) (x_session_key ex) (se_request env) (Signature (se_signature env))"
      "from_reader (e_request_codec E) (se_request env) = Inr request"
      using authenticate_ok [OF g(1)] by metis
    have clear: "cleared E ex request vb"
      using gates_cleared [OF g(3-5)] cleared_config(1) [of ?ex1 ex E request vb] by (simp add: anti_replay_ex)
    have rate: "snd (try_admit (x_rate ex) now (action_class vb)) = Inr ()"
      using g(6) by (simp add: rate_gate_ok anti_replay_ex)
    have "snapshot_gate (fst (rate_gate ?ex1 now request vb)) w request vb = (w1, Inr snap)"
      using w1 snap by (simp add: prod_eq_iff)
    note snapped = snapshot_gate_ok [OF this]
    then have log: "w_log w' = w_log w
        @ (if m_mutates_persistent_state (meta (vb_manifest vb))
           then [TookSnapshot (hd (ss_allowed_paths_rw (sandbox (vb_manifest vb))))] else [])
        @ [RanAction (p_inline (payload (vb_manifest vb))) (rq_args request)]"
      using w' w2 by (auto simp: execute_log cgroup_gate_log)
    have "w_cgroups w1 = w_cgroups w" unfolding w1 by (rule snapshot_gate_frame)
    then have "create_for_self (e_kernel E) (w_cgroups w) (e_proc_self E) (''archangel-'' @ id_display (action_bytes (rq_action_id request)))
        (pl_cpu_max pl) (pl_memory_max pl) = (w_cgroups w2, Inr cgroup)"
      using cg w2 by (simp add: cgroup_gate_def Let_def split_beta map_err_eq_Inr prod_eq_iff)
    moreover have "w_cgroups w' = (case cgroup of None \<Rightarrow> w_cgroups w2 | Some c \<Rightarrow> cgroup_drop (e_kernel E) (w_cgroups w2) c)"
      using w' by (simp add: drop_cgroup_def execute_def Let_def split: option.splits)
    moreover have "snap \<noteq> None \<longleftrightarrow> m_mutates_persistent_state (meta (vb_manifest vb))" using snapped by blast
    moreover have "plan (e_seccomp E) (e_libc E) (e_caps E) (e_arch E) (sandbox_policy (sandbox (vb_manifest vb))) = Inr pl"
      using pl by (simp add: sandbox_gate_def)
    ultimately show ?thesis
      using env clear rate log g(2) resp unfolding anti_replay_ok cleared_def execute_def Let_def snd_conv by blast
  qed
qed

theorem executor_runs_only_vetted_witness:
  "\<exists>resp ex' w'. handle (sample_env sample_manifest) 0 sample_executor sample_world [] = ((ex', w'), resp)
    \<and> \<not> is_rejected resp \<and> last (w_log w') = RanAction ''true'' [(''unit'', ''sshd'')]"
proof -
  obtain ex' w' resp where h: "handle (sample_env sample_manifest) 0 sample_executor sample_world [] = ((ex', w'), resp)"
    by (metis surj_pair)
  then have n: "\<not> is_rejected resp" using sample_completes by simp
  from executor_runs_only_vetted [OF h n] have "\<exists>(env :: SignedEnvelope) request (vb :: VerifiedBundle) bytes.
      from_reader (e_request_codec (sample_env sample_manifest)) (se_request env) = Inr request
      \<and> manifest_parse (e_toml (sample_env sample_manifest)) bytes = Inr (vb_manifest vb)
      \<and> last (w_log w') = RanAction (p_inline (payload (vb_manifest vb))) (rq_args request)"
    by (elim exE conjE) (intro exI conjI, assumption, assumption, simp)
  then obtain env :: SignedEnvelope and request bytes and vb :: VerifiedBundle
    where rq: "from_reader (e_request_codec (sample_env sample_manifest)) (se_request env) = Inr request"
      and mf: "manifest_parse (e_toml (sample_env sample_manifest)) bytes = Inr (vb_manifest vb)"
      and log: "last (w_log w') = RanAction (p_inline (payload (vb_manifest vb))) (rq_args request)"
    by blast
  have "vb_manifest vb = sample_manifest" "request = sample_request"
    using rq mf by (auto simp: manifest_parse_def bind_res_eq_Inr sample_env_def const_codec_def)
  then have "last (w_log w') = RanAction ''true'' [(''unit'', ''sshd'')]"
    using log by (simp add: sample_manifest_def sample_request_def)
  with h n show ?thesis by blast
qed

text \<open>a rejection runs nothing.  Whatever the frame, a rejected request adds no run to the log, and
  a request that is not rejected adds exactly one; the configuration of the executor never changes.\<close>

theorem executor_rejection_runs_nothing:
  assumes "handle E now ex w body = ((ex', w'), resp)"
  shows "length (filter is_run (w_log w')) = length (filter is_run (w_log w)) + (if is_rejected resp then 0 else 1)
    \<and> same_config ex' ex"
proof -
  have cfg: "same_config ex' ex" using handle_config [of E now ex w body] assms by simp
  show ?thesis
  proof (cases rule: handle_cases [OF assms])
    case 1
    then show ?thesis using dispatch_Inl [OF 1(1)] cfg by simp
  next
    case 2
    from 2(1) show ?thesis
      by (rule dispatch_InrE)
        (use cfg 2(2) in \<open>simp add: execute_log cgroup_gate_log snapshot_gate_runs is_run_def\<close>)
  qed
qed

theorem executor_rejection_runs_nothing_witness:
  "length (filter is_run (w_log (snd (fst (handle (sample_env sample_manifest) 0 sample_executor sample_world []))))) = 1"
proof -
  obtain ex' w' resp where h: "handle (sample_env sample_manifest) 0 sample_executor sample_world [] = ((ex', w'), resp)"
    by (metis surj_pair)
  then have n: "\<not> is_rejected resp" using sample_completes by simp
  from executor_rejection_runs_nothing [OF h] n h show ?thesis by (simp add: sample_world_def)
qed

text \<open>replay and rate protection hold end to end.  For any sequence of frames at non-decreasing
  instants, among the requests that ran the sequence numbers of one session strictly increase, no
  request ran twice, and no minute saw more runs than the limiter's total ceiling.\<close>

theorem executor_no_replay_bounded_rate:
  assumes "x_replay ex = replay_new" and "x_rate ex = limiter_new limits" and "sorted (map fst xs)"
    and msgs_def: "msgs = map (\<lambda>(_, body, _). msg_of E ex body) (ran (handle_all E ex w xs))"
  shows "sorted_wrt (<) (map (fst \<circ> snd) (filter (\<lambda>m. fst m = sid) msgs))
    \<and> distinct msgs
    \<and> in_span t MINUTE (map fst (ran (handle_all E ex w xs))) \<le> unat (actions_per_minute limits)"
proof -
  have sub: "subseq msgs (admitted exec_step (x_replay ex) (authentic_msgs E ex xs))"
    unfolding msgs_def by (rule ran_subseq_admitted)
  have "sorted_wrt (<) (map (fst \<circ> snd) (filter (\<lambda>m. fst m = sid) msgs))"
    by (rule sorted_wrt_subseq [OF subseq_map [OF subseq_filter [OF sub]] exec_replay.admitted_increasing])
  moreover have "distinct msgs"
    by (rule distinct_subseq [OF sub exec_replay.admitted_distinct])
  moreover have "in_span t MINUTE (map fst (ran (handle_all E ex w xs))) \<le> unat (actions_per_minute limits)"
  proof -
    have "limiter_inv (x_rate ex) [] 0" "sorted (0 # map fst xs)"
      using assms limiter_inv_new by simp_all
    then obtain rl acts where inv: "limiter_inv rl acts (last (0 # map fst xs))"
      and lim: "limits_of rl = limits_of (x_rate ex)"
      and sub: "subseq (map fst (ran (handle_all E ex w xs))) (map fst acts)"
      using handle_all_rate [of ex "[]" 0 xs E w] by auto
    have conf: "horizon (total rl) = MINUTE" "w_max (total rl) = unat (actions_per_minute limits)"
      using lim assms(2) by (simp_all add: limits_of_def limiter_new_def window_new_def)
    have "in_span t (horizon (total rl)) (times (\<lambda>_. True) acts) \<le> w_max (total rl)"
      using inv by (auto simp: limiter_inv_def intro: window_inv_bound)
    moreover have "times (\<lambda>_. True) acts = map fst acts" by (simp add: times_def comp_def)
    ultimately show ?thesis using in_span_subseq [OF sub, of t MINUTE] conf by simp
  qed
  ultimately show ?thesis by blast
qed

theorem executor_no_replay_bounded_rate_witness:
  "let rs = ran (handle_all (sample_env sample_manifest) sample_executor sample_world [(0, []), (1, [])]) in
   length rs = 1 \<and> in_span 0 MINUTE (map fst rs) \<le> 20"
proof -
  let ?E = "sample_env sample_manifest"
  let ?rs = "ran (handle_all ?E sample_executor sample_world [(0, []), (1, [])])"
  let ?msgs = "map (\<lambda>(_, body, _). msg_of ?E sample_executor body) ?rs"
  have fresh: "x_replay sample_executor = replay_new" "x_rate sample_executor = limiter_new rate_limits_default"
    by (simp_all add: sample_executor_def executor_new_def)
  have all: "distinct ?msgs \<and> in_span 0 MINUTE (map fst ?rs) \<le> unat (actions_per_minute rate_limits_default)"
    using executor_no_replay_bounded_rate 
      [OF fresh _ refl, where xs = "[(0, []), (1, [])]" and E = ?E and w = sample_world and t = 0] by simp
  have "set ?msgs \<subseteq> {replay_msg sample_request}"
    by (auto simp: msg_of_def sample_authenticate)
  then have "length ?msgs \<le> 1"
    using all by (metis card_mono distinct_card finite.emptyI finite.insertI is_singletonI is_singleton_altdef)
  moreover have "?rs \<noteq> []"
    using sample_completes by (auto simp: ran_def split_beta)
  ultimately show ?thesis using all by (auto simp: rate_limits_default_def Suc_le_eq le_Suc_eq)
qed

text \<open>The comment at the rate gate says that only actions that would run consume budget.  A request
  refused by a later gate has consumed it: here a mutating bundle, allowed by the ceiling,
  without a snapshot backend.\<close>

definition mutating_manifest :: ExecManifest where
  "mutating_manifest =
    sample_manifest\<lparr> meta := (meta sample_manifest)\<lparr> m_read_only := False, m_mutates_persistent_state := True \<rparr> \<rparr>"

lemma rejected_action_consumes_budget:
  "let ex = set_mode_ceiling sample_executor Autonomous;
       ((ex', w'), resp) = handle (sample_env mutating_manifest) 0 ex sample_world [] in
   rs_outcome resp = Rejected SnapshotUnavailable NoRwPath
     \<and> hits (total (x_rate ex)) = [] \<and> hits (total (x_rate ex')) = [0]"
proof -
  let ?E = "sample_env mutating_manifest"
  let ?start = "set_mode_ceiling sample_executor Autonomous"
  let ?ex = "?start\<lparr> x_replay := replay_commit replay_new (SessionId (replicate 16 1)) 1 (replicate 16 3) \<rparr>"
  let ?vb = "\<lparr> vb_manifest = mutating_manifest \<rparr>"
  have auth: "authenticate ?E ?start [] = Inr sample_request"
    using sample_authenticate [of mutating_manifest "[]"] by (simp add: authenticate_def set_mode_ceiling_def)
  have replay: "anti_replay ?start sample_request = (?ex, Inr ())"
  proof -
    have "anti_replay (set_mode_ceiling e m) rq = (set_mode_ceiling (fst (anti_replay e rq)) m, snd (anti_replay e rq))"
      for e m rq by (simp add: anti_replay_def set_mode_ceiling_def split_beta)
    then show ?thesis using sample_replay by (simp add: set_mode_ceiling_def)
  qed
  have "payload_bound sample_crypto mutating_manifest"
    by (rule sample_payload_bound) (simp add: mutating_manifest_def)
  then have r: "resolve_bundle ?E ?ex sample_request = Inr ?vb"
    by (rule sample_resolve) (simp_all add: set_mode_ceiling_def sample_executor_def executor_new_def)
  have "validate_args sample_regex mutating_manifest (rq_args sample_request) = Inr ()"
    by (rule sample_args) (simp add: mutating_manifest_def)
  then have a: "check_args_and_mutation ?E ?ex sample_request ?vb = Inr ()"
    by (simp add: check_args_and_mutation_def sample_env_def set_mode_ceiling_def allows_mutation_def)
  have p: "handler_policy_gate ?E ?ex sample_request ?vb = Inr ()"
    by (rule sample_policy) (simp_all add: mutating_manifest_def set_mode_ceiling_def)
  have rate: "x_rate ?ex = limiter_new rate_limits_default" "x_rate ?start = limiter_new rate_limits_default"
    by (simp_all add: sample_executor_def executor_new_def set_mode_ceiling_def)
  then have q: "snd (rate_gate ?ex 0 sample_request ?vb) = Inr ()"
    using sample_rate by (simp add: rate_gate_ok)
  have hits: "hits (total (x_rate (fst (rate_gate ?ex 0 sample_request ?vb)))) = [0]"
    using rate(1) by (simp add: rate_gate_ex try_admit_guarded rate_window.guarded_def Let_def limiter_new_def
        rate_limits_default_def window_new_def window_is_full_def window_prune_def window_record_def)
  have s: "snapshot_gate e w sample_request ?vb
      = (w, Inl (rejected (rq_action_id sample_request) SnapshotUnavailable NoRwPath))" for e w
    by (simp add: snapshot_gate_def mutating_manifest_def sample_manifest_def first_def)
  show ?thesis
    using auth replay r a p q s hits rate(2)
    by (simp add: handle_def dispatch_def split_beta Let_def rejected_def limiter_new_def window_new_def)
qed

end
