(* ===== verification/Egress.thy ===== *)
theory Egress
  imports Rust_Strings "HOL-Library.Char_ord" "HOL-Library.List_Lexorder"
begin

text \<open>
  The crate \<open>archangel-egress\<close>: parsing of allowlist entries, the fail-closed decision, and the
  systemd drop-in.  IP addresses enter as their displayed text.
\<close>

datatype RuleProblem = RuleEmpty | RuleBadPort | RulePortZero | RuleBadHost

datatype EgressError = BadDefaultPolicy string | BadRule string RuleProblem

record EgressRule =
  er_host :: string
  er_port :: "u16 option"

record EgressPolicy =
  allow_all :: bool
  egress_rules :: "EgressRule list"

definition valid_host :: "string \<Rightarrow> bool" where
  "valid_host h \<longleftrightarrow>
    h \<noteq> [] \<and> length h \<le> 253
    \<and> list_all (\<lambda>b. is_ascii_alphanumeric b \<or> b = CHR ''.'' \<or> b = CHR ''-'') h"

text \<open>\<open>rsplit_once(':')\<close>: the parts before and after the last colon.\<close>

fun rsplit_once :: "char \<Rightarrow> string \<Rightarrow> (string \<times> string) option" where
  "rsplit_once c [] = None"
| "rsplit_once c (x # xs) =
    (case rsplit_once c xs of
       Some (a, b) \<Rightarrow> Some (x # a, b)
     | None \<Rightarrow> if x = c then Some ([], xs) else None)"

definition parse_u16 :: "string \<Rightarrow> u16 option" where
  "parse_u16 s = map_option of_nat (parse_unsigned 65535 s)"

definition parse_rule :: "string \<Rightarrow> (EgressError, EgressRule) result" where
  "parse_rule raw =
    (let entry = trim raw in
     if entry = [] then Inl (BadRule entry RuleEmpty)
     else case rsplit_once CHR '':'' entry of
       Some (host0, port_str) \<Rightarrow>
         bind_res (ok_or (BadRule entry RuleBadPort) (parse_u16 port_str)) (\<lambda>port.
         if port = 0 then Inl (BadRule entry RulePortZero)
         else
         let host = to_ascii_lowercase host0 in
         if \<not> valid_host host then Inl (BadRule entry RuleBadHost)
         else Inr \<lparr> er_host = host, er_port = Some port \<rparr>)
     | None \<Rightarrow>
         let host = to_ascii_lowercase entry in
         if \<not> valid_host host then Inl (BadRule entry RuleBadHost)
         else Inr \<lparr> er_host = host, er_port = None \<rparr>)"

definition egress_new :: "string \<Rightarrow> string list \<Rightarrow> (EgressError, EgressPolicy) result" where
  "egress_new default_policy allow =
    (let d = to_ascii_lowercase (trim default_policy) in
     bind_res (if d = ''deny'' then Inr False else if d = ''allow'' then Inr True
               else Inl (BadDefaultPolicy d)) (\<lambda>all.
     bind_res (map_res parse_rule allow) (\<lambda>rules.
     Inr \<lparr> allow_all = all, egress_rules = rules \<rparr>)))"

definition deny_all :: EgressPolicy where
  "deny_all = \<lparr> allow_all = False, egress_rules = [] \<rparr>"

definition egress_is_allowed :: "EgressPolicy \<Rightarrow> string \<Rightarrow> u16 \<Rightarrow> bool" where
  "egress_is_allowed p host0 port =
    (if allow_all p then True
     else
       let host = to_ascii_lowercase (trim host0) in
       list_ex (\<lambda>r. er_host r = host \<and> (case er_port r of None \<Rightarrow> True | Some q \<Rightarrow> q = port)) (egress_rules p))"

definition hosts :: "EgressPolicy \<Rightarrow> string list" where
  "hosts p = remdups_adj (sort (map er_host (egress_rules p)))"

definition render_systemd_dropin :: "string list \<Rightarrow> string" where
  "render_systemd_dropin allowed_ips =
    (let allow = fold (\<lambda>ip s. s @ '' '' @ ip) allowed_ips ''localhost''; nl = [CHR 0x0A] in
     ''# Generated by '' @ [CHR 0x60] @ ''archangelctl egress-sync'' @ [CHR 0x60] @ '' '' @ [CHR 0xE2, CHR 0x80, CHR 0x94]
       @ '' do not edit by hand.'' @ nl
     @ ''# Kernel-enforced egress allowlist (threat-model #17) for archangeld.'' @ nl
     @ ''# Re-run egress-sync after an allowlisted host\\'s IPs change (CDN/DNS'' @ nl
     @ ''# rotation), or the daemon will lose access to it.'' @ nl
     @ ''[Service]'' @ nl
     @ ''IPAddressDeny=any'' @ nl
     @ ''IPAddressAllow='' @ allow @ nl)"

section \<open>Lemmas\<close>

lemma rsplit_once_Some:
  "rsplit_once c s = Some (a, b) \<Longrightarrow> s = a @ c # b \<and> c \<notin> set b"
proof (induction s arbitrary: a b)
  case (Cons x xs)
  have none: "rsplit_once c ys = None \<Longrightarrow> c \<notin> set ys" for ys
    by (induction ys) (auto split: option.splits if_splits)
  from Cons show ?case by (auto split: option.splits if_splits dest: none)
qed simp

text \<open>The rule a list entry stands for: a lower-case host of legal characters and an optional
  non-zero port.\<close>

lemma parse_rule_ok:
  assumes "parse_rule raw = Inr r"
  shows "valid_host (er_host r) \<and> to_ascii_lowercase (er_host r) = er_host r \<and> er_port r \<noteq> Some 0"
  using assms
  by (auto simp: parse_rule_def Let_def bind_res_eq_Inr split: if_splits option.splits)

lemma egress_new_ok:
  "egress_new d allow = Inr p \<longleftrightarrow>
    to_ascii_lowercase (trim d) \<in> {''deny'', ''allow''}
    \<and> allow_all p = (to_ascii_lowercase (trim d) = ''allow'')
    \<and> map_res parse_rule allow = Inr (egress_rules p)"
  by (cases p) (auto simp: egress_new_def Let_def bind_res_eq_Inr split: if_splits)

lemma map_res_ex: "map_res f xs = Inr ys \<Longrightarrow> (\<exists>y \<in> set ys. P y) \<longleftrightarrow> (\<exists>x \<in> set xs. \<exists>y. f x = Inr y \<and> P y)"
  by (induction xs arbitrary: ys) (auto simp: bind_res_eq_Inr)

lemma hosts_set: "set (hosts p) = er_host ` set (egress_rules p)"
  by (simp add: hosts_def)

lemma distinct_remdups_adj_sorted: "sorted xs \<Longrightarrow> distinct (remdups_adj xs)"
proof (induction xs rule: remdups_adj.induct)
  case (3 x y xs)
  then show ?case by (auto dest: order.antisym)
qed simp_all

lemma hosts_sorted: "sorted (hosts p) \<and> distinct (hosts p)"
  by (simp add: hosts_def distinct_remdups_adj_sorted sorted_remdups_adj)

section \<open>Properties\<close>

text \<open>Egress is fail-closed.  A compiled policy permits a destination exactly when its default is
  \<open>allow\<close> or one of the entries, each of which parsed, names that host, compared without case and
  exactly, with no port or with that port.\<close>

theorem egress_allowed_iff:
  assumes "egress_new default_policy allow = Inr p"
  shows "egress_is_allowed p host port \<longleftrightarrow>
    to_ascii_lowercase (trim default_policy) = ''allow''
    \<or> (\<exists>entry \<in> set allow. \<exists>r. parse_rule entry = Inr r \<and> er_host r = to_ascii_lowercase (trim host)
         \<and> er_port r \<in> {None, Some port})"
proof -
  have all: "allow_all p = (to_ascii_lowercase (trim default_policy) = ''allow'')"
    and rules: "map_res parse_rule allow = Inr (egress_rules p)"
    using assms by (auto simp: egress_new_ok)
  have "(case er_port r of None \<Rightarrow> True | Some q \<Rightarrow> q = port) \<longleftrightarrow> er_port r \<in> {None, Some port}" for r
    by (auto split: option.splits)
  then have "egress_is_allowed p host port \<longleftrightarrow> allow_all p
      \<or> (\<exists>r \<in> set (egress_rules p). er_host r = to_ascii_lowercase (trim host) \<and> er_port r \<in> {None, Some port})"
    by (auto simp: egress_is_allowed_def Let_def list_ex_iff)
  also have "\<dots> \<longleftrightarrow> allow_all p \<or> (\<exists>entry \<in> set allow. \<exists>r. parse_rule entry = Inr r
      \<and> er_host r = to_ascii_lowercase (trim host) \<and> er_port r \<in> {None, Some port})"
    by (simp only: map_res_ex [OF rules])
  finally show ?thesis using all by simp
qed

lemma sample_rule_parses: "parse_rule ''api.example.org:443'' = Inr \<lparr> er_host = ''api.example.org'', er_port = Some 443 \<rparr>"
proof -
  have "trim ''api.example.org:443'' = ''api.example.org:443''" by (rule trim_plain) (simp add: plain_char_def)
  then show ?thesis
    by (simp add: parse_rule_def parse_u16_def parse_unsigned_def strip_prefix_def is_ascii_digit_def
        to_ascii_lowercase_def to_ascii_lower_def is_ascii_uppercase_def valid_host_def is_ascii_alphanumeric_def
        is_ascii_lowercase_def)
qed

theorem egress_allowed_iff_witness:
  "\<exists>p. egress_new ''deny'' [''api.example.org:443''] = Inr p
    \<and> egress_is_allowed p ''api.example.org'' 443 \<and> \<not> egress_is_allowed p ''api.example.org'' 80"
proof -
  let ?p = "\<lparr> allow_all = False, egress_rules = [\<lparr> er_host = ''api.example.org'', er_port = Some 443 \<rparr>] \<rparr>"
  have lower: "to_ascii_lowercase ''deny'' = ''deny''" "to_ascii_lowercase ''api.example.org'' = ''api.example.org''"
    by (simp_all add: to_ascii_lowercase_def to_ascii_lower_def is_ascii_uppercase_def)
  have tr: "trim ''deny'' = ''deny''" "trim ''api.example.org'' = ''api.example.org''"
    by (rule trim_plain, simp add: plain_char_def)+
  have new: "egress_new ''deny'' [''api.example.org:443''] = Inr ?p"
    by (simp add: egress_new_def tr lower sample_rule_parses)
  show ?thesis
    using new egress_allowed_iff [OF new, of "''api.example.org''"] by (auto simp: sample_rule_parses tr lower)
qed

end
