(* ===== verification/Config.thy ===== *)
theory Config
  imports Egress Core_Types
begin

text \<open>
  The crate \<open>archangel-config\<close>: the configuration sections with their defaults and the security
  baseline.  The TOML deserialiser, which fills in the defaults, is a parameter.
\<close>

record DaemonCfg =
  d_trust_store :: string
  d_audit_log :: string
  d_audit_key :: string
  d_operator_pubkey :: string
  d_allowlist :: string
  d_bundle_dir :: string
  d_session_pub :: string

definition default_audit_key :: string where
  "default_audit_key = ''/etc/archangel/trust/audit.key''"

definition default_operator_pub :: string where
  "default_operator_pub = ''/etc/archangel/trust/operator.pub''"

definition default_allowlist :: string where
  "default_allowlist = ''/etc/archangel/policies/allowlist.toml''"

definition default_bundle_dir :: string where
  "default_bundle_dir = ''/etc/archangel/exec''"

definition default_session_pub :: string where
  "default_session_pub = ''/run/archangel/session.pub''"

record SocketsCfg =
  s_control :: string
  s_control_mode :: u32
  s_control_group :: string
  s_exec :: string
  s_operator_uid :: u32
  s_daemon_uid :: u32

definition default_ctl_mode :: u32 where
  "default_ctl_mode = 432"  \<comment> \<open>0o660\<close>

definition default_ctl_group :: string where
  "default_ctl_group = ''archangel''"

record SessionCfg =
  per_task_isolation :: bool
  ttl_seconds :: u64

definition session_cfg_default :: SessionCfg where
  "session_cfg_default = \<lparr> per_task_isolation = True, ttl_seconds = 3600 \<rparr>"

record ModesCfg =
  mode_default :: OperationMode
  autonomous_allowed :: bool

definition modes_cfg_default :: ModesCfg where
  "modes_cfg_default = \<lparr> mode_default = ReadOnly, autonomous_allowed = False \<rparr>"

record LlmCfg =
  default_backend :: string
  llm_model :: "string option"
  max_tokens :: u32

definition llm_cfg_default :: LlmCfg where
  "llm_cfg_default = \<lparr> default_backend = ''ollama'', llm_model = None, max_tokens = 1024 \<rparr>"

record RateLimitsCfg =
  cfg_actions_per_minute :: u32
  cfg_mutating_actions_per_minute :: u32
  cfg_critical_actions_per_hour :: u32
  cfg_approval_requests_per_minute :: u32

definition rate_limits_cfg_default :: RateLimitsCfg where
  "rate_limits_cfg_default =
    \<lparr> cfg_actions_per_minute = 20, cfg_mutating_actions_per_minute = 5,
      cfg_critical_actions_per_hour = 2, cfg_approval_requests_per_minute = 10 \<rparr>"

record MonitorPatternCfg =
  mp_label :: string
  mp_regex :: string

record MonitorCfg =
  mon_enabled :: bool
  poll_interval_secs :: u64
  cooldown_secs :: u64
  mon_sources :: "string list"
  mon_patterns :: "MonitorPatternCfg list"
  cfg_max_line_bytes :: nat
  cfg_max_lines_per_poll :: nat

definition monitor_cfg_default :: MonitorCfg where
  "monitor_cfg_default =
    \<lparr> mon_enabled = False, poll_interval_secs = 5, cooldown_secs = 300, mon_sources = [], mon_patterns = [],
      cfg_max_line_bytes = 4096, cfg_max_lines_per_poll = 256 \<rparr>"

record EgressCfg =
  eg_default_policy :: string
  eg_allow :: "string list"

definition egress_cfg_default :: EgressCfg where
  "egress_cfg_default = \<lparr> eg_default_policy = ''deny'', eg_allow = [] \<rparr>"

definition to_policy :: "EgressCfg \<Rightarrow> (EgressError, EgressPolicy) result" where
  "to_policy c = egress_new (eg_default_policy c) (eg_allow c)"

record Config =
  cfg_daemon :: DaemonCfg
  cfg_sockets :: SocketsCfg
  cfg_session :: SessionCfg
  cfg_modes :: ModesCfg
  cfg_llm :: LlmCfg
  cfg_rate_limits :: RateLimitsCfg
  cfg_monitor :: MonitorCfg
  cfg_egress :: EgressCfg

datatype ConfigProblem =
    MustBeAbsolute string string
  | SessionPubNotAbsolute
  | ControlModeOther u32
  | AutonomousNotAllowed
  | UnsupportedBackend string
  | MonitorSourceNotAbsolute string
  | PollIntervalZero
  | EgressProblem EgressError

datatype ConfigError = ConfigIo | ConfigParse string | ConfigInvalid ConfigProblem

definition is_absolute :: "string \<Rightarrow> bool" where
  "is_absolute p \<longleftrightarrow> starts_with ''/'' p"

definition abs_paths :: "Config \<Rightarrow> (string \<times> string) list" where
  "abs_paths c =
    [(''daemon.trust_store'', d_trust_store (cfg_daemon c)),
     (''daemon.audit_log'', d_audit_log (cfg_daemon c)),
     (''daemon.audit_key'', d_audit_key (cfg_daemon c)),
     (''daemon.operator_pubkey'', d_operator_pubkey (cfg_daemon c)),
     (''daemon.allowlist'', d_allowlist (cfg_daemon c)),
     (''daemon.bundle_dir'', d_bundle_dir (cfg_daemon c)),
     (''sockets.control'', s_control (cfg_sockets c)),
     (''sockets.exec'', s_exec (cfg_sockets c))]"

text \<open>A loop that returns at the first entry violating a check.\<close>

definition check_each :: "('a \<Rightarrow> bool) \<Rightarrow> ('a \<Rightarrow> 'e) \<Rightarrow> 'a list \<Rightarrow> ('e, unit) result" where
  "check_each ok err xs = (case find (\<lambda>x. \<not> ok x) xs of Some x \<Rightarrow> Inl (err x) | None \<Rightarrow> Inr ())"

definition config_validate :: "Config \<Rightarrow> (ConfigError, unit) result" where
  "config_validate c =
    bind_res (check_each (\<lambda>(l, p). is_absolute p) (\<lambda>(l, p). ConfigInvalid (MustBeAbsolute l p)) (abs_paths c)) (\<lambda>_.
    bind_res (ensure (is_absolute (d_session_pub (cfg_daemon c))) (ConfigInvalid SessionPubNotAbsolute)) (\<lambda>_.
    bind_res (ensure (s_control_mode (cfg_sockets c) AND 7 = 0)
      (ConfigInvalid (ControlModeOther (s_control_mode (cfg_sockets c))))) (\<lambda>_.
    bind_res (ensure (\<not> (mode_default (cfg_modes c) = Autonomous \<and> \<not> autonomous_allowed (cfg_modes c)))
      (ConfigInvalid AutonomousNotAllowed)) (\<lambda>_.
    bind_res (ensure (default_backend (cfg_llm c) = ''anthropic'' \<or> default_backend (cfg_llm c) = ''ollama'')
      (ConfigInvalid (UnsupportedBackend (default_backend (cfg_llm c))))) (\<lambda>_.
    bind_res (if mon_enabled (cfg_monitor c) then
        bind_res (check_each is_absolute (\<lambda>p. ConfigInvalid (MonitorSourceNotAbsolute p)) (mon_sources (cfg_monitor c))) (\<lambda>_.
        ensure (poll_interval_secs (cfg_monitor c) \<noteq> 0) (ConfigInvalid PollIntervalZero))
      else Inr ()) (\<lambda>_.
    map_ok (\<lambda>_. ()) (map_err (ConfigInvalid \<circ> EgressProblem) (to_policy (cfg_egress c)))))))))"

definition config_from_toml :: "(string \<Rightarrow> (string, Config) result) \<Rightarrow> string \<Rightarrow> (ConfigError, Config) result" where
  "config_from_toml toml_config text' =
    bind_res (map_err ConfigParse (toml_config text')) (\<lambda>cfg.
    bind_res (config_validate cfg) (\<lambda>_. Inr cfg))"

definition config_load ::
  "(string \<Rightarrow> string option) \<Rightarrow> (string \<Rightarrow> (string, Config) result) \<Rightarrow> string \<Rightarrow> (ConfigError, Config) result"
where
  "config_load read_file toml_config path =
    bind_res (ok_or ConfigIo (read_file path)) (config_from_toml toml_config)"

lemma check_each_ok: "check_each ok err xs = Inr () \<longleftrightarrow> (\<forall>x \<in> set xs. ok x)"
  by (auto simp: check_each_def find_None_iff find_Some_iff split: option.splits)

lemma config_validate_iff:
  "config_validate cfg = Inr () \<longleftrightarrow>
    list_all is_absolute (d_session_pub (cfg_daemon cfg) # map snd (abs_paths cfg))
    \<and> s_control_mode (cfg_sockets cfg) AND 7 = 0
    \<and> (mode_default (cfg_modes cfg) = Autonomous \<longrightarrow> autonomous_allowed (cfg_modes cfg))
    \<and> default_backend (cfg_llm cfg) \<in> {''anthropic'', ''ollama''}
    \<and> (mon_enabled (cfg_monitor cfg) \<longrightarrow>
         list_all is_absolute (mon_sources (cfg_monitor cfg)) \<and> poll_interval_secs (cfg_monitor cfg) \<noteq> 0)
    \<and> is_ok (to_policy (cfg_egress cfg))"
proof -
  have abs: "check_each (\<lambda>(l, p). is_absolute p) (\<lambda>(l, p). ConfigInvalid (MustBeAbsolute l p)) (abs_paths cfg) = Inr ()
      \<longleftrightarrow> list_all is_absolute (map snd (abs_paths cfg))"
    by (auto simp: check_each_ok list_all_iff)
  have mon: "(if mon_enabled (cfg_monitor cfg) then
        bind_res (check_each is_absolute (\<lambda>p. ConfigInvalid (MonitorSourceNotAbsolute p)) (mon_sources (cfg_monitor cfg))) (\<lambda>_.
        ensure (poll_interval_secs (cfg_monitor cfg) \<noteq> 0) (ConfigInvalid PollIntervalZero))
      else Inr ()) = Inr () \<longleftrightarrow> (mon_enabled (cfg_monitor cfg) \<longrightarrow>
         list_all is_absolute (mon_sources (cfg_monitor cfg)) \<and> poll_interval_secs (cfg_monitor cfg) \<noteq> 0)"
    by (auto simp: bind_res_eq_Inr check_each_ok list_all_iff)
  show ?thesis
    unfolding config_validate_def bind_res_eq_Inr ensure_eq_Inr map_ok_eq_Inr map_err_eq_Inr is_ok_iff abs [symmetric] list.pred_inject
    using mon by auto
qed

text \<open>A configuration is accepted exactly when it deserialises and meets the security baseline:
  every path absolute, the control socket closed to others, autonomous as the default mode only
  where it is allowed, a supported backend, a monitor that polls absolute paths at a positive
  interval when it is on, and an egress allowlist that compiles.\<close>

theorem config_baseline:
  "config_from_toml toml_config text' = Inr cfg \<longleftrightarrow>
    toml_config text' = Inr cfg
    \<and> list_all is_absolute (d_session_pub (cfg_daemon cfg) # map snd (abs_paths cfg))
    \<and> s_control_mode (cfg_sockets cfg) AND 7 = 0
    \<and> (mode_default (cfg_modes cfg) = Autonomous \<longrightarrow> autonomous_allowed (cfg_modes cfg))
    \<and> default_backend (cfg_llm cfg) \<in> {''anthropic'', ''ollama''}
    \<and> (mon_enabled (cfg_monitor cfg) \<longrightarrow>
         list_all is_absolute (mon_sources (cfg_monitor cfg)) \<and> poll_interval_secs (cfg_monitor cfg) \<noteq> 0)
    \<and> is_ok (to_policy (cfg_egress cfg))"
  using config_validate_iff [of cfg] by (auto simp: config_from_toml_def bind_res_eq_Inr)

definition sample_config :: Config where
  "sample_config =
    \<lparr> cfg_daemon = \<lparr> d_trust_store = ''/t'', d_audit_log = ''/l'', d_audit_key = default_audit_key,
        d_operator_pubkey = default_operator_pub, d_allowlist = default_allowlist,
        d_bundle_dir = default_bundle_dir, d_session_pub = default_session_pub \<rparr>,
      cfg_sockets = \<lparr> s_control = ''/c'', s_control_mode = default_ctl_mode, s_control_group = default_ctl_group,
        s_exec = ''/e'', s_operator_uid = 1000, s_daemon_uid = 1000 \<rparr>,
      cfg_session = session_cfg_default, cfg_modes = modes_cfg_default, cfg_llm = llm_cfg_default,
      cfg_rate_limits = rate_limits_cfg_default, cfg_monitor = monitor_cfg_default,
      cfg_egress = \<lparr> eg_default_policy = ''deny'', eg_allow = [] \<rparr> \<rparr>"

lemma sample_deny_ok: "is_ok (egress_new ''deny'' [])"
proof -
  have "trim ''deny'' = ''deny''" by (rule trim_plain) (simp add: plain_char_def)
  moreover have "to_ascii_lowercase ''deny'' = ''deny''"
    by (simp add: to_ascii_lowercase_def to_ascii_lower_def is_ascii_uppercase_def)
  ultimately show ?thesis by (simp add: egress_new_def)
qed

lemma sample_config_valid:
  "mode_default m = Interactive \<Longrightarrow> config_validate (sample_config\<lparr> cfg_modes := m \<rparr>) = Inr ()"
  using sample_deny_ok
  by (simp add: config_validate_iff sample_config_def abs_paths_def is_absolute_def starts_with_def to_policy_def
      default_ctl_mode_def llm_cfg_default_def monitor_cfg_default_def default_audit_key_def
      default_operator_pub_def default_allowlist_def default_bundle_dir_def default_session_pub_def)

theorem config_baseline_witness:
  "config_from_toml (\<lambda>_. Inr sample_config) [] = Inr sample_config
    \<and> config_from_toml (\<lambda>_. Inr (sample_config\<lparr> cfg_modes := \<lparr> mode_default = Autonomous, autonomous_allowed = False \<rparr> \<rparr>)) []
      \<noteq> Inr (sample_config\<lparr> cfg_modes := \<lparr> mode_default = Autonomous, autonomous_allowed = False \<rparr> \<rparr>)"
proof -
  show ?thesis
    using sample_deny_ok
    unfolding config_baseline
    by (simp add: sample_config_def abs_paths_def is_absolute_def starts_with_def to_policy_def default_ctl_mode_def
        modes_cfg_default_def llm_cfg_default_def monitor_cfg_default_def default_audit_key_def default_operator_pub_def
        default_allowlist_def default_bundle_dir_def default_session_pub_def)
qed

end
