(* ===== verification/Execd_Server.thy ===== *)
theory Execd_Server
  imports Executor Config
begin

text \<open>
  \<open>archangel-execd/src/main.rs\<close>: settings, start-up and the serial accept loop, and the daemon's
  side of the same socket, \<open>archangeld/src/transport.rs\<close>.  Every accepted connection carries what
  the outside world shows while it is served: the peer's credentials, the bytes it sends, whether
  the reply can be written, the instant, and the environment of the pipeline.
\<close>

section \<open>Settings\<close>

datatype ExecdError =
    BadKeyHex KeyHexMessage
  | KeyNot32Bytes
  | InvalidKey
  | KeyFileUnreadable string
  | MissingSetting string
  | ConfigFailed ConfigError
  | TrustFailed ExecFormatError
  | AllowlistFailed PolicyError

definition key_from_hex :: "Crypto \<Rightarrow> string \<Rightarrow> (ExecdError, VerifyingKey) result" where
  "key_from_hex C hex =
    bind_res (map_err BadKeyHex (execd_decode_hex hex)) (\<lambda>v.
    bind_res (ok_or KeyNot32Bytes (to_array 32 v)) (\<lambda>bytes.
    ok_or InvalidKey (vk_from_bytes C bytes)))"

definition read_key_file :: "Crypto \<Rightarrow> (string \<Rightarrow> byte list option) \<Rightarrow> string \<Rightarrow> (ExecdError, VerifyingKey) result" where
  "read_key_file C read path =
    bind_res (ok_or (KeyFileUnreadable path) (read_to_string read path)) (\<lambda>hex. key_from_hex C (trim hex))"

definition need :: "'a option \<Rightarrow> 'a option \<Rightarrow> string \<Rightarrow> (ExecdError, 'a) result" where
  "need cli cfg what =
    ok_or (MissingSetting what) (case cli of Some x \<Rightarrow> Some x | None \<Rightarrow> cfg)"

record Args =
  a_config :: "string option"
  a_socket :: "string option"
  a_peer_uid :: "u32 option"
  a_session_pubkey_hex :: "string option"
  a_session_pub_file :: "string option"
  a_operators :: "string option"
  a_allowlist :: "string option"
  a_bundle_dir :: "string option"
  a_timeout_secs :: u64

datatype SessionSource = Static VerifyingKey | KeyFile string

record Settings =
  st_socket :: string
  st_peer_uid :: u32
  st_operators :: string
  st_allowlist :: string
  st_bundle_dir :: string
  st_session :: SessionSource
  st_timeout :: duration
  st_mode_ceiling :: OperationMode
  st_rate_limits :: RateLimits

text \<open>\<open>exists\<close> is the file system's answer for the default path.\<close>

definition load_config ::
  "(string \<Rightarrow> string option) \<Rightarrow> (string \<Rightarrow> (string, Config) result) \<Rightarrow> (string \<Rightarrow> bool) \<Rightarrow> string option
    \<Rightarrow> (ExecdError, Config option) result"
where
  "load_config read_file toml_config exists arg =
    (case arg of
       Some p \<Rightarrow> map_ok Some (map_err ConfigFailed (config_load read_file toml_config p))
     | None \<Rightarrow>
        let default = ''/etc/archangel/archangel.toml'' in
        if exists default then map_ok Some (map_err ConfigFailed (config_load read_file toml_config default))
        else Inr None)"

definition rate_limits_of :: "Config option \<Rightarrow> RateLimits" where
  "rate_limits_of cfg =
    (let rl = unwrap_or rate_limits_cfg_default (map_option cfg_rate_limits cfg) in
     \<lparr> actions_per_minute = cfg_actions_per_minute rl,
       mutating_actions_per_minute = cfg_mutating_actions_per_minute rl,
       critical_actions_per_hour = cfg_critical_actions_per_hour rl \<rparr>)"

definition session_source :: "Crypto \<Rightarrow> Args \<Rightarrow> Config option \<Rightarrow> (ExecdError, SessionSource) result" where
  "session_source C cli cfg =
    (case a_session_pubkey_hex cli of
       Some hex \<Rightarrow> map_ok Static (key_from_hex C hex)
     | None \<Rightarrow> map_ok KeyFile (need (a_session_pub_file cli)
         (map_option (d_session_pub \<circ> cfg_daemon) cfg) ''daemon.session_pub''))"

definition resolve ::
  "Crypto \<Rightarrow> (string \<Rightarrow> string option) \<Rightarrow> (string \<Rightarrow> (string, Config) result) \<Rightarrow> (string \<Rightarrow> bool) \<Rightarrow> Args
    \<Rightarrow> (ExecdError, Settings) result"
where
  "resolve C read_file toml_config exists cli =
    bind_res (load_config read_file toml_config exists (a_config cli)) (\<lambda>cfg.
    bind_res (need (a_socket cli) (map_option (s_exec \<circ> cfg_sockets) cfg) ''sockets.exec'') (\<lambda>socket.
    bind_res (need (a_peer_uid cli) (map_option (s_daemon_uid \<circ> cfg_sockets) cfg) ''sockets.daemon_uid'') (\<lambda>peer_uid.
    bind_res (need (a_operators cli) (map_option (d_trust_store \<circ> cfg_daemon) cfg) ''daemon.trust_store'') (\<lambda>operators.
    bind_res (need (a_allowlist cli) (map_option (d_allowlist \<circ> cfg_daemon) cfg) ''daemon.allowlist'') (\<lambda>allowlist.
    bind_res (need (a_bundle_dir cli) (map_option (d_bundle_dir \<circ> cfg_daemon) cfg) ''daemon.bundle_dir'') (\<lambda>bundle_dir.
    bind_res (session_source C cli cfg) (\<lambda>session.
    Inr \<lparr> st_socket = socket, st_peer_uid = peer_uid, st_operators = operators, st_allowlist = allowlist,
          st_bundle_dir = bundle_dir, st_session = session,
          st_timeout = unat (a_timeout_secs cli) * 1000000000,
          st_mode_ceiling = (case cfg of None \<Rightarrow> ReadOnly | Some c \<Rightarrow> mode_default (cfg_modes c)),
          st_rate_limits = rate_limits_of cfg \<rparr>)))))))"

section \<open>Start-up\<close>

text \<open>\<open>snapshotter\<close> is the outcome of \<open>detect_for\<close> on the state directory, as the trait object the
  executor stores.\<close>

definition initial_key :: "Crypto \<Rightarrow> (string \<Rightarrow> byte list option) \<Rightarrow> SessionSource \<Rightarrow> VerifyingKey" where
  "initial_key C read session =
    (case session of
       Static k \<Rightarrow> k
     | KeyFile p \<Rightarrow>
        (case read_key_file C read p of
           Inr k \<Rightarrow> k
         | Inl _ \<Rightarrow> verifying_key C (SigningKey (replicate 32 0))))"

definition execd_start ::
  "Crypto \<Rightarrow> (string \<Rightarrow> byte list option) \<Rightarrow> (string \<Rightarrow> (string, Allowlist) result)
    \<Rightarrow> (string \<Rightarrow> (SnapshotError, SnapshotId) result) option \<Rightarrow> Settings \<Rightarrow> (ExecdError, Executor) result"
where
  "execd_start C read toml_allow snapshotter s =
    bind_res (map_err TrustFailed (trust_load C (read_to_string read) (st_operators s))) (\<lambda>trust.
    bind_res (map_err AllowlistFailed (allowlist_load (read_to_string read) toml_allow (st_allowlist s))) (\<lambda>al.
    let executor = executor_new (initial_key C read (st_session s)) trust \<lparr> pe_allowlist = al \<rparr> (st_bundle_dir s)
          \<lparr> el_timeout = st_timeout s, el_max_output = 1024 * 1024 \<rparr> snapshotter in
    Inr (set_rate_limits (set_mode_ceiling executor (st_mode_ceiling s)) (st_rate_limits s))))"

section \<open>Serving\<close>

datatype ServeError = ServeReadFailed "IpcError FrameReadError" | WriteResponseFailed

record ('g, 's, 'r, 'c, 'u, 'f, 'b) Conn =
  c_env :: "('g, 's, 'r, 'c, 'u, 'f, 'b) ExecEnv"
  c_peer_uid :: "u32 option"
  c_incoming :: "byte list"
  c_writable :: bool
  c_now :: instant

definition response_frame :: "exec_response Codec \<Rightarrow> exec_response \<Rightarrow> byte list" where
  "response_frame rc response =
    (case response_to_frame rc response of
       Inr frame \<Rightarrow> frame
     | Inl _ \<Rightarrow>
        let fallback = rejected (ActionId (replicate 16 0)) ExecFailure ResponseEncodingFailed in
        (case response_to_frame rc fallback of Inr frame \<Rightarrow> frame | Inl _ \<Rightarrow> []))"

text \<open>The result carries the frame that was written.\<close>

definition serve_one ::
  "exec_response Codec \<Rightarrow> ('g, 's, 'r, 'c, 'u, 'f, 'b) Conn \<Rightarrow> Executor \<times> World
    \<Rightarrow> (Executor \<times> World) \<times> (ServeError, byte list) result"
where
  "serve_one rc conn s =
    (case read_body frame_len (c_incoming conn) of
       Inl e \<Rightarrow> (s, Inl (ServeReadFailed e))
     | Inr body \<Rightarrow>
        let (s', response) = handle (c_env conn) (c_now conn) (fst s) (snd s) body;
            frame = response_frame rc response in
        (s', if c_writable conn then Inr frame else Inl WriteResponseFailed))"

datatype Served =
    AcceptFailed
  | UnauthorizedPeer u32
  | NoPeerCredentials
  | SessionKeyUnavailable ExecdError
  | ServedOne "(ServeError, byte list) result"

definition serve_accepted ::
  "exec_response Codec \<Rightarrow> u32 \<Rightarrow> SessionSource \<Rightarrow> ('g, 's, 'r, 'c, 'u, 'f, 'b) Conn option \<Rightarrow> Executor \<times> World
    \<Rightarrow> (Executor \<times> World) \<times> Served"
where
  "serve_accepted rc peer_uid session accepted s =
    (case accepted of
       None \<Rightarrow> (s, AcceptFailed)
     | Some conn \<Rightarrow>
        (case c_peer_uid conn of
           None \<Rightarrow> (s, NoPeerCredentials)
         | Some uid \<Rightarrow>
            if uid \<noteq> peer_uid then (s, UnauthorizedPeer uid)
            else
            (case session of
               Static _ \<Rightarrow> let (s', r) = serve_one rc conn s in (s', ServedOne r)
             | KeyFile p \<Rightarrow>
                (case read_key_file (e_crypto (c_env conn)) (e_read (c_env conn)) p of
                   Inl e \<Rightarrow> (s, SessionKeyUnavailable e)
                 | Inr k \<Rightarrow>
                    let (s', r) = serve_one rc conn (set_session_key (fst s) k, snd s) in (s', ServedOne r)))))"

text \<open>The loop never returns; this is its state after any finite number of accepts.\<close>

primrec serve_loop ::
  "exec_response Codec \<Rightarrow> u32 \<Rightarrow> SessionSource \<Rightarrow> ('g, 's, 'r, 'c, 'u, 'f, 'b) Conn option list \<Rightarrow> Executor \<times> World
    \<Rightarrow> Executor \<times> World"
where
  "serve_loop rc peer_uid session [] s = s"
| "serve_loop rc peer_uid session (a # as) s =
    serve_loop rc peer_uid session as (fst (serve_accepted rc peer_uid session a s))"

section \<open>The daemon's side of the socket\<close>

text \<open>\<open>socket\<close> stands for the executor's socket: what it sends back for the bytes written to it, or
  which step of connecting and writing failed.\<close>

datatype TransportError =
    ConnectExecSocket
  | WriteRequest
  | FlushRequest
  | ReadResponseLength
  | ResponseFrameLength IpcError
  | ReadResponseBody
  | DecodeResponse IpcError

definition response_read_error :: "IpcError FrameReadError \<Rightarrow> TransportError" where
  "response_read_error e =
    (case e of ShortLength \<Rightarrow> ReadResponseLength | BadLength e \<Rightarrow> ResponseFrameLength e | ShortBody \<Rightarrow> ReadResponseBody)"

definition transport_send ::
  "'r ExecResponse Codec \<Rightarrow> (byte list \<Rightarrow> (TransportError, byte list) result) \<Rightarrow> byte list
    \<Rightarrow> (TransportError, 'r ExecResponse) result"
where
  "transport_send rc socket frame =
    bind_res (socket frame) (\<lambda>reply.
    bind_res (map_err response_read_error (read_body frame_len reply)) (\<lambda>body.
    map_err DecodeResponse (response_from_frame_body rc body)))"

section \<open>Lemmas\<close>

lemma transport_reply:
  assumes "codec_ok rc" and "response_to_frame rc response = Inr reply" and "socket frame = Inr reply"
  shows "transport_send rc socket frame =
    (if length reply - 4 \<le> MAX_FRAME_LEN then Inr response
     else Inl (ResponseFrameLength (Framing (length reply - 4))))"
proof (cases "length reply - 4 \<le> MAX_FRAME_LEN")
  case True
  then obtain body where "read_body frame_len (reply @ []) = Inr body" "response_from_frame_body rc body = Inr response"
    using ipc_response_frames.read_back [OF assms(1,2), of "[]"] by blast
  then show ?thesis using assms(3) True by (simp add: transport_send_def)
next
  case False
  have "of_be32 (take 4 reply) = length reply - 4 \<and> 4 \<le> length reply"
    by (rule ipc_response_frames.announced_length [OF assms(2)])
  then show ?thesis
    using assms(3) False
    by (simp add: transport_send_def read_body_def read_exact_def frame_len_def Let_def response_read_error_def)
qed

lemma request_frame_read:
  assumes "codec_ok ec" and "to_frame ec env = Inr frame"
  shows "read_body frame_len frame = Inr (drop 4 frame) \<and> from_frame_body ec (drop 4 frame) = Inr env"
proof -
  obtain body where body: "into_writer ec env = Inr body" "frame = be32 (length body) @ body" "length body < 2 ^ 32"
    using ipc_request_frames.frame_shape [OF assms(2)] by blast
  have cap: "length body \<le> MAX_FRAME_LEN"
    using assms(2) body(1) by (auto simp: frame_defs bind_res_eq_Inr split: if_splits)
  show ?thesis
    using body cap ipc_request_frames.body_decodes [OF assms(1) body(1)]
    by (simp add: read_body_def read_exact_def frame_len_def Let_def of_be32_be32)
qed

text \<open>What one accepted connection does: nothing, or one \<open>handle\<close> by the executor with the key in
  force.\<close>

definition key_in_force ::
  "SessionSource \<Rightarrow> ('g, 's, 'r, 'c, 'u, 'f, 'b) Conn \<Rightarrow> Executor \<Rightarrow> VerifyingKey option"
where
  "key_in_force session conn ex =
    (case session of
       Static _ \<Rightarrow> Some (x_session_key ex)
     | KeyFile p \<Rightarrow>
        (case read_key_file (e_crypto (c_env conn)) (e_read (c_env conn)) p of Inr k \<Rightarrow> Some k | Inl _ \<Rightarrow> None))"

lemma serve_accepted_cases:
  assumes "serve_accepted rc peer_uid session accepted (ex, w) = ((ex', w'), out)"
  obtains (idle) "w' = w" "x_replay ex' = x_replay ex" "x_rate ex' = x_rate ex" "\<And>r. out \<noteq> ServedOne (Inr r)"
  | (handled) conn key body response where "accepted = Some conn" "c_peer_uid conn = Some peer_uid"
      "key_in_force session conn ex = Some key" "read_body frame_len (c_incoming conn) = Inr body"
      "handle (c_env conn) (c_now conn) (ex\<lparr> x_session_key := key \<rparr>) w body = ((ex', w'), response)"
      "out = ServedOne (if c_writable conn then Inr (response_frame rc response) else Inl WriteResponseFailed)"
proof -
  have one: "serve_one rc conn (ex1, w) = ((ex', w'), r) \<Longrightarrow>
      (read_body frame_len (c_incoming conn) = Inl e \<longrightarrow> ex' = ex1 \<and> w' = w \<and> (\<forall>f. r \<noteq> Inr f))
      \<and> (read_body frame_len (c_incoming conn) = Inr body \<longrightarrow>
          (\<exists>response. handle (c_env conn) (c_now conn) ex1 w body = ((ex', w'), response)
            \<and> r = (if c_writable conn then Inr (response_frame rc response) else Inl WriteResponseFailed)))"
    for conn :: "('a, 'b, 'c, 'd, 'e, 'f, 'g) Conn" and ex1 r e body
    by (auto simp: serve_one_def Let_def split: sum.splits prod.splits)
  show thesis
  proof (cases accepted)
    case None
    then show thesis using assms idle by (simp add: serve_accepted_def)
  next
    case (Some conn)
    show thesis
    proof (cases "c_peer_uid conn = Some peer_uid \<and> key_in_force session conn ex \<noteq> None")
      case True
      then obtain key where key: "key_in_force session conn ex = Some key" by auto
      then obtain r where r: "serve_one rc conn (ex\<lparr> x_session_key := key \<rparr>, w) = ((ex', w'), r)" "out = ServedOne r"
        using assms Some True
        by (auto simp: serve_accepted_def key_in_force_def set_session_key_def Let_def
            split: SessionSource.splits sum.splits prod.splits)
      show thesis
      proof (cases "read_body frame_len (c_incoming conn)")
        case (Inl e)
        then show thesis using one [OF r(1)] r(2) idle by simp
      next
        case (Inr body)
        then show thesis using one [OF r(1)] r(2) handled [OF Some _ key Inr] True by blast
      qed
    next
      case False
      then have "((ex', w') = (ex, w) \<and> (\<forall>r. out \<noteq> ServedOne r))"
        using assms Some
        by (auto simp: serve_accepted_def key_in_force_def split: option.splits SessionSource.splits sum.splits if_splits)
      then show thesis using idle by simp
    qed
  qed
qed

text \<open>The requests that ran while the loop served a list of accepts, with their instants.\<close>

definition run_of ::
  "SessionSource \<Rightarrow> ('g, 's, 'r, 'c, 'u, 'f, 'b) Conn option \<Rightarrow> Executor \<times> World \<Rightarrow> Executor \<times> World
    \<Rightarrow> (instant \<times> SessionId \<times> u64 \<times> nonce) list"
where
  "run_of session accepted before after' =
    (if filter is_run (w_log (snd after')) = filter is_run (w_log (snd before)) then []
     else case accepted of
       None \<Rightarrow> []
     | Some conn \<Rightarrow>
        (case (key_in_force session conn (fst before), read_body frame_len (c_incoming conn)) of
           (Some key, Inr body) \<Rightarrow> [(c_now conn, msg_of (c_env conn) ((fst before)\<lparr> x_session_key := key \<rparr>) body)]
         | _ \<Rightarrow> []))"

primrec loop_runs ::
  "exec_response Codec \<Rightarrow> u32 \<Rightarrow> SessionSource \<Rightarrow> ('g, 's, 'r, 'c, 'u, 'f, 'b) Conn option list \<Rightarrow> Executor \<times> World
    \<Rightarrow> (instant \<times> SessionId \<times> u64 \<times> nonce) list"
where
  "loop_runs rc peer_uid session [] s = []"
| "loop_runs rc peer_uid session (a # as) s =
    (let s' = fst (serve_accepted rc peer_uid session a s) in
     run_of session a s s' @ loop_runs rc peer_uid session as s')"

lemma handle_runs:
  assumes "handle E now ex w body = ((ex', w'), resp)"
  shows "is_rejected resp \<longleftrightarrow> filter is_run (w_log w') = filter is_run (w_log w)"
proof (cases rule: handle_cases [OF assms])
  case 1
  then show ?thesis using dispatch_Inl [OF 1(1)] by simp
next
  case 2
  from 2(1) show ?thesis
    by (rule dispatch_InrE)
      (use 2(2) in \<open>simp add: execute_log cgroup_gate_log snapshot_gate_runs is_run_def\<close>)
qed

lemma serve_accepted_guards:
  assumes "serve_accepted rc peer_uid session accepted (ex, w) = ((ex', w'), out)"
  shows "(\<exists>ms. x_replay ex' = after exec_step (x_replay ex) ms
      \<and> subseq (map snd (run_of session accepted (ex, w) (ex', w'))) (admitted exec_step (x_replay ex) ms))
    \<and> (\<exists>xs. (\<forall>x \<in> set xs. \<exists>conn. accepted = Some conn \<and> fst x = c_now conn)
      \<and> sorted (map fst xs)
      \<and> x_rate ex' = fst (limiter_run (x_rate ex) [] xs)
      \<and> subseq (map fst (run_of session accepted (ex, w) (ex', w'))) (map fst (snd (limiter_run (x_rate ex) [] xs))))"
proof (cases rule: serve_accepted_cases [OF assms])
  case 1
  then have "run_of session accepted (ex, w) (ex', w') = []" by (simp add: run_of_def)
  then show ?thesis using 1 by (intro conjI exI [of _ "[]"]) auto
next
  case (2 conn key body response)
  let ?E = "c_env conn" and ?ex = "ex\<lparr> x_session_key := key \<rparr>"
  have replay: "x_replay ex' = (case authenticate ?E ?ex body of Inl _ \<Rightarrow> x_replay ex
      | Inr request \<Rightarrow> fst (exec_step (x_replay ex) (replay_msg request)))"
    using handle_replay [of ?E "c_now conn" ?ex w body] 2(5) by (simp split: sum.splits)
  have rate: "x_rate ex' = x_rate ex \<or> (\<exists>c. x_rate ex' = fst (try_admit (x_rate ex) (c_now conn) c))"
    using handle_rate [of ?E "c_now conn" ?ex w body] 2(5) by simp
  show ?thesis
  proof (cases "is_rejected response")
    case True
    then have none: "run_of session accepted (ex, w) (ex', w') = []"
      using handle_runs [OF 2(5)] by (simp add: run_of_def)
    have "\<exists>ms. x_replay ex' = after exec_step (x_replay ex) ms"
      using replay by (cases "authenticate ?E ?ex body") (auto intro: exI [of _ "[]"] exI [of _ "[m]" for m])
    moreover have "\<exists>xs. (\<forall>x \<in> set xs. \<exists>conn. accepted = Some conn \<and> fst x = c_now conn)
        \<and> sorted (map fst xs) \<and> x_rate ex' = fst (limiter_run (x_rate ex) [] xs)"
      using rate
    proof
      assume "\<exists>c. x_rate ex' = fst (try_admit (x_rate ex) (c_now conn) c)"
      then obtain c where "x_rate ex' = fst (try_admit (x_rate ex) (c_now conn) c)" by blast
      then show ?thesis using 2(1) by (intro exI [of _ "[(c_now conn, c)]"]) (simp add: split_beta)
    qed (auto intro: exI [of _ "[]"])
    ultimately show ?thesis using none by simp
  next
    case False
    let ?m = "msg_of ?E ?ex body"
    note ran = ran_admitted [OF 2(5) False]
    from ran(1) obtain request where request: "authenticate ?E ?ex body = Inr request" by (auto simp: is_ok_iff)
    have one: "run_of session accepted (ex, w) (ex', w') = [(c_now conn, ?m)]"
      using handle_runs [OF 2(5)] False 2 by (simp add: run_of_def)
    obtain c where c: "snd (try_admit (x_rate ex) (c_now conn) c) = Inr ()"
        "x_rate ex' = fst (try_admit (x_rate ex) (c_now conn) c)"
      using ran(3) by auto
    have m: "?m = replay_msg request" using request by (simp add: msg_of_def)
    show ?thesis
      using one ran(2) c 2(1) replay request m
      by (intro conjI exI [of _ "[?m]"] exI [of _ "[(c_now conn, c)]"]) (simp_all add: split_beta)
  qed
qed

definition instants :: "('g, 's, 'r, 'c, 'u, 'f, 'b) Conn option list \<Rightarrow> instant list" where
  "instants as = List.map_filter (map_option c_now) as"

lemma loop_replay:
  "\<exists>ms. subseq (map snd (loop_runs rc uid session as s)) (admitted exec_step (x_replay (fst s)) ms)"
proof (induction as arbitrary: s)
  case (Cons a as)
  obtain ex' w' out where sa: "serve_accepted rc uid session a s = ((ex', w'), out)" by (metis surj_pair)
  then have sa': "serve_accepted rc uid session a (fst s, snd s) = ((ex', w'), out)" by simp
  from serve_accepted_guards [OF sa'] obtain ms where
      ms: "x_replay ex' = after exec_step (x_replay (fst s)) ms"
        "subseq (map snd (run_of session a s (ex', w'))) (admitted exec_step (x_replay (fst s)) ms)"
    by auto
  from Cons.IH [of "(ex', w')"] obtain ms' where
      "subseq (map snd (loop_runs rc uid session as (ex', w'))) (admitted exec_step (x_replay ex') ms')" by auto
  then have "subseq (map snd (loop_runs rc uid session (a # as) s)) (admitted exec_step (x_replay (fst s)) (ms @ ms'))"
    using ms sa by (simp add: Let_def admitted_append list_emb_append_mono)
  then show ?case by blast
qed (auto intro: exI [of _ "[]"])

lemma loop_rate:
  assumes "sorted (instants as)"
  shows "\<exists>xs. sorted (map fst xs) \<and> set (map fst xs) \<subseteq> set (instants as)
    \<and> subseq (map fst (loop_runs rc uid session as s)) (map fst (snd (limiter_run (x_rate (fst s)) [] xs)))"
  using assms
proof (induction as arbitrary: s)
  case (Cons a as)
  obtain ex' w' out where sa: "serve_accepted rc uid session a s = ((ex', w'), out)" by (metis surj_pair)
  then have sa': "serve_accepted rc uid session a (fst s, snd s) = ((ex', w'), out)" by simp
  from serve_accepted_guards [OF sa'] obtain xs where
      xs: "\<forall>x \<in> set xs. \<exists>conn. a = Some conn \<and> fst x = c_now conn" "sorted (map fst xs)"
        "x_rate ex' = fst (limiter_run (x_rate (fst s)) [] xs)"
        "subseq (map fst (run_of session a s (ex', w'))) (map fst (snd (limiter_run (x_rate (fst s)) [] xs)))"
    by auto
  have tail: "sorted (instants as)" "\<forall>x \<in> set xs. \<forall>t \<in> set (instants as). fst x \<le> t"
    "fst ` set xs \<subseteq> set (instants (a # as))" "set (instants as) \<subseteq> set (instants (a # as))"
    using Cons.prems xs(1) by (auto simp: instants_def List.map_filter_simps split: option.splits)
  from Cons.IH [OF tail(1), of "(ex', w')"] obtain ys where
      ys: "sorted (map fst ys)" "set (map fst ys) \<subseteq> set (instants as)"
        "subseq (map fst (loop_runs rc uid session as (ex', w'))) (map fst (snd (limiter_run (x_rate ex') [] ys)))"
    by auto
  have "sorted (map fst (xs @ ys))"
    using xs(2) ys(1,2) tail(2) by (auto simp: sorted_append)
  moreover have "set (map fst (xs @ ys)) \<subseteq> set (instants (a # as))"
    using ys(2) tail(3,4) by auto
  moreover have "subseq (map fst (loop_runs rc uid session (a # as) s))
      (map fst (snd (limiter_run (x_rate (fst s)) [] (xs @ ys))))"
    using xs(3,4) ys(3) sa by (simp add: Let_def limiter_run_append list_emb_append_mono)
  ultimately show ?case by blast
qed (auto intro: exI [of _ "[]"])

section \<open>Properties\<close>

text \<open>C25: the socket carries requests and replies faithfully.  A request sealed by the daemon with its
  session key, framed and sent is the request the executor authenticates, and the daemon gets
  back exactly the response of the pipeline if its encoding is at most 1 MiB; a longer response,
  although written, is refused by the daemon's length check.\<close>

theorem request_reply_roundtrip:
  assumes "crypto_ok (e_crypto E)" "codec_ok (e_request_codec E)" "codec_ok (e_envelope_codec E)" "codec_ok rc"
    and seal: "envelope_seal (e_crypto E) (e_request_codec E) request k = Inr env"
    and frame: "to_frame (e_envelope_codec E) env = Inr frame"
    and key: "x_session_key ex = verifying_key (e_crypto E) k"
    and conn: "c_env conn = E" "c_incoming conn = frame" "c_writable conn"
    and handled: "handle E (c_now conn) ex w (drop 4 frame) = (s', response)"
    and reply: "response_to_frame rc response = Inr reply"
  shows "authenticate E ex (drop 4 frame) = Inr request
    \<and> serve_one rc conn (ex, w) = (s', Inr reply)
    \<and> transport_send rc (\<lambda>f. if f = frame then Inr reply else Inl ConnectExecSocket) frame =
        (if length reply - 4 \<le> MAX_FRAME_LEN then Inr response
         else Inl (ResponseFrameLength (Framing (length reply - 4))))"
proof -
  note read = request_frame_read [OF assms(3) frame]
  have "envelope_open (e_crypto E) (e_request_codec E) env (x_session_key ex) = Inr request"
    using ipc_env.seal_unseal [OF assms(1,2) seal] key by simp
  then have "authenticate E ex (drop 4 frame) = Inr request"
    using read by (simp add: authenticate_def)
  moreover have "serve_one rc conn (ex, w) = (s', Inr reply)"
    using read conn handled reply by (simp add: serve_one_def response_frame_def)
  ultimately show ?thesis
    using transport_reply [OF assms(4) reply] by simp
qed

definition point_codec :: "'a \<Rightarrow> byte list \<Rightarrow> 'a Codec" where
  "point_codec v bs =
    \<lparr> into_writer = (\<lambda>x. if x = v then Inr bs else Inl ''unsupported''),
      from_reader = (\<lambda>b. if b = bs then Inr v else Inl ''malformed'') \<rparr>"

lemma point_codec_ok: "codec_ok (point_codec v bs)"
  by (simp add: codec_ok_def point_codec_def)

definition sample_wire_env ::
  "(string, string list, string list, nat \<times> u64, sample_rule, sample_program, sample_program) ExecEnv"
where
  "sample_wire_env =
    (sample_env sample_manifest)\<lparr> e_request_codec := point_codec sample_request [1],
      e_envelope_codec := point_codec sample_envelope [2] \<rparr>"

definition sample_conn ::
  "u32 \<Rightarrow> byte list \<Rightarrow> instant
    \<Rightarrow> (string, string list, string list, nat \<times> u64, sample_rule, sample_program, sample_program) Conn"
where
  "sample_conn uid incoming now =
    \<lparr> c_env = (if incoming = be32 0 then sample_env sample_manifest else sample_wire_env),
      c_peer_uid = Some uid, c_incoming = incoming, c_writable = True, c_now = now \<rparr>"

theorem request_reply_roundtrip_witness:
  "let response = snd (handle sample_wire_env 0 sample_executor sample_world [2]);
       frame = be32 1 @ [2] in
   authenticate sample_wire_env sample_executor [2] = Inr sample_request
   \<and> transport_send (point_codec response [9])
       (\<lambda>f. if f = frame then Inr (be32 1 @ [9]) else Inl ConnectExecSocket) frame = Inr response"
proof -
  let ?E = sample_wire_env and ?frame = "be32 1 @ [2 :: byte]"
  define response where "response = snd (handle ?E 0 sample_executor sample_world [2])"
  have E: "e_crypto ?E = sample_crypto" "e_request_codec ?E = point_codec sample_request [1]"
      "e_envelope_codec ?E = point_codec sample_envelope [2]"
    by (simp_all add: sample_wire_env_def sample_env_def)
  have seal: "envelope_seal (e_crypto ?E) (e_request_codec ?E) sample_request sample_key = Inr sample_envelope"
    by (simp add: E envelope_seal_def cbor_to_vec_def point_codec_def sample_envelope_def)
  have frame: "to_frame (e_envelope_codec ?E) sample_envelope = Inr ?frame"
    by (simp add: E frame_defs point_codec_def MAX_FRAME_LEN_def)
  have reply: "response_to_frame (point_codec response [9]) response = Inr (be32 1 @ [9])"
    by (simp add: frame_defs point_codec_def)
  have key: "x_session_key sample_executor = verifying_key (e_crypto ?E) sample_key"
    by (simp add: E sample_executor_def executor_new_def)
  have conn: "c_env (sample_conn 1 ?frame 0) = ?E" "c_incoming (sample_conn 1 ?frame 0) = ?frame"
      "c_writable (sample_conn 1 ?frame 0)" "c_now (sample_conn 1 ?frame 0) = 0"
    by (auto simp: sample_conn_def dest: arg_cong [where f = length])
  have handled: "handle ?E (c_now (sample_conn 1 ?frame 0)) sample_executor sample_world (drop 4 ?frame)
      = (fst (handle ?E 0 sample_executor sample_world [2]), response)"
    unfolding conn(4) by (simp add: response_def)
  have "authenticate ?E sample_executor (drop 4 ?frame) = Inr sample_request
      \<and> transport_send (point_codec response [9])
          (\<lambda>f. if f = ?frame then Inr (be32 1 @ [9]) else Inl ConnectExecSocket) ?frame = Inr response"
    using request_reply_roundtrip [OF _ _ _ point_codec_ok seal frame key conn(1-3) handled reply]
    by (simp add: E sample_crypto_ok point_codec_ok MAX_FRAME_LEN_def)
  then show ?thesis by (simp add: response_def)
qed

text \<open>The executor's mutation ceiling comes from its own validated configuration only.  Whatever
  the command line overrides, an executor that started is read-only unless a configuration was
  loaded and passed the baseline whose default mode is the ceiling, and is autonomous only if
  that configuration allows it; it starts with empty guards and the configured rates.\<close>

theorem execd_ceiling_from_config:
  assumes "resolve C read_file toml_config exists cli = Inr st"
    and "execd_start C read toml_allow snapshotter st = Inr ex"
  shows "\<exists>cfg. load_config read_file toml_config exists (a_config cli) = Inr cfg
    \<and> (case cfg of
         None \<Rightarrow> x_mode_ceiling ex = ReadOnly
       | Some c \<Rightarrow> config_validate c = Inr () \<and> x_mode_ceiling ex = mode_default (cfg_modes c)
           \<and> (x_mode_ceiling ex = Autonomous \<longrightarrow> autonomous_allowed (cfg_modes c)))
    \<and> x_rate ex = limiter_new (rate_limits_of cfg) \<and> x_replay ex = replay_new
    \<and> (\<forall>k. st_session st = Static k \<longrightarrow> x_session_key ex = k)"
proof -
  obtain cfg where cfg: "load_config read_file toml_config exists (a_config cli) = Inr cfg"
    and st: "st_mode_ceiling st = (case cfg of None \<Rightarrow> ReadOnly | Some c \<Rightarrow> mode_default (cfg_modes c))"
      "st_rate_limits st = rate_limits_of cfg"
    using assms(1) by (auto simp: resolve_def bind_res_eq_Inr)
  have ex: "x_mode_ceiling ex = st_mode_ceiling st" "x_rate ex = limiter_new (st_rate_limits st)"
      "x_replay ex = replay_new" "\<forall>k. st_session st = Static k \<longrightarrow> x_session_key ex = k"
    using assms(2) by (auto simp: execd_start_def bind_res_eq_Inr Let_def set_rate_limits_def set_mode_ceiling_def
        executor_new_def initial_key_def)
  have valid: "config_validate c = Inr ()" if "cfg = Some c" for c
    using cfg that
    by (auto simp: load_config_def config_load_def config_from_toml_def map_ok_eq_Inr bind_res_eq_Inr Let_def
        split: option.splits if_splits)
  then have "autonomous_allowed (cfg_modes c)" if "cfg = Some c" "mode_default (cfg_modes c) = Autonomous" for c
    using that by (auto simp: config_validate_iff)
  then show ?thesis using cfg st ex valid by (auto split: option.splits)
qed

definition sample_cli :: Args where
  "sample_cli =
    \<lparr> a_config = Some ''/a.toml'', a_socket = None, a_peer_uid = Some 9, a_session_pubkey_hex = None,
      a_session_pub_file = None, a_operators = None, a_allowlist = None, a_bundle_dir = None, a_timeout_secs = 30 \<rparr>"

definition interactive_config :: Config where
  "interactive_config =
    sample_config\<lparr> cfg_modes := \<lparr> mode_default = Interactive, autonomous_allowed = False \<rparr> \<rparr>"

theorem execd_ceiling_from_config_witness:
  "\<exists>st ex. resolve sample_crypto (\<lambda>_. Some []) (\<lambda>_. Inr interactive_config) (\<lambda>_. True) sample_cli = Inr st
    \<and> execd_start sample_crypto (\<lambda>_. Some []) (\<lambda>_. Inr \<lparr> profiles = [] \<rparr>) None st = Inr ex
    \<and> st_peer_uid st = 9 \<and> x_mode_ceiling ex = Interactive \<and> x_replay ex = replay_new"
proof -
  let ?resolved = "resolve sample_crypto (\<lambda>_. Some []) (\<lambda>_. Inr interactive_config) (\<lambda>_. True) sample_cli"
  have load: "load_config (\<lambda>_. Some []) (\<lambda>_. Inr interactive_config) (\<lambda>_. True) (a_config sample_cli)
      = Inr (Some interactive_config)"
    using sample_config_valid
    by (simp add: load_config_def sample_cli_def config_load_def config_from_toml_def interactive_config_def)
  then obtain st where st: "?resolved = Inr st" "st_peer_uid st = 9"
    by (simp add: resolve_def need_def session_source_def sample_cli_def)
  have "trust_from_str sample_crypto [] = Inr \<lparr> trust_keys = [] \<rparr>"
    by (simp add: trust_from_str_def str_lines_def)
  moreover have "from_utf8 [] = Some []"
    using utf8_valid_ascii [of "[]"] by (simp add: from_utf8_def str_of_bytes_def)
  ultimately obtain ex where ex: "execd_start sample_crypto (\<lambda>_. Some []) (\<lambda>_. Inr \<lparr> profiles = [] \<rparr>) None st = Inr ex"
    by (simp add: execd_start_def trust_load_def read_to_string_def allowlist_load_def
        allowlist_from_toml_def Let_def)
  have "x_mode_ceiling ex = Interactive \<and> x_replay ex = replay_new"
    using execd_ceiling_from_config [OF st(1) ex] load by (auto simp: interactive_config_def)
  then show ?thesis using st ex by blast
qed

text \<open>C29: the executor acts for the daemon only.  If serving an accepted connection runs an action,
  the peer had the configured uid, its frame body was at most 1 MiB, and the request in it was
  signed with the session key in force: the static key, or the key read from the published
  file for this very connection.  An unreadable key file, a foreign peer or a refused frame
  changes neither the guards nor the world.\<close>

theorem served_only_for_the_daemon:
  assumes "serve_accepted rc peer_uid session accepted (ex, w) = ((ex', w'), out)"
  shows "(w' = w \<and> x_replay ex' = x_replay ex \<and> x_rate ex' = x_rate ex)
    \<or> (\<exists>conn key body. accepted = Some conn \<and> c_peer_uid conn = Some peer_uid
        \<and> key_in_force session conn ex = Some key
        \<and> read_body frame_len (c_incoming conn) = Inr body \<and> length body \<le> MAX_FRAME_LEN
        \<and> (filter is_run (w_log w') \<noteq> filter is_run (w_log w) \<longrightarrow>
            (\<exists>env request. from_reader (e_envelope_codec (c_env conn)) body = Inr env
              \<and> verify_strict (e_crypto (c_env conn)) key (se_request env) (Signature (se_signature env))
              \<and> from_reader (e_request_codec (c_env conn)) (se_request env) = Inr request
              \<and> length (filter is_run (w_log w')) = length (filter is_run (w_log w)) + 1)))"
proof (cases rule: serve_accepted_cases [OF assms])
  case (2 conn key body response)
  have bound: "length body \<le> MAX_FRAME_LEN"
    using ipc_request_frames.body_bounded [OF 2(4)] .
  show ?thesis
  proof (cases "is_rejected response")
    case True
    then show ?thesis using 2 bound handle_runs [OF 2(5)] by blast
  next
    case False
    then have d: "dispatch (c_env conn) (c_now conn) (ex\<lparr> x_session_key := key \<rparr>) w body = ((ex', w'), Inr response)"
      using handle_cases [OF 2(5)] by metis
    have "length (filter is_run (w_log w')) = length (filter is_run (w_log w)) + 1"
      using d by (rule dispatch_InrE) (simp add: execute_log cgroup_gate_log snapshot_gate_runs is_run_def)
    moreover obtain request where "authenticate (c_env conn) (ex\<lparr> x_session_key := key \<rparr>) body = Inr request"
      using d by (rule dispatch_InrE)
    ultimately show ?thesis
      using 2(1-4) bound by (elim authenticate_ok) auto
  qed
qed simp

theorem served_only_for_the_daemon_witness:
  "w_log (snd (fst (serve_accepted (const_codec (rejected unknown_action ExecFailure ResponseEncodingFailed)) 7
      (Static (x_session_key sample_executor)) (Some (sample_conn 5 (be32 0) 0)) (sample_executor, sample_world)))) = []"
proof -
  let ?run = "serve_accepted (const_codec (rejected unknown_action ExecFailure ResponseEncodingFailed)) 7
      (Static (x_session_key sample_executor)) (Some (sample_conn 5 (be32 0) 0)) (sample_executor, sample_world)"
  obtain ex' w' out where run: "?run = ((ex', w'), out)" by (metis surj_pair)
  have "w' = sample_world"
    using served_only_for_the_daemon [OF run] by (auto simp: sample_conn_def)
  then show ?thesis using run by (simp add: sample_world_def)
qed

text \<open>C9: replay and rate protection survive session-key rotation and every change of the
  environment between connections.  Whatever connections are accepted at non-decreasing instants,
  among the requests that ran the sequence numbers of one session strictly increase, none ran
  twice, and no minute saw more runs than the configured total.\<close>

theorem serve_loop_no_replay_bounded_rate:
  assumes "x_replay ex = replay_new" and "x_rate ex = limiter_new limits" and "sorted (instants as)"
    and runs_def: "runs = loop_runs rc peer_uid session as (ex, w)"
  shows "sorted_wrt (<) (map (fst \<circ> snd) (filter (\<lambda>m. fst m = sid) (map snd runs)))
    \<and> distinct (map snd runs)
    \<and> in_span t MINUTE (map fst runs) \<le> unat (actions_per_minute limits)"
proof -
  obtain ms where sub: "subseq (map snd runs) (admitted exec_step (x_replay ex) ms)"
    using loop_replay [of rc peer_uid session as "(ex, w)"] runs_def by auto
  obtain xs where xs: "sorted (map fst xs)"
      "subseq (map fst runs) (map fst (snd (limiter_run (limiter_new limits) [] xs)))"
    using loop_rate [OF assms(3), of rc peer_uid session "(ex, w)"] runs_def assms(2) by auto
  have "in_span t MINUTE (map fst (snd (limiter_run (limiter_new limits) [] xs))) \<le> unat (actions_per_minute limits)"
    using limiter_run_bound [OF xs(1) refl] by blast
  then show ?thesis
    using in_span_subseq [OF xs(2), of t MINUTE]
      sorted_wrt_subseq [OF subseq_map [OF subseq_filter [OF sub]] exec_replay.admitted_increasing]
      distinct_subseq [OF sub exec_replay.admitted_distinct] by fastforce
qed

theorem serve_loop_no_replay_bounded_rate_witness:
  "let conns = [Some (sample_conn 7 (be32 0) 0), Some (sample_conn 7 (be32 0) 1)];
       runs = loop_runs (const_codec (rejected unknown_action ExecFailure ResponseEncodingFailed)) 7
         (Static (x_session_key sample_executor)) conns (sample_executor, sample_world) in
   length runs = 1 \<and> in_span 0 MINUTE (map fst runs) \<le> 20"
proof -
  let ?E = "sample_env sample_manifest"
  let ?rc = "const_codec (rejected unknown_action ExecFailure ResponseEncodingFailed) :: exec_response Codec"
  let ?session = "Static (x_session_key sample_executor)"
  let ?conns = "[Some (sample_conn 7 (be32 0) 0), Some (sample_conn 7 (be32 0) 1)]"
  define runs where "runs = loop_runs ?rc 7 ?session ?conns (sample_executor, sample_world)"
  have fresh: "x_replay sample_executor = replay_new" "x_rate sample_executor = limiter_new rate_limits_default"
    by (simp_all add: sample_executor_def executor_new_def)
  have all: "distinct (map snd runs) \<and> in_span 0 MINUTE (map fst runs) \<le> unat (actions_per_minute rate_limits_default)"
    using serve_loop_no_replay_bounded_rate [OF fresh _ runs_def, where t = 0]
    by (simp add: instants_def List.map_filter_simps sample_conn_def)
  have body: "read_body frame_len (be32 0) = Inr []"
    by (simp add: read_body_def read_exact_def frame_len_def of_be32_be32 Let_def)
  have conn: "key_in_force ?session (sample_conn 7 (be32 0) t) ex = Some (x_session_key ex)"
      "c_incoming (sample_conn 7 (be32 0) t) = be32 0" "c_env (sample_conn 7 (be32 0) t) = ?E"
    for t and ex :: Executor
    by (simp_all add: sample_conn_def key_in_force_def)
  have msg: "msg_of ?E ex [] = replay_msg sample_request" if "x_session_key ex = x_session_key sample_executor" for ex
    using that sample_authenticate [of sample_manifest "[]"] by (simp add: msg_of_def authenticate_def)
  let ?first = "serve_accepted ?rc 7 ?session (Some (sample_conn 7 (be32 0) 0)) (sample_executor, sample_world)"
  obtain ex' w' resp where h: "handle ?E 0 sample_executor sample_world [] = ((ex', w'), resp)" by (metis surj_pair)
  have first: "fst ?first = (ex', w')"
    using h body by (simp add: serve_accepted_def serve_one_def sample_conn_def split_beta Let_def)
  have "\<not> is_rejected resp" using h sample_completes by simp
  then have "filter is_run (w_log w') \<noteq> filter is_run (w_log sample_world)"
    using handle_runs [OF h] by simp
  then have "runs \<noteq> []"
    using first conn body by (simp add: runs_def run_of_def Let_def)
  moreover have "x_session_key ex' = x_session_key sample_executor"
    using handle_config [of ?E 0 sample_executor sample_world "[]"] h by (simp add: same_config_def)
  then have "set (map snd runs) \<subseteq> {replay_msg sample_request}"
    using first conn body msg by (auto simp: runs_def run_of_def Let_def)
  then have "length (map snd runs) \<le> 1"
    using all by (metis card_mono distinct_card finite.emptyI finite.insertI is_singletonI is_singleton_altdef)
  ultimately have "length runs = 1 \<and> in_span 0 MINUTE (map fst runs) \<le> 20"
    using all by (auto simp: rate_limits_default_def Suc_le_eq le_Suc_eq)
  then show ?thesis unfolding Let_def runs_def .
qed

end
