(* ===== verification/Audit_Log.thy ===== *)
theory Audit_Log
  imports Crypto_Lib Core_Types
begin

text \<open>
  The crate \<open>archangel-audit\<close>: the signed hash chain (\<open>entry.rs\<close>, \<open>key.rs\<close>), its writer (\<open>log.rs\<close>)
  and its verifier (\<open>verify.rs\<close>).  \<open>serde_json\<close> is a parameter.  Free-form texts (reasons, notes)
  are values of a type parameter, so that callers keep them structured.
\<close>

section \<open>Entries\<close>

datatype Decision = DecisionAllow | DecisionDeny | DecisionRequireApproval

datatype 't AuditEvent =
    Genesis (audit_public_key: string)
  | SessionStarted SessionId OperationMode string
  | SessionEnded SessionId 't
  | LlmRequest SessionId string string string
  | LlmResponse SessionId string bool
  | PolicyDecisionMade SessionId ActionId string Decision 't
  | ApprovalGranted SessionId ActionId string
  | ExecRequested SessionId ActionId string string
  | ExecCompleted SessionId ActionId "32 word" u64 string string
  | SnapshotTaken SessionId ActionId string
  | RollbackPerformed SessionId ActionId string
  | Note 't

record 't AuditRecord =
  ar_seq :: u64
  ar_timestamp_ms :: u64
  ar_prev_hash :: string
  ar_event :: "'t AuditEvent"

record 't AuditEntry =
  ae_record :: "'t AuditRecord"
  ae_signature :: string
  ae_entry_hash :: string

datatype CryptoMessage = SeedNot32 | PublicNot32 | InvalidPublicKey

datatype BreakReason =
    NotJson string
  | SeqMismatch u64
  | PrevHashMismatch
  | GenesisKeyMismatch
  | NotGenesis
  | SignatureFailed
  | EntryHashMismatch
  | SignatureNot64

datatype AuditError =
    AuditIo
  | AuditSerde string
  | AuditHex HexMessage
  | AuditCrypto CryptoMessage
  | ChainBroken u64 BreakReason
  | AuditEmpty

text \<open>\<open>serde_json\<close> for records and entries.\<close>

record 't AuditJson =
  record_to_vec :: "'t AuditRecord \<Rightarrow> (string, byte list) result"
  entry_to_vec :: "'t AuditEntry \<Rightarrow> (string, byte list) result"
  entry_from_str :: "string \<Rightarrow> (string, 't AuditEntry) result"

definition GENESIS_PREV_HASH :: "byte list" where
  "GENESIS_PREV_HASH = replicate 32 0"

definition canonical_bytes :: "'t AuditJson \<Rightarrow> 't AuditRecord \<Rightarrow> (AuditError, byte list) result" where
  "canonical_bytes J r = map_err AuditSerde (record_to_vec J r)"

definition chain_hash :: "Crypto \<Rightarrow> byte list \<Rightarrow> byte list \<Rightarrow> byte list" where
  "chain_hash C canonical signature = sha256 C (canonical @ signature)"

definition sha256_hex :: "Crypto \<Rightarrow> byte list \<Rightarrow> string" where
  "sha256_hex C content = audit_hex_encode (sha256 C content)"

definition genesis_prev_hash_hex :: string where
  "genesis_prev_hash_hex = audit_hex_encode GENESIS_PREV_HASH"

section \<open>Keys\<close>

record AuditKeypair =
  ak_signing :: SigningKey

definition from_secret_bytes :: "byte list \<Rightarrow> AuditKeypair" where
  "from_secret_bytes seed = \<lparr> ak_signing = SigningKey seed \<rparr>"

definition from_secret_hex :: "string \<Rightarrow> (AuditError, AuditKeypair) result" where
  "from_secret_hex seed_hex =
    bind_res (map_err AuditHex (audit_hex_decode seed_hex)) (\<lambda>raw.
    bind_res (ok_or (AuditCrypto SeedNot32) (to_array 32 raw)) (\<lambda>seed.
    Inr (from_secret_bytes seed)))"

definition audit_secret_bytes :: "AuditKeypair \<Rightarrow> SecretBytes" where
  "audit_secret_bytes kp = SecretBytes (sk_bytes (ak_signing kp))"

definition public_hex :: "Crypto \<Rightarrow> AuditKeypair \<Rightarrow> string" where
  "public_hex C kp = audit_hex_encode (vk_bytes (verifying_key C (ak_signing kp)))"

definition audit_sign :: "Crypto \<Rightarrow> AuditKeypair \<Rightarrow> byte list \<Rightarrow> byte list" where
  "audit_sign C kp message = sig_bytes (sign C (ak_signing kp) message)"

definition verifying_key_from_hex :: "Crypto \<Rightarrow> string \<Rightarrow> (AuditError, VerifyingKey) result" where
  "verifying_key_from_hex C hex =
    bind_res (map_err AuditHex (audit_hex_decode hex)) (\<lambda>raw.
    bind_res (ok_or (AuditCrypto PublicNot32) (to_array 32 raw)) (\<lambda>bytes.
    ok_or (AuditCrypto InvalidPublicKey) (vk_from_bytes C bytes)))"

definition seal ::
  "Crypto \<Rightarrow> 't AuditJson \<Rightarrow> 't AuditRecord \<Rightarrow> AuditKeypair \<Rightarrow> (AuditError, 't AuditEntry \<times> byte list) result"
where
  "seal C J record' keypair =
    bind_res (canonical_bytes J record') (\<lambda>canonical.
    let signature = audit_sign C keypair canonical;
        entry_hash = chain_hash C canonical signature in
    Inr (\<lparr> ae_record = record', ae_signature = audit_hex_encode signature,
           ae_entry_hash = audit_hex_encode entry_hash \<rparr>, entry_hash))"

section \<open>Writer\<close>

text \<open>\<open>fault\<close> says how a write to the sink goes: \<open>None\<close> if the whole line reached stable storage,
  \<open>Some n\<close> if the write failed after \<open>n\<close> bytes of it.\<close>

record AuditLog =
  al_sink :: "byte list"
  al_keypair :: AuditKeypair
  al_next_seq :: u64
  al_prev_hash_hex :: string

definition commit_line :: "byte list \<Rightarrow> byte list \<Rightarrow> nat option \<Rightarrow> byte list \<times> (AuditError, unit) result" where
  "commit_line sink line fault =
    (case fault of
       None \<Rightarrow> (sink @ line, Inr ())
     | Some n \<Rightarrow> (sink @ take n line, Inl AuditIo))"

definition audit_append ::
  "Crypto \<Rightarrow> 't AuditJson \<Rightarrow> u64 \<Rightarrow> nat option \<Rightarrow> AuditLog \<Rightarrow> 't AuditEvent
    \<Rightarrow> AuditLog \<times> (AuditError, unit) result"
where
  "audit_append C J now_ms fault log event =
    (let record' = \<lparr> ar_seq = al_next_seq log, ar_timestamp_ms = now_ms,
                     ar_prev_hash = al_prev_hash_hex log, ar_event = event \<rparr> in
     case seal C J record' (al_keypair log) of
       Inl e \<Rightarrow> (log, Inl e)
     | Inr (entry, _) \<Rightarrow>
        (case map_err AuditSerde (entry_to_vec J entry) of
           Inl e \<Rightarrow> (log, Inl e)
         | Inr body \<Rightarrow>
            (case commit_line (al_sink log) (body @ [0x0A]) fault of
               (sink, Inl e) \<Rightarrow> (log\<lparr> al_sink := sink \<rparr>, Inl e)
             | (sink, Inr _) \<Rightarrow>
                (log\<lparr> al_sink := sink, al_next_seq := saturating_add (al_next_seq log) 1,
                      al_prev_hash_hex := ae_entry_hash entry \<rparr>, Inr ()))))"

definition audit_note :: "Crypto \<Rightarrow> 't AuditJson \<Rightarrow> u64 \<Rightarrow> nat option \<Rightarrow> AuditLog \<Rightarrow> 't \<Rightarrow> AuditLog \<times> (AuditError, unit) result" where
  "audit_note C J now_ms fault log message = audit_append C J now_ms fault log (Note message)"

definition session_ended ::
  "Crypto \<Rightarrow> 't AuditJson \<Rightarrow> u64 \<Rightarrow> nat option \<Rightarrow> AuditLog \<Rightarrow> SessionId \<Rightarrow> 't \<Rightarrow> AuditLog \<times> (AuditError, unit) result"
where
  "session_ended C J now_ms fault log session_id reason = audit_append C J now_ms fault log (SessionEnded session_id reason)"

definition with_sink ::
  "Crypto \<Rightarrow> 't AuditJson \<Rightarrow> u64 \<Rightarrow> nat option \<Rightarrow> byte list \<Rightarrow> AuditKeypair \<Rightarrow> (AuditError, AuditLog) result"
where
  "with_sink C J now_ms fault sink keypair =
    (let log = \<lparr> al_sink = sink, al_keypair = keypair, al_next_seq = 0,
                 al_prev_hash_hex = genesis_prev_hash_hex \<rparr> in
     case audit_append C J now_ms fault log (Genesis (public_hex C keypair)) of
       (_, Inl e) \<Rightarrow> Inl e
     | (log', Inr _) \<Rightarrow> Inr log')"

section \<open>Verifier\<close>

record ChainHead =
  ch_entries :: u64
  ch_next_seq :: u64
  ch_head_hash_hex :: string

definition decode_sig :: "string \<Rightarrow> u64 \<Rightarrow> (AuditError, byte list) result" where
  "decode_sig signature_hex seq =
    bind_res (map_err AuditHex (audit_hex_decode signature_hex)) (\<lambda>raw.
    ok_or (ChainBroken seq SignatureNot64) (to_array 64 raw))"

definition check_genesis :: "Crypto \<Rightarrow> 't AuditEvent \<Rightarrow> VerifyingKey \<Rightarrow> (AuditError, unit) result" where
  "check_genesis C event expected_public_key =
    (case event of
       Genesis pk \<Rightarrow>
         bind_res (verifying_key_from_hex C pk) (\<lambda>declared.
         ensure (vk_bytes declared = vk_bytes expected_public_key) (ChainBroken 0 GenesisKeyMismatch))
     | _ \<Rightarrow> Inl (ChainBroken 0 NotGenesis))"

definition verify_entry ::
  "Crypto \<Rightarrow> 't AuditJson \<Rightarrow> 't AuditEntry \<Rightarrow> u64 \<Rightarrow> string \<Rightarrow> VerifyingKey \<Rightarrow> (AuditError, unit) result"
where
  "verify_entry C J entry expected_seq expected_prev expected_public_key =
    (let r = ae_record entry in
     bind_res (ensure (ar_seq r = expected_seq) (ChainBroken expected_seq (SeqMismatch (ar_seq r)))) (\<lambda>_.
     bind_res (ensure (ar_prev_hash r = expected_prev) (ChainBroken expected_seq PrevHashMismatch)) (\<lambda>_.
     bind_res (if expected_seq = 0 then check_genesis C (ar_event r) expected_public_key else Inr ()) (\<lambda>_.
     bind_res (canonical_bytes J r) (\<lambda>canonical.
     bind_res (decode_sig (ae_signature entry) expected_seq) (\<lambda>sig_bytes'.
     bind_res (ensure (verify_strict C expected_public_key canonical (Signature sig_bytes'))
       (ChainBroken expected_seq SignatureFailed)) (\<lambda>_.
     ensure (audit_hex_encode (chain_hash C canonical sig_bytes') = ae_entry_hash entry)
       (ChainBroken expected_seq EntryHashMismatch))))))))"

text \<open>\<open>BufRead::lines\<close>: the lines of the file, each of them an error if it is not UTF-8.\<close>

definition reader_lines :: "byte list \<Rightarrow> string option list" where
  "reader_lines data = map (\<lambda>l. from_utf8 (as_bytes l)) (str_lines (str_of_bytes data))"

definition verify_line ::
  "Crypto \<Rightarrow> 't AuditJson \<Rightarrow> VerifyingKey \<Rightarrow> string option \<Rightarrow> u64 \<times> string \<Rightarrow> (AuditError, u64 \<times> string) result"
where
  "verify_line C J expected_public_key line st =
    (let (expected_seq, chain_head) = st in
     bind_res (ok_or AuditIo line) (\<lambda>line.
     if trim line = [] then Inr st
     else
     bind_res (map_err (\<lambda>e. ChainBroken expected_seq (NotJson e)) (entry_from_str J line)) (\<lambda>entry.
     bind_res (verify_entry C J entry expected_seq chain_head expected_public_key) (\<lambda>_.
     bind_res (canonical_bytes J (ae_record entry)) (\<lambda>canonical.
     bind_res (decode_sig (ae_signature entry) expected_seq) (\<lambda>sig_bytes'.
     Inr (saturating_add expected_seq 1, audit_hex_encode (chain_hash C canonical sig_bytes'))))))))"

definition verify_chain ::
  "Crypto \<Rightarrow> 't AuditJson \<Rightarrow> byte list \<Rightarrow> VerifyingKey \<Rightarrow> (AuditError, ChainHead) result"
where
  "verify_chain C J data expected_public_key =
    bind_res (fold_res (verify_line C J expected_public_key) (reader_lines data) (0, genesis_prev_hash_hex)) (\<lambda>(seq, head).
    if seq = 0 then Inl AuditEmpty
    else Inr \<lparr> ch_entries = seq, ch_next_seq = seq, ch_head_hash_hex = head \<rparr>)"

section \<open>The chain as a list of entries\<close>

text \<open>What an accepted entry satisfies at position \<open>i\<close>, after an entry of hash \<open>prev\<close>.\<close>

definition sound_entry ::
  "Crypto \<Rightarrow> 't AuditJson \<Rightarrow> VerifyingKey \<Rightarrow> nat \<Rightarrow> string \<Rightarrow> 't AuditEntry \<Rightarrow> bool"
where
  "sound_entry C J vk i prev e \<longleftrightarrow>
    ar_seq (ae_record e) = of_nat i \<and> ar_prev_hash (ae_record e) = prev
    \<and> (i = 0 \<longrightarrow> (\<exists>pk d. ar_event (ae_record e) = Genesis pk \<and> verifying_key_from_hex C pk = Inr d
          \<and> vk_bytes d = vk_bytes vk))
    \<and> (\<exists>canonical sig. record_to_vec J (ae_record e) = Inr canonical
          \<and> audit_hex_decode (ae_signature e) = Inr sig \<and> length sig = 64
          \<and> verify_strict C vk canonical (Signature sig)
          \<and> ae_entry_hash e = audit_hex_encode (chain_hash C canonical sig))"

primrec chain_from ::
  "Crypto \<Rightarrow> 't AuditJson \<Rightarrow> VerifyingKey \<Rightarrow> nat \<Rightarrow> string \<Rightarrow> 't AuditEntry list \<Rightarrow> bool"
where
  "chain_from C J vk i prev [] = True"
| "chain_from C J vk i prev (e # es) =
    (sound_entry C J vk i prev e \<and> chain_from C J vk (Suc i) (ae_entry_hash e) es)"

definition end_hash :: "string \<Rightarrow> 't AuditEntry list \<Rightarrow> string" where
  "end_hash prev es = (if es = [] then prev else ae_entry_hash (last es))"

lemma end_hash_simps [simp]:
  "end_hash prev [] = prev"
  "end_hash prev (e # es) = end_hash (ae_entry_hash e) es"
  "end_hash prev (es @ [e]) = ae_entry_hash e"
  by (auto simp: end_hash_def)

lemma chain_from_append:
  "chain_from C J vk i prev (es @ fs) \<longleftrightarrow>
    chain_from C J vk i prev es \<and> chain_from C J vk (i + length es) (end_hash prev es) fs"
  by (induction es arbitrary: i prev) auto

text \<open>The entries of a file: blank lines are skipped, every other line must be UTF-8 and parse.\<close>

fun log_entries :: "'t AuditJson \<Rightarrow> string option list \<Rightarrow> 't AuditEntry list option" where
  "log_entries J [] = Some []"
| "log_entries J (None # ls) = None"
| "log_entries J (Some l # ls) =
    (if trim l = [] then log_entries J ls
     else case entry_from_str J l of
       Inl _ \<Rightarrow> None
     | Inr e \<Rightarrow> map_option (Cons e) (log_entries J ls))"

lemma length_log_entries: "log_entries J ls = Some es \<Longrightarrow> length es \<le> length ls"
  by (induction J ls arbitrary: es rule: log_entries.induct) (fastforce split: if_splits sum.splits)+

lemma log_entries_append:
  "log_entries J (ls @ ms) =
    (case log_entries J ls of
       None \<Rightarrow> None
     | Some es \<Rightarrow> (case log_entries J ms of None \<Rightarrow> None | Some fs \<Rightarrow> Some (es @ fs)))"
  by (induction J ls rule: log_entries.induct) (auto split: sum.splits option.splits)

lemma check_genesis_ok:
  "check_genesis C ev vk = Inr () \<longleftrightarrow>
    (\<exists>pk d. ev = Genesis pk \<and> verifying_key_from_hex C pk = Inr d \<and> vk_bytes d = vk_bytes vk)"
  by (cases ev) (auto simp: check_genesis_def bind_res_eq_Inr)

lemma verify_entry_ok:
  assumes "i < 2 ^ 64"
  shows "verify_entry C J e (of_nat i) prev vk = Inr () \<longleftrightarrow> sound_entry C J vk i prev e"
proof -
  have "(of_nat i :: u64) = 0 \<longleftrightarrow> i = 0"
    using assms by (auto simp: word_of_nat_eq_0_iff dest: nat_dvd_not_less)
  then show ?thesis
    unfolding verify_entry_def sound_entry_def Let_def
    by (auto simp: bind_res_eq_Inr check_genesis_ok canonical_bytes_def decode_sig_def)
qed

lemma saturating_Suc: "Suc i < 2 ^ 64 \<Longrightarrow> saturating_add (of_nat i :: u64) 1 = of_nat (Suc i)"
proof -
  assume "Suc i < 2 ^ 64"
  moreover from this have "unat (of_nat i :: u64) = i" by (simp add: unat_of_nat)
  ultimately show ?thesis by (simp add: saturating_add_def)
qed

lemma verify_lines_ok:
  assumes "i + length ls < 2 ^ 64"
  shows "fold_res (verify_line C J vk) ls (of_nat i, prev) = Inr st \<longleftrightarrow>
    (\<exists>es. log_entries J ls = Some es \<and> chain_from C J vk i prev es
        \<and> st = (of_nat (i + length es), end_hash prev es))"
  using assms
proof (induction J ls arbitrary: i prev rule: log_entries.induct)
  case (3 J l ls)
  show ?case
  proof (cases "trim l = []")
    case True
    then show ?thesis using 3 by (simp add: verify_line_def)
  next
    case False
    show ?thesis
    proof (cases "entry_from_str J l")
      case (Inl e)
      then show ?thesis using False by (simp add: verify_line_def)
    next
      case (Inr e)
      have step: "verify_line C J vk (Some l) (of_nat i, prev) = Inr st' \<longleftrightarrow>
          sound_entry C J vk i prev e \<and> st' = (of_nat (Suc i), ae_entry_hash e)" for st'
        using False Inr 3(3) verify_entry_ok [of i C J e prev vk] saturating_Suc [of i]
        by (auto simp: verify_line_def bind_res_eq_Inr sound_entry_def canonical_bytes_def decode_sig_def)
      have IH: "fold_res (verify_line C J vk) ls (of_nat (Suc i), ae_entry_hash e) = Inr st \<longleftrightarrow>
          (\<exists>es. log_entries J ls = Some es \<and> chain_from C J vk (Suc i) (ae_entry_hash e) es
            \<and> st = (of_nat (Suc i + length es), end_hash (ae_entry_hash e) es))"
        using 3(2) [OF False Inr, of "Suc i" "ae_entry_hash e"] 3(3) by (simp del: of_nat_Suc of_nat_add)
      have ent: "log_entries J (Some l # ls) = Some es \<longleftrightarrow> (\<exists>fs. es = e # fs \<and> log_entries J ls = Some fs)" for es
        using False Inr by auto
      have fold: "fold_res (verify_line C J vk) (Some l # ls) (of_nat i, prev) = Inr st \<longleftrightarrow>
          sound_entry C J vk i prev e
          \<and> fold_res (verify_line C J vk) ls (of_nat (Suc i), ae_entry_hash e) = Inr st"
        using step by (simp only: fold_res.simps bind_res_eq_Inr) blast
      show ?thesis
        unfolding fold ent IH by (auto simp del: of_nat_Suc of_nat_add)
    qed
  qed
qed (auto simp: verify_line_def)

lemma verify_chain_ok:
  assumes "length (reader_lines data) < 2 ^ 64"
  shows "verify_chain C J data vk = Inr head \<longleftrightarrow>
    (\<exists>es. log_entries J (reader_lines data) = Some es \<and> es \<noteq> []
        \<and> chain_from C J vk 0 genesis_prev_hash_hex es
        \<and> head = \<lparr> ch_entries = of_nat (length es), ch_next_seq = of_nat (length es),
                   ch_head_hash_hex = ae_entry_hash (last es) \<rparr>)"
proof -
  have zero: "(of_nat (length es) :: u64) = 0 \<longleftrightarrow> es = []" if "log_entries J (reader_lines data) = Some es" for es
    using length_log_entries [OF that] assms
    by (auto simp: word_of_nat_eq_0_iff dest!: dvd_imp_le)
  show ?thesis
    using verify_lines_ok [of 0 "reader_lines data" C J vk genesis_prev_hash_hex] assms zero
    by (auto simp: verify_chain_def bind_res_eq_Inr end_hash_def split: if_splits)
qed

section \<open>Writing keeps the chain\<close>

text \<open>What the log relies on in \<open>serde_json\<close>: an entry is written as one line of UTF-8 without raw
  line breaks (control characters are escaped) and reads back as itself.\<close>

definition json_ok :: "'t AuditJson \<Rightarrow> bool" where
  "json_ok J \<longleftrightarrow>
    (\<forall>e bs. entry_to_vec J e = Inr bs \<longrightarrow>
      utf8_valid bs \<and> 0x0A \<notin> set bs \<and> 0x0D \<notin> set bs \<and> trim (str_of_bytes bs) \<noteq> []
      \<and> entry_from_str J (str_of_bytes bs) = Inr e)"

lemma split_char_append_mid: "split_char c (s @ c # t) = split_char c s @ split_char c t"
  by (induction s) (auto split: list.splits)

lemma str_lines_closed_append:
  "str_lines ((s @ [CHR 0x0A]) @ t) = str_lines (s @ [CHR 0x0A]) @ str_lines t"
  using split_char_append_mid [of "CHR 0x0A" s t] split_char_append_mid [of "CHR 0x0A" s "[]"]
  by (simp add: str_lines_def Let_def butlast_append)

lemma str_lines_one:
  assumes "CHR 0x0A \<notin> set l" and "CHR 0x0D \<notin> set l"
  shows "str_lines (l @ [CHR 0x0A]) = [l]"
proof -
  have "strip_suffix [CHR 0x0D] l = None"
    using assms(2) by (cases l rule: rev_cases) (auto simp: strip_suffix_def strip_prefix_def)
  then show ?thesis
    using split_char_append_sep [OF assms(1), of "[]"] by (simp add: str_lines_def strip_cr_def)
qed

definition closed_sink :: "byte list \<Rightarrow> bool" where
  "closed_sink sink \<longleftrightarrow> sink = [] \<or> (\<exists>s. sink = s @ [0x0A])"

lemma str_newline: "str_of_bytes [0x0A] = [CHR 0x0A]"
  by (simp add: str_of_bytes_def char_of_byte_iff byte_of_char_def)

lemma reader_lines_append:
  assumes "closed_sink sink"
  shows "reader_lines (sink @ data) = reader_lines sink @ reader_lines data"
proof (cases "sink = []")
  case True
  then show ?thesis by (simp add: reader_lines_def str_lines_def str_of_bytes_def)
next
  case False
  then obtain s where "sink = s @ [0x0A]" using assms by (auto simp: closed_sink_def)
  then have "str_of_bytes sink = str_of_bytes s @ [CHR 0x0A]"
    by (simp add: str_newline)
  then show ?thesis
    using str_lines_closed_append [of "str_of_bytes s" "str_of_bytes data"]
    by (simp add: reader_lines_def)
qed

lemma reader_lines_entry:
  assumes "json_ok J" and "entry_to_vec J e = Inr bs"
  shows "reader_lines (bs @ [0x0A]) = [Some (str_of_bytes bs)]"
proof -
  from assms have bs: "utf8_valid bs" "0x0A \<notin> set bs" "0x0D \<notin> set bs" by (simp_all add: json_ok_def)
  have "CHR 0x0A \<notin> set (str_of_bytes bs)" "CHR 0x0D \<notin> set (str_of_bytes bs)"
    using bs(2,3) by (auto simp: str_of_bytes_def char_of_byte_iff byte_of_char_def dest!: sym [of "CHR 0x0A"] sym [of "CHR 0x0D"])
  then show ?thesis
    using bs(1) str_lines_one [of "str_of_bytes bs"]
    by (simp add: reader_lines_def str_newline from_utf8_def)
qed

definition log_wf ::
  "Crypto \<Rightarrow> 't AuditJson \<Rightarrow> AuditKeypair \<Rightarrow> AuditLog \<Rightarrow> 't AuditEntry list \<Rightarrow> bool"
where
  "log_wf C J kp log es \<longleftrightarrow>
    closed_sink (al_sink log) \<and> al_keypair log = kp
    \<and> log_entries J (reader_lines (al_sink log)) = Some es \<and> length (reader_lines (al_sink log)) = length es
    \<and> chain_from C J (verifying_key C (ak_signing kp)) 0 genesis_prev_hash_hex es
    \<and> al_next_seq log = of_nat (length es) \<and> al_prev_hash_hex log = end_hash genesis_prev_hash_hex es"

lemma public_hex_reads_back:
  "crypto_ok C \<Longrightarrow> verifying_key_from_hex C (public_hex C kp) = Inr (verifying_key C (ak_signing kp))"
  by (simp add: verifying_key_from_hex_def public_hex_def crypto_ok_def audit_hex.decode_encode to_array_def)

lemma seal_sound:
  assumes "crypto_ok C" and "seal C J r kp = Inr (e, h)" and "ar_seq r = of_nat i" "ar_prev_hash r = prev"
    and "i = 0 \<Longrightarrow> ar_event r = Genesis (public_hex C kp)"
  shows "sound_entry C J (verifying_key C (ak_signing kp)) i prev e \<and> ae_record e = r"
  using assms public_hex_reads_back [OF assms(1), of kp]
  by (auto simp: seal_def bind_res_eq_Inr canonical_bytes_def sound_entry_def audit_sign_def crypto_ok_def
      audit_hex.decode_encode Let_def)

lemma append_ok:
  assumes "audit_append C J now None log ev = (log', Inr ())"
  obtains e h bs where "seal C J \<lparr> ar_seq = al_next_seq log, ar_timestamp_ms = now,
        ar_prev_hash = al_prev_hash_hex log, ar_event = ev \<rparr> (al_keypair log) = Inr (e, h)"
    "entry_to_vec J e = Inr bs"
    "log' = log\<lparr> al_sink := al_sink log @ bs @ [0x0A], al_next_seq := saturating_add (al_next_seq log) 1,
                 al_prev_hash_hex := ae_entry_hash e \<rparr>"
  using assms by (auto simp: audit_append_def commit_line_def Let_def map_err_eq_Inr split: sum.splits prod.splits)

lemma append_keeps_wf:
  assumes "crypto_ok C" and "json_ok J" and wf: "log_wf C J kp log es" and "Suc (length es) < 2 ^ 64"
    and app: "audit_append C J now None log ev = (log', Inr ())"
    and gen: "es = [] \<Longrightarrow> ev = Genesis (public_hex C kp)"
  shows "\<exists>e. log_wf C J kp log' (es @ [e]) \<and> ar_event (ae_record e) = ev"
proof -
  from app obtain e h bs where e: "seal C J \<lparr> ar_seq = al_next_seq log, ar_timestamp_ms = now,
        ar_prev_hash = al_prev_hash_hex log, ar_event = ev \<rparr> (al_keypair log) = Inr (e, h)"
      and bs: "entry_to_vec J e = Inr bs"
      and log': "log' = log\<lparr> al_sink := al_sink log @ bs @ [0x0A],
        al_next_seq := saturating_add (al_next_seq log) 1, al_prev_hash_hex := ae_entry_hash e \<rparr>"
    by (rule append_ok)
  have sound: "sound_entry C J (verifying_key C (ak_signing kp)) (length es) (end_hash genesis_prev_hash_hex es) e
      \<and> ar_event (ae_record e) = ev"
    using seal_sound [OF assms(1) e, of "length es" "end_hash genesis_prev_hash_hex es"] wf gen
    by (simp add: log_wf_def)
  have lines: "reader_lines (al_sink log') = reader_lines (al_sink log) @ [Some (str_of_bytes bs)]"
    using wf log' reader_lines_append [of "al_sink log" "bs @ [0x0A]"] reader_lines_entry [OF assms(2) bs]
    by (simp add: log_wf_def)
  have "log_entries J [Some (str_of_bytes bs)] = Some [e]"
    using assms(2) bs by (simp add: json_ok_def)
  moreover have "closed_sink (al_sink log')" using log' by (simp add: closed_sink_def)
  ultimately have "log_wf C J kp log' (es @ [e])"
    using wf log' lines sound saturating_Suc [OF assms(4)]
    by (simp add: log_wf_def log_entries_append chain_from_append)
  with sound show ?thesis by blast
qed

text \<open>A log that was opened on an empty file, and the appends after it.\<close>

definition append_all ::
  "Crypto \<Rightarrow> 't AuditJson \<Rightarrow> (u64 \<times> 't AuditEvent) list \<Rightarrow> AuditLog \<Rightarrow> (AuditError, AuditLog) result"
where
  "append_all C J evs log =
    fold_res (\<lambda>(now, ev) log. case audit_append C J now None log ev of (log', r) \<Rightarrow> map_ok (\<lambda>_. log') r) evs log"

lemma append_all_wf:
  assumes "crypto_ok C" and "json_ok J" and "log_wf C J kp log es" and "es \<noteq> []"
    and "length es + length evs < 2 ^ 64" and "append_all C J evs log = Inr log'"
  shows "\<exists>fs. log_wf C J kp log' (es @ fs) \<and> map (ar_event \<circ> ae_record) fs = map snd evs"
  using assms(3-)
proof (induction evs arbitrary: log es)
  case (Cons ev evs)
  obtain now event where ev: "ev = (now, event)" by (cases ev)
  obtain log1 where step: "audit_append C J now None log event = (log1, Inr ())"
      and rest: "append_all C J evs log1 = Inr log'"
    using Cons.prems(4) ev
    by (cases "audit_append C J now None log event") (auto simp: append_all_def bind_res_eq_Inr map_ok_eq_Inr)
  obtain e where e: "log_wf C J kp log1 (es @ [e])" "ar_event (ae_record e) = event"
    using append_keeps_wf [OF assms(1,2) Cons.prems(1) _ step] Cons.prems(2,3) by auto
  then obtain fs where "log_wf C J kp log' ((es @ [e]) @ fs)" "map (ar_event \<circ> ae_record) fs = map snd evs"
    using Cons.IH [OF e(1) _ _ rest] Cons.prems(3) by (auto simp: comp_def)
  then show ?case using e(2) ev by (intro exI [of _ "e # fs"]) (simp add: comp_def)
qed (simp add: append_all_def)

lemma with_sink_wf:
  assumes "crypto_ok C" and "json_ok J" and "with_sink C J now None [] kp = Inr log"
  shows "\<exists>e. log_wf C J kp log [e] \<and> ar_event (ae_record e) = Genesis (public_hex C kp)"
proof -
  let ?log = "\<lparr> al_sink = [], al_keypair = kp, al_next_seq = 0, al_prev_hash_hex = genesis_prev_hash_hex \<rparr>"
  have "log_wf C J kp ?log []"
    by (simp add: log_wf_def closed_sink_def reader_lines_def str_lines_def str_of_bytes_def)
  moreover have "audit_append C J now None ?log (Genesis (public_hex C kp)) = (log, Inr ())"
    using assms(3) by (auto simp: with_sink_def Let_def split: prod.splits sum.splits)
  ultimately have "\<exists>e. log_wf C J kp log ([] @ [e]) \<and> ar_event (ae_record e) = Genesis (public_hex C kp)"
    by (intro append_keeps_wf [OF assms(1,2)]) simp_all
  then show ?thesis by simp
qed

lemma appended_log_verifies:
  assumes "crypto_ok C" and "json_ok J" and "with_sink C J now None [] kp = Inr log0"
    and "append_all C J evs log0 = Inr log" and "Suc (length evs) < 2 ^ 64"
  shows "verify_chain C J (al_sink log) (verifying_key C (ak_signing kp)) =
      Inr \<lparr> ch_entries = of_nat (Suc (length evs)), ch_next_seq = al_next_seq log,
            ch_head_hash_hex = al_prev_hash_hex log \<rparr>
    \<and> (\<exists>es. log_entries J (reader_lines (al_sink log)) = Some es
        \<and> map (ar_event \<circ> ae_record) es = Genesis (public_hex C kp) # map snd evs)"
proof -
  obtain g where g: "log_wf C J kp log0 [g]" "ar_event (ae_record g) = Genesis (public_hex C kp)"
    using with_sink_wf [OF assms(1-3)] by blast
  then obtain fs where wf: "log_wf C J kp log (g # fs)" and fs: "map (ar_event \<circ> ae_record) fs = map snd evs"
    using append_all_wf [OF assms(1,2) g(1) _ _ assms(4)] assms(5) by auto
  have len: "length fs = length evs" using fs map_eq_imp_length_eq by blast
  have "length (reader_lines (al_sink log)) < 2 ^ 64" using wf len assms(5) by (simp add: log_wf_def)
  then show ?thesis
    using wf fs g(2) len
    unfolding verify_chain_ok [OF \<open>length (reader_lines (al_sink log)) < 2 ^ 64\<close>]
    by (auto simp: log_wf_def end_hash_def)
qed

section \<open>The head commits to the log\<close>

text \<open>The byte strings that the verifier hashes for a file.\<close>

definition hashed :: "'t AuditJson \<Rightarrow> 't AuditEntry list \<Rightarrow> byte list set" where
  "hashed J es =
    {canonical @ sig | e canonical sig. e \<in> set es \<and> record_to_vec J (ae_record e) = Inr canonical
       \<and> audit_hex_decode (ae_signature e) = Inr sig}"

definition canonical_inj :: "'t AuditJson \<Rightarrow> bool" where
  "canonical_inj J \<longleftrightarrow> (\<forall>r r' b. record_to_vec J r = Inr b \<longrightarrow> record_to_vec J r' = Inr b \<longrightarrow> r = r')"

lemma hashed_append [simp]: "hashed J (es @ fs) = hashed J es \<union> hashed J fs"
  by (auto simp: hashed_def)

lemma same_hash_same_record:
  assumes "sound_entry C J vk i p e" and "sound_entry C J vk' j q f" and "ae_entry_hash e = ae_entry_hash f"
    and "canonical_inj J" and "inj_on (sha256 C) (hashed J [e] \<union> hashed J [f])"
  shows "ae_record e = ae_record f \<and> audit_hex_decode (ae_signature e) = audit_hex_decode (ae_signature f)"
proof -
  from assms(1) obtain c s where e: "record_to_vec J (ae_record e) = Inr c" "audit_hex_decode (ae_signature e) = Inr s"
      "length s = 64" "ae_entry_hash e = audit_hex_encode (chain_hash C c s)"
    by (auto simp: sound_entry_def)
  from assms(2) obtain d t where f: "record_to_vec J (ae_record f) = Inr d" "audit_hex_decode (ae_signature f) = Inr t"
      "length t = 64" "ae_entry_hash f = audit_hex_encode (chain_hash C d t)"
    by (auto simp: sound_entry_def)
  have "sha256 C (c @ s) = sha256 C (d @ t)"
    using assms(3) e(4) f(4) by (simp add: chain_hash_def audit_hex.encode_mem_iff)
  moreover have "c @ s \<in> hashed J [e]" "d @ t \<in> hashed J [f]" using e f by (auto simp: hashed_def)
  ultimately have "c @ s = d @ t" using assms(5) by (meson Un_iff inj_on_eq_iff)
  then have "c = d" "s = t" using e(3) f(3) by auto
  then show ?thesis using e f assms(4) by (auto simp: canonical_inj_def)
qed

lemma chain_commits:
  assumes "chain_from C J vk 0 p es" and "chain_from C J vk' 0 q fs" and "es \<noteq> []" "fs \<noteq> []"
    and "length es < 2 ^ 64" "length fs < 2 ^ 64"
    and "ae_entry_hash (last es) = ae_entry_hash (last fs)"
    and inj: "canonical_inj J" "inj_on (sha256 C) (hashed J es \<union> hashed J fs)"
  shows "map ae_record es = map ae_record fs"
  using assms(1-7) inj(2)
proof (induction es arbitrary: fs rule: rev_induct)
  case (snoc e es)
  obtain gs f where fs: "fs = gs @ [f]" using snoc.prems(4) by (metis append_butlast_last_id)
  have e: "sound_entry C J vk (length es) (end_hash p es) e" "chain_from C J vk 0 p es"
    and f: "sound_entry C J vk' (length gs) (end_hash q gs) f" "chain_from C J vk' 0 q gs"
    using snoc.prems(1,2) fs by (simp_all add: chain_from_append)
  have r: "ae_record e = ae_record f"
    using same_hash_same_record [OF e(1) f(1) _ inj(1)] snoc.prems(7,8) fs
    by (auto intro: inj_on_subset)
  have "(of_nat (length es) :: u64) = of_nat (length gs)"
    using e(1) f(1) r by (simp add: sound_entry_def)
  then have len: "length es = length gs"
    using snoc.prems(5,6) fs by (auto simp: word_of_nat_eq_iff take_bit_nat_eq_self)
  have prev: "end_hash p es = end_hash q gs" using e(1) f(1) r by (simp add: sound_entry_def)
  show ?case
  proof (cases "es = []")
    case True
    then show ?thesis using len r fs by simp
  next
    case False
    then have ne: "gs \<noteq> []" using len by auto
    have "map ae_record es = map ae_record gs"
    proof (rule snoc.IH [OF e(2) f(2) False ne])
      show "ae_entry_hash (last es) = ae_entry_hash (last gs)"
        using prev False ne by (simp add: end_hash_def)
      show "inj_on (sha256 C) (hashed J es \<union> hashed J gs)"
        using snoc.prems(8) fs by (auto intro: inj_on_subset)
    qed (use snoc.prems(5,6) fs in auto)
    then show ?thesis using r fs by simp
  qed
qed simp

section \<open>A sample log\<close>

definition sample_keypair :: AuditKeypair where
  "sample_keypair = from_secret_bytes [7]"

definition sample_genesis :: "unit AuditRecord" where
  "sample_genesis = \<lparr> ar_seq = 0, ar_timestamp_ms = 5, ar_prev_hash = genesis_prev_hash_hex,
     ar_event = Genesis (public_hex sample_crypto sample_keypair) \<rparr>"

definition sample_entry :: "unit AuditEntry" where
  "sample_entry = \<lparr> ae_record = sample_genesis,
     ae_signature = audit_hex_encode (audit_sign sample_crypto sample_keypair [1]),
     ae_entry_hash = audit_hex_encode (chain_hash sample_crypto [1] (audit_sign sample_crypto sample_keypair [1])) \<rparr>"

definition sample_json :: "unit AuditJson" where
  "sample_json =
    \<lparr> record_to_vec = (\<lambda>r. if r = sample_genesis then Inr [1] else Inl ''unsupported''),
      entry_to_vec = (\<lambda>e. if e = sample_entry then Inr (as_bytes ''x'') else Inl ''unsupported''),
      entry_from_str = (\<lambda>s. if s = ''x'' then Inr sample_entry else Inl ''malformed'') \<rparr>"

definition sample_log :: AuditLog where
  "sample_log = \<lparr> al_sink = as_bytes ''x'' @ [0x0A], al_keypair = sample_keypair, al_next_seq = 1,
     al_prev_hash_hex = ae_entry_hash sample_entry \<rparr>"

lemma sample_json_ok: "json_ok sample_json"
proof -
  have "trim ''x'' = ''x''" by (rule trim_plain) (simp add: plain_char_def)
  moreover have "as_bytes ''x'' = [0x78]" by (simp add: as_bytes_def byte_of_char_def)
  moreover have "utf8_valid [0x78]" by (rule utf8_valid_ascii) simp
  moreover have "str_of_bytes [0x78] = ''x''" by (simp add: str_of_bytes_def char_of_byte_iff byte_of_char_def)
  ultimately show ?thesis by (simp add: json_ok_def sample_json_def)
qed

lemma sample_log_opened: "with_sink sample_crypto sample_json 5 None [] sample_keypair = Inr sample_log"
  by (simp add: with_sink_def audit_append_def seal_def canonical_bytes_def sample_json_def sample_genesis_def
      sample_entry_def commit_line_def sample_log_def saturating_add_def Let_def)

lemma sample_log_lines: "length (reader_lines (al_sink sample_log)) = 1"
  and sample_log_verifies: "is_ok (verify_chain sample_crypto sample_json (al_sink sample_log)
    (verifying_key sample_crypto (ak_signing sample_keypair)))"
proof -
  obtain e where wf: "log_wf sample_crypto sample_json sample_keypair sample_log [e]"
    using with_sink_wf [OF sample_crypto_ok sample_json_ok sample_log_opened] by blast
  then show lines: "length (reader_lines (al_sink sample_log)) = 1" by (simp add: log_wf_def)
  then have "length (reader_lines (al_sink sample_log)) < 2 ^ 64" by simp
  then show "is_ok (verify_chain sample_crypto sample_json (al_sink sample_log)
      (verifying_key sample_crypto (ak_signing sample_keypair)))"
    using wf by (auto simp: is_ok_iff verify_chain_ok log_wf_def)
qed

section \<open>Properties\<close>

text \<open>What is written verifies.  A log opened on an empty file and extended by any events verifies
  under the public key of its keypair, with one entry per event after the genesis entry; the
  verifier reads back exactly the recorded events in order, and its head is the writer's.\<close>

theorem written_log_verifies:
  assumes "crypto_ok C" and "json_ok J" and "with_sink C J now None [] kp = Inr log0"
    and "append_all C J evs log0 = Inr log" and "Suc (length evs) < 2 ^ 64"
  shows "verify_chain C J (al_sink log) (verifying_key C (ak_signing kp)) =
      Inr \<lparr> ch_entries = of_nat (Suc (length evs)), ch_next_seq = al_next_seq log,
            ch_head_hash_hex = al_prev_hash_hex log \<rparr>
    \<and> (\<exists>es. log_entries J (reader_lines (al_sink log)) = Some es
        \<and> map (ar_event \<circ> ae_record) es = Genesis (public_hex C kp) # map snd evs)"
  using appended_log_verifies [OF assms] .

theorem written_log_verifies_witness:
  "verify_chain sample_crypto sample_json (al_sink sample_log) (verifying_key sample_crypto (ak_signing sample_keypair))
    = Inr \<lparr> ch_entries = 1, ch_next_seq = 1, ch_head_hash_hex = ae_entry_hash sample_entry \<rparr>"
  using written_log_verifies [OF sample_crypto_ok sample_json_ok sample_log_opened, of "[]" sample_log]
  by (simp add: append_all_def sample_log_def)

text \<open>C12: what verifies is a signed chain.  For a file of fewer than 2^64 lines, verification succeeds
  exactly when its non-blank lines parse as entries numbered consecutively from zero, the first
  one pins the key, each carries the hash of its predecessor and of itself, and each is signed
  with the pinned key over its canonical bytes; the result is the length and the last hash.\<close>

theorem verified_iff_signed_chain:
  assumes "length (reader_lines data) < 2 ^ 64"
  shows "verify_chain C J data vk = Inr head \<longleftrightarrow>
    (\<exists>es. log_entries J (reader_lines data) = Some es \<and> es \<noteq> []
      \<and> (\<forall>i < length es. sound_entry C J vk i
            (if i = 0 then genesis_prev_hash_hex else ae_entry_hash (es ! (i - 1))) (es ! i))
      \<and> head = \<lparr> ch_entries = of_nat (length es), ch_next_seq = of_nat (length es),
                 ch_head_hash_hex = ae_entry_hash (last es) \<rparr>)"
proof -
  have "chain_from C J vk k prev es \<longleftrightarrow>
      (\<forall>i < length es. sound_entry C J vk (k + i) (if i = 0 then prev else ae_entry_hash (es ! (i - 1))) (es ! i))"
    for k prev es
  proof (induction es arbitrary: k prev)
    case (Cons e es)
    have "(\<forall>i < Suc (length es). P i) \<longleftrightarrow> P 0 \<and> (\<forall>i < length es. P (Suc i))" for P
      using less_Suc_eq_0_disj by auto
    then show ?case using Cons.IH [of "Suc k" "ae_entry_hash e"] by (simp add: nth_Cons')
  qed simp
  from this [of 0] show ?thesis unfolding verify_chain_ok [OF assms] by simp
qed

theorem verified_iff_signed_chain_witness:
  "\<exists>e. log_entries sample_json (reader_lines (al_sink sample_log)) = Some [e]
    \<and> sound_entry sample_crypto sample_json (verifying_key sample_crypto (ak_signing sample_keypair)) 0
        genesis_prev_hash_hex e"
proof -
  have n: "length (reader_lines (al_sink sample_log)) < 2 ^ 64" using sample_log_lines by simp
  obtain head where v: "verify_chain sample_crypto sample_json (al_sink sample_log)
      (verifying_key sample_crypto (ak_signing sample_keypair)) = Inr head"
    using sample_log_verifies by (auto simp: is_ok_iff)
  obtain es where es: "log_entries sample_json (reader_lines (al_sink sample_log)) = Some es" "es \<noteq> []"
      "\<forall>i < length es. sound_entry sample_crypto sample_json (verifying_key sample_crypto (ak_signing sample_keypair)) i
        (if i = 0 then genesis_prev_hash_hex else ae_entry_hash (es ! (i - 1))) (es ! i)"
    using iffD1 [OF verified_iff_signed_chain [OF n] v] by blast
  moreover from this have "length es = 1"
    using length_log_entries [OF es(1)] sample_log_lines by (cases es) auto
  ultimately show ?thesis by (auto simp: length_Suc_conv)
qed

text \<open>C20: the head hash commits to the whole log.  If two files verify (under whatever keys) with the
  same head hash, canonical bytes determine a record, and SHA-256 has no collision among the
  byte strings hashed for the two files, then they contain the same records in the same order:
  with a head hash kept elsewhere, no edit, reordering, insertion or removal goes unnoticed.\<close>

theorem head_hash_commits:
  assumes "verify_chain C J data vk = Inr head" and "verify_chain C J data' vk' = Inr head'"
    and "ch_head_hash_hex head = ch_head_hash_hex head'"
    and "length (reader_lines data) < 2 ^ 64" "length (reader_lines data') < 2 ^ 64"
    and "canonical_inj J"
    and "log_entries J (reader_lines data) = Some es" "log_entries J (reader_lines data') = Some es'"
    and "inj_on (sha256 C) (hashed J es \<union> hashed J es')"
  shows "map ae_record es = map ae_record es'"
proof -
  have chain: "es \<noteq> []" "chain_from C J vk 0 genesis_prev_hash_hex es" "ch_head_hash_hex head = ae_entry_hash (last es)"
    using assms(1) unfolding verify_chain_ok [OF assms(4)] assms(7) by auto
  have chain': "es' \<noteq> []" "chain_from C J vk' 0 genesis_prev_hash_hex es'"
      "ch_head_hash_hex head' = ae_entry_hash (last es')"
    using assms(2) unfolding verify_chain_ok [OF assms(5)] assms(8) by auto
  have len: "length es < 2 ^ 64" "length es' < 2 ^ 64"
    using length_log_entries assms(4,5,7,8) by (meson le_less_trans)+
  have "ae_entry_hash (last es) = ae_entry_hash (last es')"
    using assms(3) chain(3) chain'(3) by simp
  then show ?thesis
    by (rule chain_commits [OF chain(2) chain'(2) chain(1) chain'(1) len _ assms(6,9)])
qed

lemma sample_log_blank:
  "reader_lines (al_sink sample_log @ [0x0A]) = reader_lines (al_sink sample_log) @ [Some []]"
proof -
  have "closed_sink (al_sink sample_log)" by (simp add: closed_sink_def sample_log_def)
  moreover have "utf8_valid []" by (rule utf8_valid_ascii) simp
  then have "reader_lines [0x0A] = [Some []]"
    using str_lines_one [of "[]"] by (simp add: reader_lines_def str_newline from_utf8_def as_bytes_def)
      (simp add: str_of_bytes_def)
  ultimately show ?thesis by (simp add: reader_lines_append)
qed

theorem head_hash_commits_witness:
  "\<exists>es es'. log_entries sample_json (reader_lines (al_sink sample_log)) = Some es
    \<and> log_entries sample_json (reader_lines (al_sink sample_log @ [0x0A])) = Some es'
    \<and> es \<noteq> [] \<and> map ae_record es = map ae_record es'"
proof -
  let ?vk = "verifying_key sample_crypto (ak_signing sample_keypair)"
  obtain e where wf: "log_wf sample_crypto sample_json sample_keypair sample_log [e]"
    using with_sink_wf [OF sample_crypto_ok sample_json_ok sample_log_opened] by blast
  then have es: "log_entries sample_json (reader_lines (al_sink sample_log)) = Some [e]"
      "chain_from sample_crypto sample_json ?vk 0 genesis_prev_hash_hex [e]"
    by (simp_all add: log_wf_def)
  then have es': "log_entries sample_json (reader_lines (al_sink sample_log @ [0x0A])) = Some [e]"
    by (simp add: sample_log_blank log_entries_append)
  have n: "length (reader_lines (al_sink sample_log)) < 2 ^ 64"
      "length (reader_lines (al_sink sample_log @ [0x0A])) < 2 ^ 64"
    using sample_log_lines by (simp_all add: sample_log_blank)
  let ?head = "\<lparr> ch_entries = of_nat (length [e]), ch_next_seq = of_nat (length [e]), ch_head_hash_hex = ae_entry_hash (last [e]) \<rparr>"
  have "verify_chain sample_crypto sample_json (al_sink sample_log) ?vk = Inr ?head"
    "verify_chain sample_crypto sample_json (al_sink sample_log @ [0x0A]) ?vk = Inr ?head"
    unfolding verify_chain_ok [OF n(1)] verify_chain_ok [OF n(2)] using es es' by blast+
  moreover have "canonical_inj sample_json" by (auto simp: canonical_inj_def sample_json_def split: if_splits)
  moreover have "inj_on (sha256 sample_crypto) (hashed sample_json [e] \<union> hashed sample_json [e])"
    by (auto simp: inj_on_def hashed_def)
  ultimately have "map ae_record [e] = map ae_record [e]"
    using head_hash_commits [OF _ _ refl n _ es(1) es'] by blast
  then show ?thesis using es(1) es' by auto
qed

text \<open>A log that lost its last entries still verifies: removing whole trailing lines leaves a valid
  chain, so truncation shows only against a head hash kept elsewhere.\<close>

theorem truncated_log_verifies:
  assumes "verify_chain C J (front @ rest) vk = Inr head" and "length (reader_lines (front @ rest)) < 2 ^ 64"
    and "closed_sink front" and "log_entries J (reader_lines front) \<noteq> Some []"
  shows "is_ok (verify_chain C J front vk)"
proof -
  have lines: "reader_lines (front @ rest) = reader_lines front @ reader_lines rest"
    by (rule reader_lines_append [OF assms(3)])
  obtain es where es: "log_entries J (reader_lines front @ reader_lines rest) = Some es"
      "chain_from C J vk 0 genesis_prev_hash_hex es"
    using assms(1) unfolding verify_chain_ok [OF assms(2)] lines by auto
  then obtain fs gs where fs: "log_entries J (reader_lines front) = Some fs" "es = fs @ gs"
    by (auto simp: log_entries_append split: option.splits)
  then have "chain_from C J vk 0 genesis_prev_hash_hex fs" "fs \<noteq> []"
    using es(2) assms(4) by (auto simp: chain_from_append)
  moreover have "length (reader_lines front) < 2 ^ 64" using assms(2) lines by simp
  ultimately show ?thesis using fs(1) by (auto simp: is_ok_iff verify_chain_ok)
qed

end
