(* ===== verification/Orchestrator.thy ===== *)
theory Orchestrator
  imports Execd_Server Audit_Log Prompt "HOL-Library.AList"
begin

text \<open>
  The daemon's pipeline: sessions (\<open>archangeld/src/session.rs\<close>) and the orchestrator
  (\<open>archangeld/src/orchestrator.rs\<close>).  \<open>OrchEnv\<close> gathers what one call sees of the outside: the
  libraries, the model backend, the executor's socket, the bundle files, and for this call the
  clock readings, the random bytes, and how the writes to the audit file go (timestamp and fault
  of the append that writes entry \<open>n\<close>).  The \<open>HashMap\<close> of pending approvals is an association
  list.  \<open>o_trace\<close> is not in the code: it records, in order, the events that reached the audit log
  and the frames handed to the executor.
\<close>

section \<open>Sessions\<close>

record Session =
  ses_id :: SessionId
  ses_signing_key :: SigningKey
  ses_mode :: OperationMode
  ses_profile :: string
  ses_seq :: u64

definition session_new :: "byte list \<Rightarrow> SigningKey \<Rightarrow> OperationMode \<Rightarrow> string \<Rightarrow> Session" where
  "session_new rnd key mode prof =
    \<lparr> ses_id = SessionId (fill_bytes 16 rnd), ses_signing_key = key, ses_mode = mode, ses_profile = prof, ses_seq = 0 \<rparr>"

definition session_verifying_key :: "Crypto \<Rightarrow> Session \<Rightarrow> VerifyingKey" where
  "session_verifying_key C s = verifying_key C (ses_signing_key s)"

definition sign_exec_request ::
  "Crypto \<Rightarrow> ExecRequest Codec \<Rightarrow> byte list \<Rightarrow> u64 \<Rightarrow> Session \<Rightarrow> ActionId \<Rightarrow> string \<Rightarrow> (string \<times> string) list
    \<Rightarrow> RiskLevel \<Rightarrow> bool \<Rightarrow> Session \<times> (IpcError, SignedEnvelope) result"
where
  "sign_exec_request C rc rnd issued_ms s action_id exec_name args' risk read_only =
    (let s1 = s\<lparr> ses_seq := saturating_add (ses_seq s) 1 \<rparr>;
         request = \<lparr> rq_session_id = ses_id s1, rq_action_id = action_id, rq_seq = ses_seq s1,
           rq_nonce = fill_bytes 16 rnd, rq_issued_ms = issued_ms, rq_profile = ses_profile s1,
           rq_mode = ses_mode s1, rq_exec_name = exec_name, rq_args = args', rq_declared_risk = risk,
           rq_declared_read_only = read_only \<rparr> in
     (s1, envelope_seal C rc request (ses_signing_key s1)))"

section \<open>Outcomes\<close>

datatype LlmError =
    InvalidConfig string
  | LlmTransport string
  | LlmStatus u16 string
  | ResponseTooLarge nat
  | LlmDecode string

datatype OrchestratorError =
    OLlm LlmError
  | OAudit AuditError
  | OIpc IpcError
  | OTransport TransportError

datatype AuditText =
    CanaryTokenLeaked
  | ContractViolated ResponseError
  | ModelReason string PolicyDecision
  | StageReason string ExecFormatError
  | ExecutorRejected RejectStage HandlerReason
  | TwoPersonUnsatisfied string

datatype OutcomeReason =
    WhyContract ResponseError
  | WhyBundle ExecFormatError
  | TooManyPending
  | WhyPolicy PolicyDecision
  | WhyApproval ApprovalReason
  | UnknownApproval
  | DigestMismatch
  | NeedsTwoOperators
  | OperatorRejected string
  | WhyExecutor HandlerReason
  | PipelineError OrchestratorError
  | ApprovalError OrchestratorError

datatype TaskOutcome =
    Asked string
  | Refused string
  | Denied string OutcomeReason
  | ApprovalRequired (ar_approval_id: string) (ar_action_digest: string) (ar_exec: string)
      (ar_reason: OutcomeReason) (ar_preview: string) (ar_two_person: bool)
  | Compromised
  | Executed string "32 word" string string

definition stage_debug :: "RejectStage \<Rightarrow> string" where
  "stage_debug s =
    (case s of
       PeerUnauthorized \<Rightarrow> ''PeerUnauthorized'' | StageSignatureInvalid \<Rightarrow> ''SignatureInvalid'' | Replay \<Rightarrow> ''Replay''
     | BundleUnverified \<Rightarrow> ''BundleUnverified'' | DenylistHit \<Rightarrow> ''DenylistHit'' | NotAllowlisted' \<Rightarrow> ''NotAllowlisted''
     | StageArgRejected \<Rightarrow> ''ArgRejected'' | NotReadOnly \<Rightarrow> ''NotReadOnly''
     | SnapshotUnavailable \<Rightarrow> ''SnapshotUnavailable'' | SandboxRejected \<Rightarrow> ''SandboxRejected''
     | RateLimited \<Rightarrow> ''RateLimited'' | ExecFailure \<Rightarrow> ''ExecFailure'')"

definition risk_debug :: "RiskLevel \<Rightarrow> string" where
  "risk_debug r = (case r of Low \<Rightarrow> ''Low'' | Medium \<Rightarrow> ''Medium'' | High \<Rightarrow> ''High'' | Critical \<Rightarrow> ''Critical'')"

section \<open>State\<close>

definition APPROVAL_TTL_MS :: u64 where
  "APPROVAL_TTL_MS = 5 * 60 * 1000"

definition MAX_PENDING :: nat where
  "MAX_PENDING = 64"

record Pending =
  pd_frame :: "byte list"
  pd_action_id :: ActionId
  pd_exec :: string
  pd_digest :: string
  pd_args_sha256 :: string
  pd_two_person :: bool
  pd_created_ms :: u64

datatype OrchEffect = Logged "AuditText AuditEvent" | SentFrame "byte list"

record Orchestrator =
  o_policy :: PolicyEngine
  o_trust :: OperatorTrust
  o_bundle_dir :: string
  o_audit :: AuditLog
  o_session :: Session
  o_secrets :: SessionSecrets
  o_model :: string
  o_max_tokens :: u32
  o_tools :: "ToolSpec list"
  o_pending :: "(string \<times> Pending) list"
  o_trace :: "OrchEffect list"

record ('g, 's, 'r, 'f) OrchEnv =
  oe_crypto :: Crypto
  oe_request_codec :: "ExecRequest Codec"
  oe_envelope_codec :: "SignedEnvelope Codec"
  oe_toml :: "string \<Rightarrow> (string, ExecManifest) result"
  oe_read :: "string \<Rightarrow> byte list option"
  oe_regex :: regex_new
  oe_match :: "('g, 's, 'r) MatchLib"
  oe_audit_json :: "AuditText AuditJson"
  oe_json_action :: "string \<Rightarrow> (string, RawAction) result"
  oe_args_json :: "(string \<times> string) list \<Rightarrow> (string, byte list) result"
  oe_debug_args :: "(string \<times> string) list \<Rightarrow> string"
  oe_backend_name :: string
  oe_complete :: "'f CompletionRequest \<Rightarrow> (LlmError, CompletionResponse) result"
  oe_send :: "byte list \<Rightarrow> (TransportError, exec_response) result"
  oe_stamp :: "u64 \<Rightarrow> u64"
  oe_fault :: "u64 \<Rightarrow> nat option"
  oe_action_rnd :: "byte list"
  oe_nonce_rnd :: "byte list"
  oe_approval_rnd :: "byte list"
  oe_issued_ms :: u64
  oe_prune_ms :: u64
  oe_created_ms :: u64

definition orchestrator_new ::
  "byte list \<Rightarrow> byte list \<Rightarrow> PolicyEngine \<Rightarrow> OperatorTrust \<Rightarrow> string \<Rightarrow> AuditLog \<Rightarrow> Session \<Rightarrow> string \<Rightarrow> u32
    \<Rightarrow> ToolSpec list \<Rightarrow> Orchestrator"
where
  "orchestrator_new rnd1 rnd2 policy trust bundle_dir audit session model max_tokens' tools =
    \<lparr> o_policy = policy, o_trust = trust, o_bundle_dir = bundle_dir, o_audit = audit, o_session = session,
      o_secrets = secrets_generate rnd1 rnd2, o_model = model, o_max_tokens = max_tokens', o_tools = tools,
      o_pending = [], o_trace = [] \<rparr>"

definition random_id :: "byte list \<Rightarrow> string" where
  "random_id rnd = concat (map push_hex_byte (fill_bytes 16 rnd))"

definition args_bytes :: "('g, 's, 'r, 'f) OrchEnv \<Rightarrow> (string \<times> string) list \<Rightarrow> byte list" where
  "args_bytes E a = (case oe_args_json E a of Inr bs \<Rightarrow> bs | Inl _ \<Rightarrow> [])"

definition action_digest ::
  "('g, 's, 'r, 'f) OrchEnv \<Rightarrow> string \<Rightarrow> (string \<times> string) list \<Rightarrow> string \<Rightarrow> string"
where
  "action_digest E exec args' payload_sha256 =
    sha256_hex (oe_crypto E) (as_bytes exec @ [0] @ args_bytes E args' @ [0] @ as_bytes payload_sha256)"

definition builder :: "Orchestrator \<Rightarrow> PromptBuilder" where
  "builder o' = \<lparr> pb_secrets = o_secrets o', pb_mode = ses_mode (o_session o') \<rparr>"

section \<open>Auditing\<close>

definition audit_event ::
  "('g, 's, 'r, 'f) OrchEnv \<Rightarrow> Orchestrator \<Rightarrow> AuditText AuditEvent \<Rightarrow> Orchestrator \<times> (OrchestratorError, unit) result"
where
  "audit_event E o' ev =
    (let log = o_audit o';
         (log', r) = audit_append (oe_crypto E) (oe_audit_json E) (oe_stamp E (al_next_seq log))
           (oe_fault E (al_next_seq log)) log ev in
     (o'\<lparr> o_audit := log', o_trace := o_trace o' @ (if is_ok r then [Logged ev] else []) \<rparr>, map_err OAudit r))"

text \<open>\<open>self.audit.append(ev)?\<close> followed by the rest of the function.\<close>

definition audited ::
  "('g, 's, 'r, 'f) OrchEnv \<Rightarrow> Orchestrator \<Rightarrow> AuditText AuditEvent
    \<Rightarrow> (Orchestrator \<Rightarrow> Orchestrator \<times> (OrchestratorError, 'a) result) \<Rightarrow> Orchestrator \<times> (OrchestratorError, 'a) result"
where
  "audited E o' ev k =
    (case audit_event E o' ev of
       (o1, Inl e) \<Rightarrow> (o1, Inl e)
     | (o1, Inr _) \<Rightarrow> k o1)"

definition orch_start :: "('g, 's, 'r, 'f) OrchEnv \<Rightarrow> Orchestrator \<Rightarrow> Orchestrator \<times> (OrchestratorError, unit) result" where
  "orch_start E o' =
    (let s = o_session o' in
     audited E o' (SessionStarted (ses_id s) (ses_mode s) (ses_profile s)) (\<lambda>o1. (o1, Inr ())))"

definition deny ::
  "('g, 's, 'r, 'f) OrchEnv \<Rightarrow> Orchestrator \<Rightarrow> SessionId \<Rightarrow> ActionId \<Rightarrow> string \<Rightarrow> string \<Rightarrow> ExecFormatError
    \<Rightarrow> Orchestrator \<times> (OrchestratorError, TaskOutcome) result"
where
  "deny E o' sid action_id exec stage reason =
    audited E o' (PolicyDecisionMade sid action_id exec DecisionDeny (StageReason stage reason)) (\<lambda>o1.
    (o1, Inr (Denied stage (WhyBundle reason))))"

definition record_outcome ::
  "('g, 's, 'r, 'f) OrchEnv \<Rightarrow> Orchestrator \<Rightarrow> SessionId \<Rightarrow> ActionId \<Rightarrow> string \<Rightarrow> exec_response
    \<Rightarrow> Orchestrator \<times> (OrchestratorError, TaskOutcome) result"
where
  "record_outcome E o' sid action_id exec resp =
    (case rs_outcome resp of
       Completed exit_code' duration stdout stderr _ snap \<Rightarrow>
         let complete = (\<lambda>o1.
           audited E o1 (ExecCompleted sid action_id exit_code' duration
             (sha256_hex (oe_crypto E) (as_bytes stdout)) (sha256_hex (oe_crypto E) (as_bytes stderr))) (\<lambda>o2.
           (o2, Inr (Executed exec exit_code' stdout stderr)))) in
         (case snap of
            Some snap_id \<Rightarrow> audited E o' (SnapshotTaken sid action_id snap_id) complete
          | None \<Rightarrow> complete o')
     | Rejected stage reason \<Rightarrow>
         audited E o' (Note (ExecutorRejected stage reason)) (\<lambda>o1.
         (o1, Inr (Denied (''executor:'' @ stage_debug stage) (WhyExecutor reason)))))"

definition orch_dispatch ::
  "('g, 's, 'r, 'f) OrchEnv \<Rightarrow> Orchestrator \<Rightarrow> SessionId \<Rightarrow> ActionId \<Rightarrow> string \<Rightarrow> string \<Rightarrow> byte list
    \<Rightarrow> Orchestrator \<times> (OrchestratorError, TaskOutcome) result"
where
  "orch_dispatch E o' sid action_id exec args_sha256 frame =
    audited E o' (ExecRequested sid action_id exec args_sha256) (\<lambda>o1.
    let o2 = o1\<lparr> o_trace := o_trace o1 @ [SentFrame frame] \<rparr> in
    case oe_send E frame of
      Inl e \<Rightarrow> (o2, Inl (OTransport e))
    | Inr resp \<Rightarrow> record_outcome E o2 sid action_id exec resp)"

section \<open>Pending approvals\<close>

definition saturating_sub :: "u64 \<Rightarrow> u64 \<Rightarrow> u64" where
  "saturating_sub a b = (if b \<le> a then a - b else 0)"

definition prune_pending :: "u64 \<Rightarrow> Orchestrator \<Rightarrow> Orchestrator" where
  "prune_pending now o' =
    (let cutoff = saturating_sub now APPROVAL_TTL_MS in
     o'\<lparr> o_pending := filter (\<lambda>(_, p). pd_created_ms p \<ge> cutoff) (o_pending o') \<rparr>)"

definition approve ::
  "('g, 's, 'r, 'f) OrchEnv \<Rightarrow> Orchestrator \<Rightarrow> string \<Rightarrow> string \<Rightarrow> Orchestrator \<times> (OrchestratorError, TaskOutcome) result"
where
  "approve E o' approval_id digest =
    (let o1 = prune_pending (oe_prune_ms E) o' in
     case map_of (o_pending o1) approval_id of
       None \<Rightarrow> (o1, Inr (Denied ''approval'' UnknownApproval))
     | Some p \<Rightarrow>
        let o2 = o1\<lparr> o_pending := AList.delete approval_id (o_pending o1) \<rparr>;
            sid = ses_id (o_session o2) in
        if pd_digest p \<noteq> digest then (o2, Inr (Denied ''approval'' DigestMismatch))
        else if pd_two_person p then
          audited E o2 (Note (TwoPersonUnsatisfied (pd_exec p))) (\<lambda>o3.
          (o3, Inr (Denied ''two-person'' NeedsTwoOperators)))
        else
          audited E o2 (ApprovalGranted sid (pd_action_id p) ''operator'') (\<lambda>o3.
          orch_dispatch E o3 sid (pd_action_id p) (pd_exec p) (pd_args_sha256 p) (pd_frame p)))"

definition reject :: "Orchestrator \<Rightarrow> string \<Rightarrow> Orchestrator \<times> TaskOutcome" where
  "reject o' approval_id =
    (case map_of (o_pending o') approval_id of
       Some p \<Rightarrow> (o'\<lparr> o_pending := AList.delete approval_id (o_pending o') \<rparr>, Denied ''rejected'' (OperatorRejected (pd_exec p)))
     | None \<Rightarrow> (o', Denied ''approval'' UnknownApproval))"

section \<open>Invoking a tool\<close>

definition evaluate_policy ::
  "('g, 's, 'r) MatchLib \<Rightarrow> PolicyEngine \<Rightarrow> string \<Rightarrow> OperationMode \<Rightarrow> string \<Rightarrow> VerifiedBundle \<Rightarrow> PolicyDecision"
where
  "evaluate_policy L policy prof mode exec vb =
    (let m = vb_manifest vb;
         intents = map (\<lambda>p. \<lparr> pi_path = p, pi_access = Read \<rparr>) (ss_allowed_paths_ro (sandbox m))
                 @ map (\<lambda>p. \<lparr> pi_path = p, pi_access = Write \<rparr>) (ss_allowed_paths_rw (sandbox m)) in
     evaluate L policy \<lparr> pr_profile = prof, pr_mode = mode, pr_exec = exec, pr_risk = m_risk (meta m),
       pr_commands = [p_inline (payload m)], pr_paths = intents \<rparr>)"

definition audit_decision :: "PolicyDecision \<Rightarrow> Decision" where
  "audit_decision d =
    (case d of Allow \<Rightarrow> DecisionAllow | RequireApproval _ _ \<Rightarrow> DecisionRequireApproval
     | Deny _ _ _ \<Rightarrow> DecisionDeny | NotAllowed _ \<Rightarrow> DecisionDeny)"

definition preview_text :: "('g, 's, 'r, 'f) OrchEnv \<Rightarrow> string \<Rightarrow> VerifiedBundle \<Rightarrow> (string \<times> string) list \<Rightarrow> string" where
  "preview_text E exec vb args' =
    ''exec='' @ exec @ '' risk='' @ risk_debug (m_risk (meta (vb_manifest vb)))
    @ '' read_only='' @ (if m_read_only (meta (vb_manifest vb)) then ''true'' else ''false'')
    @ '' args='' @ oe_debug_args E args' @ nl @ ''payload: '' @ p_inline (payload (vb_manifest vb))"

definition await_approval ::
  "('g, 's, 'r, 'f) OrchEnv \<Rightarrow> Orchestrator \<Rightarrow> ActionId \<Rightarrow> string \<Rightarrow> (string \<times> string) list \<Rightarrow> VerifiedBundle
    \<Rightarrow> ApprovalReason \<Rightarrow> bool \<Rightarrow> byte list \<Rightarrow> Orchestrator \<times> (OrchestratorError, TaskOutcome) result"
where
  "await_approval E o' action_id exec args' vb reason two_person frame =
    (let o1 = prune_pending (oe_prune_ms E) o' in
     if length (o_pending o1) \<ge> MAX_PENDING then (o1, Inr (Denied ''approval'' TooManyPending))
     else
     let approval_id = random_id (oe_approval_rnd E);
         digest = action_digest E exec args' (p_sha256 (payload (vb_manifest vb)));
         p = \<lparr> pd_frame = frame, pd_action_id = action_id, pd_exec = exec, pd_digest = digest,
               pd_args_sha256 = sha256_hex (oe_crypto E) (args_bytes E args'), pd_two_person = two_person,
               pd_created_ms = oe_created_ms E \<rparr> in
     (o1\<lparr> o_pending := AList.update approval_id p (o_pending o1) \<rparr>,
      Inr (ApprovalRequired approval_id digest exec (WhyApproval reason) (preview_text E exec vb args') two_person)))"

text \<open>Signing comes before the decision is acted on: an approved action must be exactly the one signed.\<close>

definition sign_and_route ::
  "('g, 's, 'r, 'f) OrchEnv \<Rightarrow> Orchestrator \<Rightarrow> SessionId \<Rightarrow> ActionId \<Rightarrow> string \<Rightarrow> (string \<times> string) list \<Rightarrow> VerifiedBundle
    \<Rightarrow> PolicyDecision \<Rightarrow> Orchestrator \<times> (OrchestratorError, TaskOutcome) result"
where
  "sign_and_route E o' sid action_id exec args' vb decision =
    (let (session, sealed) = sign_exec_request (oe_crypto E) (oe_request_codec E) (oe_nonce_rnd E) (oe_issued_ms E)
           (o_session o') action_id exec args' (m_risk (meta (vb_manifest vb))) (m_read_only (meta (vb_manifest vb)));
         o1 = o'\<lparr> o_session := session \<rparr> in
     case bind_res sealed (to_frame (oe_envelope_codec E)) of
       Inl e \<Rightarrow> (o1, Inl (OIpc e))
     | Inr frame \<Rightarrow>
       (case decision of
          Allow \<Rightarrow> orch_dispatch E o1 sid action_id exec (sha256_hex (oe_crypto E) (args_bytes E args')) frame
        | RequireApproval why two_person \<Rightarrow> await_approval E o1 action_id exec args' vb why two_person frame
        | Deny _ _ _ \<Rightarrow> (o1, Inr (Denied ''policy'' (WhyPolicy decision)))
        | NotAllowed _ \<Rightarrow> (o1, Inr (Denied ''policy'' (WhyPolicy decision)))))"

definition invoke ::
  "('g, 's, 'r, 'f) OrchEnv \<Rightarrow> Orchestrator \<Rightarrow> string \<Rightarrow> (string \<times> string) list \<Rightarrow> string
    \<Rightarrow> Orchestrator \<times> (OrchestratorError, TaskOutcome) result"
where
  "invoke E o' exec args' reason =
    (let sid = ses_id (o_session o');
         action_id = ActionId (fill_bytes 16 (oe_action_rnd E));
         exec_path = path_join (o_bundle_dir o') (exec @ ''.exec'');
         sig_path = path_join (o_bundle_dir o') (exec @ ''.exec.sig'') in
     case bundle_load (oe_crypto E) (oe_toml E) (oe_read E) exec_path sig_path (o_trust o') of
       Inl e \<Rightarrow> deny E o' sid action_id exec ''bundle'' e
     | Inr vb \<Rightarrow>
    (case validate_args (oe_regex E) (vb_manifest vb) args' of
       Inl e \<Rightarrow> deny E o' sid action_id exec ''args'' e
     | Inr _ \<Rightarrow>
       let decision = evaluate_policy (oe_match E) (o_policy o') (ses_profile (o_session o')) (ses_mode (o_session o')) exec vb in
       audited E o' (PolicyDecisionMade sid action_id exec (audit_decision decision) (ModelReason reason decision)) (\<lambda>o1.
       sign_and_route E o1 sid action_id exec args' vb decision)))"

section \<open>Running a task\<close>

definition prompt_digest :: "'f CompletionRequest \<Rightarrow> string" where
  "prompt_digest request =
    unwrap_or [] (cr_system request) @ concat (map (\<lambda>m. nl @ msg_content m) (cr_messages request))"

definition run_task ::
  "('g, 's, 'r, 'f) OrchEnv \<Rightarrow> Orchestrator \<Rightarrow> string \<Rightarrow> (string \<times> string) list
    \<Rightarrow> Orchestrator \<times> (OrchestratorError, TaskOutcome) result"
where
  "run_task E o' task untrusted =
    (let b = builder o';
         request = prompt_build b (o_model o') (o_max_tokens o') task untrusted (o_tools o');
         sid = ses_id (o_session o') in
     audited E o' (LlmRequest sid (oe_backend_name E) (o_model o')
       (sha256_hex (oe_crypto E) (as_bytes (prompt_digest request)))) (\<lambda>o1.
     case oe_complete E request of
       Inl e \<Rightarrow> (o1, Inl (OLlm e))
     | Inr reply \<Rightarrow>
       let compromised = response_is_compromised b (cp_text reply) in
       audited E o1 (LlmResponse sid (sha256_hex (oe_crypto E) (as_bytes (cp_text reply))) compromised) (\<lambda>o2.
       if compromised then
         audited E o2 (SessionEnded sid CanaryTokenLeaked) (\<lambda>o3. (o3, Inr Compromised))
       else
       (case parse_model_response (oe_json_action E) (cp_text reply) b of
          Inr (Ask question) \<Rightarrow> (o2, Inr (Asked question))
        | Inr (Refuse reason) \<Rightarrow> (o2, Inr (Refused reason))
        | Inr (Invoke exec args' reason) \<Rightarrow> invoke E o2 exec args' reason
        | Inl CanaryLeaked \<Rightarrow> (o2, Inr Compromised)
        | Inl e \<Rightarrow> audited E o2 (Note (ContractViolated e)) (\<lambda>o3. (o3, Inr (Denied ''model-contract'' (WhyContract e))))))))"

section \<open>Effects of the parts\<close>

text \<open>Nothing but the log and the trace, and the trace only by further events.\<close>

definition same_setup :: "Orchestrator \<Rightarrow> Orchestrator \<Rightarrow> bool" where
  "same_setup a b \<longleftrightarrow>
    o_policy a = o_policy b \<and> o_trust a = o_trust b \<and> o_bundle_dir a = o_bundle_dir b
    \<and> o_secrets a = o_secrets b \<and> o_model a = o_model b \<and> o_max_tokens a = o_max_tokens b \<and> o_tools a = o_tools b"

text \<open>As long as every append that fails wrote nothing, the log is extended by exactly the events that were logged.\<close>

definition writes ::
  "('g, 's, 'r, 'f) OrchEnv \<Rightarrow> AuditText AuditEvent list \<Rightarrow> AuditLog \<Rightarrow> AuditLog \<Rightarrow> bool"
where
  "writes E evs la lb \<longleftrightarrow>
    ((\<forall>n. oe_fault E n \<in> {None, Some 0}) \<longrightarrow>
      (\<exists>ts. length ts = length evs \<and> append_all (oe_crypto E) (oe_audit_json E) (zip ts evs) la = Inr lb))"

lemma writes_Nil [simp]: "writes E [] la la"
  by (simp add: writes_def append_all_def)

lemma writes_append:
  assumes "writes E evs la lb" and "writes E fvs lb lc"
  shows "writes E (evs @ fvs) la lc"
  unfolding writes_def
proof
  assume "\<forall>n. oe_fault E n \<in> {None, Some 0}"
  then obtain ts us where ts: "length ts = length evs" "append_all (oe_crypto E) (oe_audit_json E) (zip ts evs) la = Inr lb"
      and us: "length us = length fvs" "append_all (oe_crypto E) (oe_audit_json E) (zip us fvs) lb = Inr lc"
    using assms by (auto simp: writes_def)
  then show "\<exists>ts. length ts = length (evs @ fvs)
      \<and> append_all (oe_crypto E) (oe_audit_json E) (zip ts (evs @ fvs)) la = Inr lc"
    by (intro exI [of _ "ts @ us"]) (simp add: append_all_def fold_res_append)
qed

definition logs_only :: "('g, 's, 'r, 'f) OrchEnv \<Rightarrow> Orchestrator \<Rightarrow> Orchestrator \<Rightarrow> bool" where
  "logs_only E a b \<longleftrightarrow>
    same_setup a b \<and> o_session a = o_session b \<and> o_pending a = o_pending b
    \<and> (\<exists>evs. o_trace b = o_trace a @ map Logged evs \<and> writes E evs (o_audit a) (o_audit b))"

lemma logs_only_refl [simp]: "logs_only E a a"
  by (auto simp: logs_only_def same_setup_def intro!: exI [of _ "[]"])

lemma logs_only_trans: "logs_only E a b \<Longrightarrow> logs_only E b c \<Longrightarrow> logs_only E a c"
  unfolding logs_only_def same_setup_def by (elim conjE exE) (auto intro: writes_append exI [of _ "e @ f" for e f])

lemma audit_event_effect:
  assumes "audit_event E o' ev = (o1, r)"
  shows "logs_only E o' o1" and "r = Inr () \<Longrightarrow> o_trace o1 = o_trace o' @ [Logged ev]"
proof -
  let ?app = "audit_append (oe_crypto E) (oe_audit_json E) (oe_stamp E (al_next_seq (o_audit o')))"
  obtain log' q where app: "?app (oe_fault E (al_next_seq (o_audit o'))) (o_audit o') ev = (log', q)" by (metis surj_pair)
  then have o1: "o1 = o'\<lparr> o_audit := log', o_trace := o_trace o' @ (if is_ok q then [Logged ev] else []) \<rparr>"
      "r = map_err OAudit q"
    using assms by (auto simp: audit_event_def Let_def)
  have "writes E (if is_ok q then [ev] else []) (o_audit o') log'"
    unfolding writes_def
  proof
    assume "\<forall>n. oe_fault E n \<in> {None, Some 0}"
    then have fault: "oe_fault E (al_next_seq (o_audit o')) \<in> {None, Some 0}" by blast
    then have "log' = o_audit o'" if "\<not> is_ok q"
      using that app by (auto simp: audit_append_def commit_line_def Let_def split: sum.splits prod.splits)
    moreover have "?app None (o_audit o') ev = (log', q)" if "is_ok q"
      using that app fault by (auto simp: audit_append_def commit_line_def Let_def is_ok_iff split: sum.splits prod.splits)
    ultimately show "\<exists>ts. length ts = length (if is_ok q then [ev] else [])
        \<and> append_all (oe_crypto E) (oe_audit_json E) (zip ts (if is_ok q then [ev] else [])) (o_audit o') = Inr log'"
      by (auto simp: append_all_def is_ok_iff intro!: exI [of _ "[oe_stamp E (al_next_seq (o_audit o'))]"])
  qed
  then show "logs_only E o' o1"
    unfolding logs_only_def by (intro conjI exI [of _ "if is_ok q then [ev] else []"]) (simp_all add: o1 same_setup_def)
  show "r = Inr () \<Longrightarrow> o_trace o1 = o_trace o' @ [Logged ev]"
    using o1 by (cases q) auto
qed

lemma audited_cases:
  assumes "audited E o' ev k = (o2, r)"
  obtains (failed) e where "logs_only E o' o2" "r = Inl (OAudit e)"
  | (went_on) o1 where "audit_event E o' ev = (o1, Inr ())" "logs_only E o' o1"
      "o_trace o1 = o_trace o' @ [Logged ev]" "k o1 = (o2, r)"
proof -
  obtain o1 q where q: "audit_event E o' ev = (o1, q)" by (metis surj_pair)
  note eff = audit_event_effect [OF q]
  show thesis
  proof (cases q)
    case (Inl e)
    moreover from this q obtain a where "e = OAudit a" by (auto simp: audit_event_def Let_def split_beta map_err_eq_Inl)
    ultimately show thesis using assms q eff failed by (auto simp: audited_def)
  next
    case (Inr u)
    then show thesis using assms q eff went_on by (auto simp: audited_def)
  qed
qed

lemma record_outcome_logs_only:
  assumes "record_outcome E o' sid action_id exec resp = (o2, r)"
  shows "logs_only E o' o2"
proof (cases "rs_outcome resp")
  case (Rejected stage reason)
  then have "audited E o' (Note (ExecutorRejected stage reason))
      (\<lambda>o1. (o1, Inr (Denied (''executor:'' @ stage_debug stage) (WhyExecutor reason)))) = (o2, r)"
    using assms by (simp add: record_outcome_def)
  then show ?thesis by (rule audited_cases) auto
next
  case (Completed code dur stdout stderr trunc snap)
  let ?complete = "\<lambda>o1. audited E o1 (ExecCompleted sid action_id code dur
      (sha256_hex (oe_crypto E) (as_bytes stdout)) (sha256_hex (oe_crypto E) (as_bytes stderr)))
      (\<lambda>o2. (o2, Inr (Executed exec code stdout stderr)))"
  have complete: "logs_only E o1 o2" if "?complete o1 = (o2, r)" for o1
    using that by (rule audited_cases) auto
  have "(case snap of Some snap_id \<Rightarrow> audited E o' (SnapshotTaken sid action_id snap_id) ?complete
      | None \<Rightarrow> ?complete o') = (o2, r)"
    using assms Completed by (simp add: record_outcome_def Let_def)
  then show ?thesis
  proof (cases snap)
    case None
    then show ?thesis using complete \<open>(case snap of Some _ \<Rightarrow> _ | None \<Rightarrow> _) = _\<close> by simp
  next
    case (Some i)
    then have "audited E o' (SnapshotTaken sid action_id i) ?complete = (o2, r)"
      using \<open>(case snap of Some _ \<Rightarrow> _ | None \<Rightarrow> _) = _\<close> by simp
    then show ?thesis by (rule audited_cases) (auto intro: complete logs_only_trans)
  qed
qed

text \<open>A call that hands over exactly \<open>frame\<close>, right after recording the request for it.\<close>

definition sends :: "('g, 's, 'r, 'f) OrchEnv \<Rightarrow> Orchestrator \<Rightarrow> Orchestrator \<Rightarrow> SessionId \<Rightarrow> ActionId \<Rightarrow> string \<Rightarrow> string \<Rightarrow> byte list \<Rightarrow> bool" where
  "sends E a b sid action_id exec sha frame \<longleftrightarrow>
    same_setup a b \<and> o_session a = o_session b \<and> o_pending a = o_pending b
    \<and> (\<exists>pre post. o_trace b = o_trace a @ map Logged pre
        @ [Logged (ExecRequested sid action_id exec sha), SentFrame frame] @ map Logged post
      \<and> writes E (pre @ [ExecRequested sid action_id exec sha] @ post) (o_audit a) (o_audit b))"

lemma sends_trans:
  assumes "logs_only E a b" and "sends E b c sid aid exec sha frame"
  shows "sends E a c sid aid exec sha frame"
proof -
  from assms obtain evs pre post where "o_trace b = o_trace a @ map Logged evs" "writes E evs (o_audit a) (o_audit b)"
      "o_trace c = o_trace b @ map Logged pre @ [Logged (ExecRequested sid aid exec sha), SentFrame frame] @ map Logged post"
      "writes E (pre @ [ExecRequested sid aid exec sha] @ post) (o_audit b) (o_audit c)"
    by (auto simp: logs_only_def sends_def)
  then have "\<exists>pre post. o_trace c = o_trace a @ map Logged pre
        @ [Logged (ExecRequested sid aid exec sha), SentFrame frame] @ map Logged post
      \<and> writes E (pre @ [ExecRequested sid aid exec sha] @ post) (o_audit a) (o_audit c)"
    using writes_append by (intro exI [of _ "evs @ pre"] exI [of _ post]) fastforce
  then show ?thesis using assms by (simp add: sends_def logs_only_def same_setup_def)
qed

lemma dispatch_effect:
  assumes "orch_dispatch E o' sid action_id exec sha frame = (o2, r)"
  shows "(logs_only E o' o2 \<and> (\<exists>e. r = Inl (OAudit e))) \<or>
    sends E o' o2 sid action_id exec sha frame
    \<and> (\<exists>post. o_trace o2 = o_trace o' @ [Logged (ExecRequested sid action_id exec sha), SentFrame frame] @ map Logged post)"
  using assms unfolding orch_dispatch_def Let_def
proof (rule audited_cases)
  let ?ev = "ExecRequested sid action_id exec sha"
  fix o1
  assume o1: "logs_only E o' o1" "o_trace o1 = o_trace o' @ [Logged ?ev]"
    and k: "(case oe_send E frame of Inl e \<Rightarrow> (o1\<lparr> o_trace := o_trace o1 @ [SentFrame frame] \<rparr>, Inl (OTransport e))
      | Inr resp \<Rightarrow> record_outcome E (o1\<lparr> o_trace := o_trace o1 @ [SentFrame frame] \<rparr>) sid action_id exec resp) = (o2, r)"
  have after: "logs_only E (o1\<lparr> o_trace := o_trace o1 @ [SentFrame frame] \<rparr>) o2"
    using k record_outcome_logs_only by (auto split: sum.splits)
  then obtain evs where evs: "o_trace o2 = o_trace o1 @ [SentFrame frame] @ map Logged evs"
      "writes E evs (o_audit o1) (o_audit o2)"
    by (auto simp: logs_only_def)
  have "writes E [?ev] (o_audit o') (o_audit o1)"
    using o1 by (auto simp: logs_only_def map_eq_Cons_conv)
  then have "\<exists>pre post. o_trace o2 = o_trace o' @ map Logged pre @ [Logged ?ev, SentFrame frame] @ map Logged post
      \<and> writes E (pre @ [?ev] @ post) (o_audit o') (o_audit o2)"
    using o1(2) evs writes_append by (intro exI [of _ "[]"] exI [of _ evs]) fastforce
  then have "sends E o' o2 sid action_id exec sha frame"
    using o1(1) after by (simp add: sends_def logs_only_def same_setup_def)
  then show ?thesis using o1(2) evs by auto
qed auto

section \<open>What a tool invocation does\<close>

definition vetted ::
  "('g, 's, 'r, 'f) OrchEnv \<Rightarrow> Orchestrator \<Rightarrow> string \<Rightarrow> (string \<times> string) list \<Rightarrow> VerifiedBundle \<Rightarrow> bool"
where
  "vetted E o' exec args' vb \<longleftrightarrow>
    (\<exists>bytes. oe_read E (path_join (o_bundle_dir o') (exec @ ''.exec'')) = Some bytes
      \<and> authentic (oe_crypto E) (o_trust o') bytes
      \<and> manifest_parse (oe_toml E) bytes = Inr (vb_manifest vb) \<and> payload_bound (oe_crypto E) (vb_manifest vb))
    \<and> validate_args (oe_regex E) (vb_manifest vb) args' = Inr ()"

definition decided :: "('g, 's, 'r, 'f) OrchEnv \<Rightarrow> Orchestrator \<Rightarrow> string \<Rightarrow> VerifiedBundle \<Rightarrow> PolicyDecision" where
  "decided E o' exec vb =
    evaluate_policy (oe_match E) (o_policy o') (ses_profile (o_session o')) (ses_mode (o_session o')) exec vb"

definition next_session :: "Session \<Rightarrow> Session" where
  "next_session s = s\<lparr> ses_seq := saturating_add (ses_seq s) 1 \<rparr>"

definition next_request ::
  "('g, 's, 'r, 'f) OrchEnv \<Rightarrow> Orchestrator \<Rightarrow> string \<Rightarrow> (string \<times> string) list \<Rightarrow> VerifiedBundle \<Rightarrow> ExecRequest"
where
  "next_request E o' exec args' vb =
    \<lparr> rq_session_id = ses_id (o_session o'), rq_action_id = ActionId (fill_bytes 16 (oe_action_rnd E)),
      rq_seq = saturating_add (ses_seq (o_session o')) 1, rq_nonce = fill_bytes 16 (oe_nonce_rnd E),
      rq_issued_ms = oe_issued_ms E, rq_profile = ses_profile (o_session o'), rq_mode = ses_mode (o_session o'),
      rq_exec_name = exec, rq_args = args', rq_declared_risk = m_risk (meta (vb_manifest vb)),
      rq_declared_read_only = m_read_only (meta (vb_manifest vb)) \<rparr>"

definition sealed_frame ::
  "Crypto \<Rightarrow> ExecRequest Codec \<Rightarrow> SignedEnvelope Codec \<Rightarrow> SigningKey \<Rightarrow> ExecRequest \<Rightarrow> byte list \<Rightarrow> bool"
where
  "sealed_frame C rc ec key request frame \<longleftrightarrow>
    (\<exists>env. envelope_seal C rc request key = Inr env \<and> to_frame ec env = Inr frame)"

abbreviation env_seals ::
  "('g, 's, 'r, 'f) OrchEnv \<Rightarrow> Orchestrator \<Rightarrow> ExecRequest \<Rightarrow> byte list \<Rightarrow> bool"
where
  "env_seals E o' \<equiv> sealed_frame (oe_crypto E) (oe_request_codec E) (oe_envelope_codec E) (ses_signing_key (o_session o'))"

text \<open>The possible effects of routing a signed action, from a state \<open>o'\<close>.\<close>

definition routed ::
  "('g, 's, 'r, 'f) OrchEnv \<Rightarrow> Orchestrator \<Rightarrow> string \<Rightarrow> (string \<times> string) list \<Rightarrow> VerifiedBundle \<Rightarrow> PolicyDecision
    \<Rightarrow> Orchestrator \<Rightarrow> (OrchestratorError, TaskOutcome) result \<Rightarrow> bool"
where
  "routed E o' exec args' vb decision o2 r \<longleftrightarrow>
    (let o1 = o'\<lparr> o_session := next_session (o_session o') \<rparr>;
         aid = ActionId (fill_bytes 16 (oe_action_rnd E)) in
     o2 = o1
     \<or> (\<exists>frame. env_seals E o' (next_request E o' exec args' vb) frame
          \<and> (decision = Allow
               \<and> orch_dispatch E o1 (ses_id (o_session o')) aid exec (sha256_hex (oe_crypto E) (args_bytes E args')) frame = (o2, r)
             \<or> (\<exists>why two. decision = RequireApproval why two
                 \<and> await_approval E o1 aid exec args' vb why two frame = (o2, r)))))"

lemma sign_and_route_routed:
  assumes "sign_and_route E o' (ses_id (o_session o')) (ActionId (fill_bytes 16 (oe_action_rnd E))) exec args' vb decision = (o2, r)"
  shows "routed E o' exec args' vb decision o2 r"
proof -
  have "sign_exec_request (oe_crypto E) (oe_request_codec E) (oe_nonce_rnd E) (oe_issued_ms E) (o_session o')
      (ActionId (fill_bytes 16 (oe_action_rnd E))) exec args' (m_risk (meta (vb_manifest vb))) (m_read_only (meta (vb_manifest vb)))
    = (next_session (o_session o'),
       envelope_seal (oe_crypto E) (oe_request_codec E) (next_request E o' exec args' vb) (ses_signing_key (o_session o')))"
    by (simp add: sign_exec_request_def next_session_def next_request_def Let_def)
  then show ?thesis
    using assms
    by (cases decision)
      (auto simp: sign_and_route_def routed_def Let_def sealed_frame_def bind_res_eq_Inr bind_res_eq_Inl split: sum.splits)
qed

lemma invoke_cases:
  assumes "invoke E o' exec args' reason = (o2, r)"
  obtains (quiet) "logs_only E o' o2"
  | (acted) vb o1 where "logs_only E o' o1" "vetted E o' exec args' vb"
      "routed E o1 exec args' vb (decided E o' exec vb) o2 r"
proof -
  have deny: "logs_only E o' o2" if "deny E o' sid aid exec stage e = (o2, r)" for sid aid stage e
    using that unfolding deny_def by (rule audited_cases) auto
  show thesis
  proof (cases "bundle_load (oe_crypto E) (oe_toml E) (oe_read E) (path_join (o_bundle_dir o') (exec @ ''.exec''))
      (path_join (o_bundle_dir o') (exec @ ''.exec.sig'')) (o_trust o')")
    case (Inl e)
    then show thesis using assms deny quiet by (simp add: invoke_def Let_def)
  next
    case (Inr vb)
    note load = Inr
    show thesis
    proof (cases "validate_args (oe_regex E) (vb_manifest vb) args'")
      case (Inl e)
      then show thesis using assms load deny quiet by (simp add: invoke_def Let_def)
    next
      case (Inr u)
      then have vet: "vetted E o' exec args' vb" using bundle_load_ok [OF load] by (auto simp: vetted_def)
      from assms load Inr show thesis
        unfolding invoke_def Let_def
      proof (simp add: decided_def [symmetric], elim audited_cases)
        fix o1
        assume o1: "logs_only E o' o1"
          and k: "sign_and_route E o1 (ses_id (o_session o')) (ActionId (fill_bytes 16 (oe_action_rnd E))) exec args' vb
            (decided E o' exec vb) = (o2, r)"
        have "o_session o1 = o_session o'" using o1 by (simp add: logs_only_def)
        then show thesis using acted [OF o1 vet] sign_and_route_routed [of E o1] k by simp
      qed (rule quiet)
    qed
  qed
qed

lemma run_task_cases:
  assumes "run_task E o' task untrusted = (o2, r)"
  obtains (quiet) "logs_only E o' o2"
  | (invoked) reply exec args' reason o1 where "logs_only E o' o1"
      "oe_complete E (prompt_build (builder o') (o_model o') (o_max_tokens o') task untrusted (o_tools o')) = Inr reply"
      "\<not> contains (canary (o_secrets o')) (cp_text reply)"
      "parse_model_response (oe_json_action E) (cp_text reply) (builder o') = Inr (Invoke exec args' reason)"
      "invoke E o1 exec args' reason = (o2, r)"
  using assms unfolding run_task_def Let_def
proof (elim audited_cases)
  fix o1
  let ?request = "prompt_build (builder o') (o_model o') (o_max_tokens o') task untrusted (o_tools o')"
  let ?k = "\<lambda>reply o2. if response_is_compromised (builder o') (cp_text reply)
      then audited E o2 (SessionEnded (ses_id (o_session o')) CanaryTokenLeaked) (\<lambda>o3. (o3, Inr Compromised))
      else case parse_model_response (oe_json_action E) (cp_text reply) (builder o') of
          Inr (Ask question) \<Rightarrow> (o2, Inr (Asked question))
        | Inr (Refuse reason) \<Rightarrow> (o2, Inr (Refused reason))
        | Inr (Invoke exec args' reason) \<Rightarrow> invoke E o2 exec args' reason
        | Inl CanaryLeaked \<Rightarrow> (o2, Inr Compromised)
        | Inl e \<Rightarrow> audited E o2 (Note (ContractViolated e)) (\<lambda>o3. (o3, Inr (Denied ''model-contract'' (WhyContract e))))"
  assume o1: "logs_only E o' o1"
    and k: "(case oe_complete E ?request of Inl e \<Rightarrow> (o1, Inl (OLlm e))
      | Inr reply \<Rightarrow> audited E o1 (LlmResponse (ses_id (o_session o')) (sha256_hex (oe_crypto E) (as_bytes (cp_text reply)))
          (response_is_compromised (builder o') (cp_text reply))) (?k reply)) = (o2, r)"
  have note': "logs_only E oa o2" if "audited E oa ev (\<lambda>o3. (o3, Inr out)) = (o2, r)" for oa ev out
    using that by (rule audited_cases) auto
  have rest: thesis if "logs_only E o' oa" "oe_complete E ?request = Inr reply" "?k reply oa = (o2, r)" for reply oa
  proof (cases "response_is_compromised (builder o') (cp_text reply)")
    case True
    with that have "audited E oa (SessionEnded (ses_id (o_session o')) CanaryTokenLeaked) (\<lambda>o3. (o3, Inr Compromised)) = (o2, r)"
      by simp
    from note' [OF this] show thesis using that(1) quiet logs_only_trans by blast
  next
    case False
    show thesis
    proof (cases "parse_model_response (oe_json_action E) (cp_text reply) (builder o')")
      case (Inl e)
      show thesis
      proof (cases "e = CanaryLeaked")
        case True
        then show thesis using that False Inl quiet by simp
      next
        case notleak: False
        have "audited E oa (Note (ContractViolated e)) (\<lambda>o3. (o3, Inr (Denied ''model-contract'' (WhyContract e)))) = (o2, r)"
          using that False Inl notleak by (cases e) simp_all
        from note' [OF this] show thesis using that(1) quiet logs_only_trans by blast
      qed
    next
      case (Inr a)
      then show thesis
        using that False quiet invoked [OF that(1,2)]
        by (cases a) (auto simp: response_is_compromised_def builder_def)
    qed
  qed
  show thesis
  proof (cases "oe_complete E ?request")
    case (Inl e)
    then show thesis using k o1 quiet by simp
  next
    case (Inr reply)
    with k have "audited E o1 (LlmResponse (ses_id (o_session o')) (sha256_hex (oe_crypto E) (as_bytes (cp_text reply)))
        (response_is_compromised (builder o') (cp_text reply))) (?k reply) = (o2, r)" by simp
    then show thesis
      by (rule audited_cases) (use o1 quiet rest Inr logs_only_trans in blast)+
  qed
qed (rule quiet)

end
