(* ===== verification/Orchestrator_Safety.thy ===== *)
theory Orchestrator_Safety
  imports Orchestrator "HOL-Library.Sublist"
begin

text \<open>
  What the daemon does over its lifetime: the calls of \<open>archangeld/src/orchestrator.rs\<close> as a step
  relation, and the invariants of the states it reaches.  Between two calls everything outside
  may change: the bundle files, the model, the executor, the clock and the random bytes; the
  libraries stay the same.
\<close>

section \<open>Steps\<close>

definition same_libs :: "('g, 's, 'r, 'f) OrchEnv \<Rightarrow> ('g, 's, 'r, 'f) OrchEnv \<Rightarrow> bool" where
  "same_libs E0 E \<longleftrightarrow>
    oe_crypto E = oe_crypto E0 \<and> oe_request_codec E = oe_request_codec E0
    \<and> oe_envelope_codec E = oe_envelope_codec E0 \<and> oe_args_json E = oe_args_json E0 \<and> oe_audit_json E = oe_audit_json E0"

text \<open>An append may fail, but not after it has written a part of its line.\<close>

definition no_torn_writes :: "('g, 's, 'r, 'f) OrchEnv \<Rightarrow> bool" where
  "no_torn_writes E \<longleftrightarrow> (\<forall>n. oe_fault E n \<in> {None, Some 0})"

inductive orch_step :: "(('g, 's, 'r, 'f) OrchEnv \<Rightarrow> bool) \<Rightarrow> Orchestrator \<Rightarrow> Orchestrator \<Rightarrow> bool"
  for Env :: "('g, 's, 'r, 'f) OrchEnv \<Rightarrow> bool"
where
  starts: "Env E \<Longrightarrow> orch_start E o' = (o2, r) \<Longrightarrow> orch_step Env o' o2"
| runs: "Env E \<Longrightarrow> run_task E o' task untrusted = (o2, q) \<Longrightarrow> orch_step Env o' o2"
| approves: "Env E \<Longrightarrow> approve E o' approval_id digest = (o2, q) \<Longrightarrow> orch_step Env o' o2"
| rejects: "reject o' approval_id = (o2, t) \<Longrightarrow> orch_step Env o' o2"

abbreviation orch_reaches ::
  "(('g, 's, 'r, 'f) OrchEnv \<Rightarrow> bool) \<Rightarrow> Orchestrator \<Rightarrow> Orchestrator \<Rightarrow> bool"
where
  "orch_reaches Env \<equiv> (orch_step Env)\<^sup>*\<^sup>*"

section \<open>What a step does\<close>

definition turned :: "Orchestrator \<Rightarrow> Orchestrator \<Rightarrow> bool" where
  "turned a b \<longleftrightarrow> same_setup a b \<and> o_session b \<in> {o_session a, next_session (o_session a)}"

definition grew :: "('g, 's, 'r, 'f) OrchEnv \<Rightarrow> Orchestrator \<Rightarrow> Orchestrator \<Rightarrow> bool" where
  "grew E a b \<longleftrightarrow>
    turned a b \<and> (\<exists>evs. o_trace b = o_trace a @ map Logged evs \<and> writes E evs (o_audit a) (o_audit b))"

definition grew_sending ::
  "('g, 's, 'r, 'f) OrchEnv \<Rightarrow> Orchestrator \<Rightarrow> Orchestrator \<Rightarrow> AuditText AuditEvent \<Rightarrow> byte list \<Rightarrow> bool"
where
  "grew_sending E a b ev frame \<longleftrightarrow>
    turned a b \<and> (\<exists>pre post. o_trace b = o_trace a @ map Logged pre @ [Logged ev, SentFrame frame] @ map Logged post
      \<and> writes E (pre @ [ev] @ post) (o_audit a) (o_audit b))"

definition stores ::
  "('g, 's, 'r, 'f) OrchEnv \<Rightarrow> string \<Rightarrow> (string \<times> string) list \<Rightarrow> VerifiedBundle \<Rightarrow> PolicyDecision
    \<Rightarrow> byte list \<Rightarrow> Orchestrator \<Rightarrow> Orchestrator \<Rightarrow> bool"
where
  "stores E exec args' vb decision frame a b \<longleftrightarrow>
    (\<exists>why. decision = RequireApproval why (m_risk (meta (vb_manifest vb)) = Critical)) \<and> length (o_pending a) < MAX_PENDING
    \<and> o_pending b = AList.update (random_id (oe_approval_rnd E))
        \<lparr> pd_frame = frame, pd_action_id = ActionId (fill_bytes 16 (oe_action_rnd E)), pd_exec = exec,
          pd_digest = action_digest E exec args' (p_sha256 (payload (vb_manifest vb))),
          pd_args_sha256 = sha256_hex (oe_crypto E) (args_bytes E args'),
          pd_two_person = (m_risk (meta (vb_manifest vb)) = Critical), pd_created_ms = oe_created_ms E \<rparr>
        (o_pending a)"

lemma subseq_prune [simp]: "subseq (o_pending (prune_pending now o')) (o_pending o')"
  by (simp add: prune_pending_def)

lemma prune_frame [simp]:
  "o_session (prune_pending now o') = o_session o'" "o_trace (prune_pending now o') = o_trace o'"
  "o_audit (prune_pending now o') = o_audit o'" "same_setup o' (prune_pending now o')"
  by (simp_all add: prune_pending_def same_setup_def)

lemma subseq_delete: "subseq (AList.delete k xs) xs"
  by (simp add: AList.delete_eq)

lemma grew_refl: "turned a b \<Longrightarrow> o_trace b = o_trace a \<Longrightarrow> o_audit b = o_audit a \<Longrightarrow> grew E a b"
  unfolding grew_def by (auto intro!: exI [of _ "[]"])

lemma turned_same: "same_setup a b \<Longrightarrow> o_session b = o_session a \<Longrightarrow> turned a b"
  by (simp add: turned_def)

lemma same_setup_trans: "same_setup a b \<Longrightarrow> same_setup b c \<Longrightarrow> same_setup a c"
  by (simp add: same_setup_def)

lemma logs_only_grew: "logs_only E a b \<Longrightarrow> grew E a b \<and> o_pending b = o_pending a \<and> o_session b = o_session a"
  by (auto simp: logs_only_def grew_def turned_def)

lemma grew_trans:
  assumes "grew E a b" and "logs_only E b c"
  shows "grew E a c"
proof -
  from assms obtain e f where "o_trace c = o_trace a @ map Logged e @ map Logged f"
      "writes E e (o_audit a) (o_audit b)" "writes E f (o_audit b) (o_audit c)"
    by (auto simp: grew_def logs_only_def)
  then have "o_trace c = o_trace a @ map Logged (e @ f) \<and> writes E (e @ f) (o_audit a) (o_audit c)"
    by (simp add: writes_append)
  moreover have "turned a c" using assms same_setup_trans by (auto simp: grew_def logs_only_def turned_def)
  ultimately show ?thesis unfolding grew_def by blast
qed

lemma logs_then_grew:
  assumes "logs_only E a b" and "grew E b c"
  shows "grew E a c"
proof -
  from assms obtain e f where "o_trace c = o_trace a @ map Logged e @ map Logged f"
      "writes E e (o_audit a) (o_audit b)" "writes E f (o_audit b) (o_audit c)"
    by (auto simp: grew_def logs_only_def)
  then have "o_trace c = o_trace a @ map Logged (e @ f) \<and> writes E (e @ f) (o_audit a) (o_audit c)"
    by (simp add: writes_append)
  moreover have "turned a c" using assms same_setup_trans by (auto simp: grew_def logs_only_def turned_def)
  ultimately show ?thesis unfolding grew_def by blast
qed

lemma grew_then_sends:
  assumes "grew E a b" and "sends E b c sid aid exec sha frame"
  shows "grew_sending E a c (ExecRequested sid aid exec sha) frame \<and> o_pending c = o_pending b"
proof -
  let ?ev = "ExecRequested sid aid exec sha"
  from assms obtain evs pre post where "o_trace b = o_trace a @ map Logged evs" "writes E evs (o_audit a) (o_audit b)"
      "o_trace c = o_trace b @ map Logged pre @ [Logged ?ev, SentFrame frame] @ map Logged post"
      "writes E (pre @ [?ev] @ post) (o_audit b) (o_audit c)"
    by (auto simp: grew_def sends_def)
  then have "\<exists>pre post. o_trace c = o_trace a @ map Logged pre @ [Logged ?ev, SentFrame frame] @ map Logged post
      \<and> writes E (pre @ [?ev] @ post) (o_audit a) (o_audit c)"
    using writes_append by (intro exI [of _ "evs @ pre"] exI [of _ post]) fastforce
  then show ?thesis using assms same_setup_trans by (auto simp: grew_sending_def grew_def sends_def turned_def)
qed

lemma logs_then_sending:
  assumes "logs_only E a b" and "grew_sending E b c ev frame"
  shows "grew_sending E a c ev frame"
proof -
  from assms obtain evs pre post where "o_trace b = o_trace a @ map Logged evs" "writes E evs (o_audit a) (o_audit b)"
      "o_trace c = o_trace b @ map Logged pre @ [Logged ev, SentFrame frame] @ map Logged post"
      "writes E (pre @ [ev] @ post) (o_audit b) (o_audit c)"
    by (auto simp: logs_only_def grew_sending_def)
  then have "\<exists>pre post. o_trace c = o_trace a @ map Logged pre @ [Logged ev, SentFrame frame] @ map Logged post
      \<and> writes E (pre @ [ev] @ post) (o_audit a) (o_audit c)"
    using writes_append by (intro exI [of _ "evs @ pre"] exI [of _ post]) fastforce
  then show ?thesis using assms same_setup_trans by (auto simp: grew_sending_def logs_only_def turned_def)
qed

lemma reject_effect:
  assumes "reject o' approval_id = (o2, t)"
  shows "grew E o' o2 \<and> subseq (o_pending o2) (o_pending o') \<and> o_session o2 = o_session o'"
  using assms
  by (auto simp: reject_def same_setup_def turned_def subseq_delete intro!: grew_refl split: option.splits)

lemma start_effect: "orch_start E o' = (o2, r) \<Longrightarrow> logs_only E o' o2"
  unfolding orch_start_def Let_def by (erule audited_cases) auto

lemma approve_cases:
  assumes "approve E o' approval_id digest = (o2, r)"
  obtains (quiet) "grew E o' o2" "o_session o2 = o_session o'" "subseq (o_pending o2) (o_pending o')"
      "map_of (o_pending o2) approval_id = None"
  | (approved) p where "(approval_id, p) \<in> set (o_pending o')" "pd_digest p = digest" "\<not> pd_two_person p"
      "saturating_sub (oe_prune_ms E) APPROVAL_TTL_MS \<le> pd_created_ms p"
      "sends E (o'\<lparr> o_pending := o_pending o2 \<rparr>) o2 (ses_id (o_session o')) (pd_action_id p) (pd_exec p) (pd_args_sha256 p) (pd_frame p)"
      "\<exists>post. o_trace o2 = o_trace o' @ [Logged (ApprovalGranted (ses_id (o_session o')) (pd_action_id p) ''operator''),
        Logged (ExecRequested (ses_id (o_session o')) (pd_action_id p) (pd_exec p) (pd_args_sha256 p)), SentFrame (pd_frame p)]
        @ map Logged post"
      "o_pending o2 = AList.delete approval_id (o_pending (prune_pending (oe_prune_ms E) o'))"
proof -
  let ?o1 = "prune_pending (oe_prune_ms E) o'"
  let ?o2 = "?o1\<lparr> o_pending := AList.delete approval_id (o_pending ?o1) \<rparr>"
  let ?sid = "ses_id (o_session o')"
  have o2: "grew E o' ?o2" "o_session ?o2 = o_session o'" "map_of (o_pending ?o2) approval_id = None"
    by (auto intro!: grew_refl turned_same simp: same_setup_def prune_pending_def AList.delete_conv')
  moreover have sub: "subseq (o_pending ?o2) (o_pending o')"
    using subseq_order.trans [OF subseq_delete subseq_prune] by simp
  have quiet': thesis if "logs_only E ?o2 o2"
    using quiet that o2 sub grew_trans logs_only_grew [OF that] by metis
  show thesis
  proof (cases "map_of (o_pending ?o1) approval_id")
    case None
    then have "o2 = ?o1" using assms by (simp add: approve_def Let_def)
    then show thesis using quiet None by (simp add: grew_refl turned_same)
  next
    case (Some p)
    consider "pd_digest p \<noteq> digest" | "pd_digest p = digest" "pd_two_person p" | "pd_digest p = digest" "\<not> pd_two_person p"
      by blast
    then show thesis
    proof cases
      case 1
      then show thesis using assms Some quiet' by (simp add: approve_def Let_def)
    next
      case 2
      then have "audited E ?o2 (Note (TwoPersonUnsatisfied (pd_exec p)))
          (\<lambda>o3. (o3, Inr (Denied ''two-person'' NeedsTwoOperators))) = (o2, r)"
        using assms Some by (simp add: approve_def Let_def)
      then show thesis by (rule audited_cases) (auto intro: quiet')
    next
      case 3
      then have "audited E ?o2 (ApprovalGranted ?sid (pd_action_id p) ''operator'')
          (\<lambda>o3. orch_dispatch E o3 ?sid (pd_action_id p) (pd_exec p) (pd_args_sha256 p) (pd_frame p)) = (o2, r)"
        using assms Some by (simp add: approve_def Let_def)
      then show thesis
      proof (cases rule: audited_cases)
        case (went_on o3)
        from dispatch_effect [OF went_on(4)] show thesis
        proof (elim disjE conjE exE)
          fix post
          assume s: "sends E o3 o2 ?sid (pd_action_id p) (pd_exec p) (pd_args_sha256 p) (pd_frame p)"
            and tr: "o_trace o2 = o_trace o3 @ [Logged (ExecRequested ?sid (pd_action_id p) (pd_exec p) (pd_args_sha256 p)),
              SentFrame (pd_frame p)] @ map Logged post"
          have s2: "sends E ?o2 o2 ?sid (pd_action_id p) (pd_exec p) (pd_args_sha256 p) (pd_frame p)"
            using sends_trans [OF went_on(2) s] .
          then have pend: "o_pending o2 = o_pending ?o2" by (simp add: sends_def)
          have "(approval_id, p) \<in> set (o_pending ?o1)" using Some by (rule map_of_SomeD)
          moreover have "?o2 = o'\<lparr> o_pending := o_pending o2 \<rparr>" by (simp add: pend prune_pending_def Let_def)
          ultimately show thesis
            using approved [of p] 3 s2 tr went_on(3) pend by (auto simp: prune_pending_def Let_def)
        qed (use quiet' went_on(2) logs_only_trans in blast)
      qed (rule quiet')
    qed
  qed
qed

lemma decided_facts:
  shows decided_allow: "decided E o' exec vb = Allow \<Longrightarrow>
      m_risk (meta (vb_manifest vb)) \<noteq> Critical \<and> ses_mode (o_session o') \<noteq> Interactive"
    and decided_approval: "decided E o' exec vb = RequireApproval why two \<Longrightarrow> two = (m_risk (meta (vb_manifest vb)) = Critical)"
  unfolding decided_def evaluate_policy_def Let_def
  using engine.approvable_iff engine.approval by (fastforce simp: engine.allow_iff)+

lemma logs_only_views:
  assumes "logs_only E a b"
  shows "vetted E b = vetted E a" "decided E b = decided E a" "next_request E b = next_request E a"
    "env_seals E b = env_seals E a"
  using assms
  by (auto simp: fun_eq_iff vetted_def decided_def next_request_def logs_only_def same_setup_def)

lemma await_approval_cases:
  assumes "await_approval E o' aid exec args' vb why two frame = (o2, r)"
    and "aid = ActionId (fill_bytes 16 (oe_action_rnd E))" "two = (m_risk (meta (vb_manifest vb)) = Critical)"
  obtains (full) "o2 = prune_pending (oe_prune_ms E) o'"
  | (stored) "o2 = prune_pending (oe_prune_ms E) o'\<lparr> o_pending := o_pending o2 \<rparr>"
      "stores E exec args' vb (RequireApproval why two) frame (prune_pending (oe_prune_ms E) o') o2"
  using assms
  by (auto simp: await_approval_def stores_def Let_def split: if_splits)

lemma routed_effect:
  assumes "routed E o' exec args' vb decision o2 r" and decision: "decision = decided E o' exec vb"
  obtains (quiet) "grew E o' o2" "subseq (o_pending o2) (o_pending o')"
  | (stored) frame o1 where "grew E o' o2" "o_session o2 = next_session (o_session o')"
      "subseq (o_pending o1) (o_pending o')"
      "env_seals E o' (next_request E o' exec args' vb) frame" "stores E exec args' vb decision frame o1 o2"
  | (sent) frame where "o_session o2 = next_session (o_session o')" "o_pending o2 = o_pending o'" "decision = Allow"
      "env_seals E o' (next_request E o' exec args' vb) frame"
      "grew_sending E o' o2 (ExecRequested (ses_id (o_session o')) (ActionId (fill_bytes 16 (oe_action_rnd E))) exec
        (sha256_hex (oe_crypto E) (args_bytes E args'))) frame"
proof -
  let ?o1 = "o'\<lparr> o_session := next_session (o_session o') \<rparr>"
  let ?aid = "ActionId (fill_bytes 16 (oe_action_rnd E))"
  have turn: "grew E o' o3" if "o_trace o3 = o_trace o'" "o_audit o3 = o_audit o'" "same_setup ?o1 o3"
      "o_session o3 = o_session ?o1" for o3
    using that by (intro grew_refl) (auto simp: turned_def same_setup_def)
  have quiet': thesis if "logs_only E ?o1 o2"
    using quiet that grew_trans [OF turn that] logs_only_grew [OF that] by (simp add: same_setup_def)
  consider "o2 = ?o1"
    | frame where "env_seals E o' (next_request E o' exec args' vb) frame" "decision = Allow"
        "orch_dispatch E ?o1 (ses_id (o_session o')) ?aid exec (sha256_hex (oe_crypto E) (args_bytes E args')) frame = (o2, r)"
    | frame why two where "env_seals E o' (next_request E o' exec args' vb) frame" "decision = RequireApproval why two"
        "await_approval E ?o1 ?aid exec args' vb why two frame = (o2, r)"
    using assms(1) by (auto simp: routed_def Let_def)
  then show thesis
  proof cases
    case 1
    then show thesis using quiet' by simp
  next
    case (2 frame)
    from dispatch_effect [OF 2(3)] show thesis
    proof (elim disjE conjE)
      assume s: "sends E ?o1 o2 (ses_id (o_session o')) ?aid exec (sha256_hex (oe_crypto E) (args_bytes E args')) frame"
      have "grew E o' ?o1" by (rule turn) (simp_all add: same_setup_def)
      from grew_then_sends [OF this s] show thesis using sent 2 s by (auto simp: sends_def)
    qed (rule quiet')
  next
    case (3 frame why two)
    let ?p = "prune_pending (oe_prune_ms E) ?o1"
    have two: "two = (m_risk (meta (vb_manifest vb)) = Critical)" using decision 3(2) decided_approval by metis
    have p: "subseq (o_pending ?p) (o_pending o')" using subseq_prune [of _ ?o1] by simp
    from 3(3) refl two show thesis
    proof (cases rule: await_approval_cases)
      case full
      then show thesis using quiet p turn [of ?p] by simp
    next
      case stored': stored
      have "grew E o' o2" by (subst stored'(1)) (rule turn, simp_all add: same_setup_def prune_pending_def)
      moreover have "o_session o2 = next_session (o_session o')" by (subst stored'(1)) simp
      ultimately show thesis using stored [OF _ _ p] 3 stored'(2) by simp
    qed
  qed
qed

text \<open>Why a task sent something: what the model answered, and what the bundle and the policy said.\<close>

definition proposed ::
  "('g, 's, 'r, 'f) OrchEnv \<Rightarrow> Orchestrator \<Rightarrow> string \<Rightarrow> (string \<times> string) list \<Rightarrow> string \<Rightarrow> (string \<times> string) list \<Rightarrow> bool"
where
  "proposed E o' task untrusted exec args' \<longleftrightarrow>
    (\<exists>reply reason.
      oe_complete E (prompt_build (builder o') (o_model o') (o_max_tokens o') task untrusted (o_tools o')) = Inr reply
      \<and> \<not> contains (canary (o_secrets o')) (cp_text reply)
      \<and> parse_model_response (oe_json_action E) (cp_text reply) (builder o') = Inr (Invoke exec args' reason))"

lemma run_task_effect:
  assumes "run_task E o' task untrusted = (o2, r)"
  obtains (quiet) "grew E o' o2" "subseq (o_pending o2) (o_pending o')"
  | (stored) exec args' vb frame o1 where "grew E o' o2" "o_session o2 = next_session (o_session o')"
      "subseq (o_pending o1) (o_pending o')"
      "env_seals E o' (next_request E o' exec args' vb) frame" "stores E exec args' vb (decided E o' exec vb) frame o1 o2"
  | (sent) exec args' vb frame where "o_session o2 = next_session (o_session o')" "o_pending o2 = o_pending o'"
      "proposed E o' task untrusted exec args'" "vetted E o' exec args' vb" "decided E o' exec vb = Allow"
      "env_seals E o' (next_request E o' exec args' vb) frame"
      "grew_sending E o' o2 (ExecRequested (ses_id (o_session o')) (ActionId (fill_bytes 16 (oe_action_rnd E))) exec
        (sha256_hex (oe_crypto E) (args_bytes E args'))) frame"
  using assms
proof (cases rule: run_task_cases)
  case quiet': quiet
  then show thesis using quiet logs_only_grew [OF quiet'] by simp
next
  case (invoked reply exec args' reason o1)
  from invoked(5) show thesis
  proof (cases rule: invoke_cases)
    case quiet': quiet
    then show thesis using quiet logs_only_grew [OF logs_only_trans [OF invoked(1) quiet']] by simp
  next
    case (acted vb oa)
    have log: "logs_only E o' oa" using invoked(1) acted(1) logs_only_trans by blast
    note views = logs_only_views [OF log] logs_only_views [OF invoked(1)]
    have same: "o_session oa = o_session o'" "o_pending oa = o_pending o'" using log by (simp_all add: logs_only_def)
    have pr: "proposed E o' task untrusted exec args'" using invoked(2-4) by (auto simp: proposed_def)
    have "decided E o1 exec vb = decided E oa exec vb" by (simp add: views)
    with acted(3) show thesis
    proof (cases rule: routed_effect)
      case quiet': quiet
      then show thesis using quiet logs_then_grew [OF log] same by simp
    next
      case stored': (stored frame ob)
      then show thesis using stored [OF logs_then_grew [OF log]] same views by simp
    next
      case sent': (sent frame)
      let ?ev = "ExecRequested (ses_id (o_session o')) (ActionId (fill_bytes 16 (oe_action_rnd E))) exec
        (sha256_hex (oe_crypto E) (args_bytes E args'))"
      have "grew_sending E o' o2 ?ev frame"
        using logs_then_sending [OF log] sent'(5) same by simp
      then show thesis using sent [OF _ _ pr] sent' acted(2) same views by simp
    qed
  qed
qed

section \<open>The invariant\<close>

inductive trace_ok :: "(AuditText AuditEvent \<Rightarrow> byte list \<Rightarrow> bool) \<Rightarrow> OrchEffect list \<Rightarrow> bool"
  for Q :: "AuditText AuditEvent \<Rightarrow> byte list \<Rightarrow> bool"
where
  trace_ok_Nil: "trace_ok Q []"
| trace_ok_Logged: "trace_ok Q tr \<Longrightarrow> trace_ok Q (tr @ [Logged ev])"
| trace_ok_Sent: "trace_ok Q tr \<Longrightarrow> Q ev frame \<Longrightarrow> trace_ok Q (tr @ [Logged ev, SentFrame frame])"

lemma trace_ok_logs: "trace_ok Q tr \<Longrightarrow> trace_ok Q (tr @ map Logged evs)"
  by (induction evs rule: rev_induct) (auto simp flip: append_assoc intro: trace_ok_Logged)

lemma trace_ok_mono: "trace_ok Q tr \<Longrightarrow> (\<And>ev f. Q ev f \<Longrightarrow> R ev f) \<Longrightarrow> trace_ok R tr"
  by (induction rule: trace_ok.induct) (auto intro: trace_ok.intros)

lemma trace_ok_split:
  assumes "trace_ok Q tr" and "tr = pre @ SentFrame frame # post"
  shows "\<exists>pre' ev. pre = pre' @ [Logged ev] \<and> Q ev frame"
  using assms
proof (induction arbitrary: post rule: trace_ok.induct)
  case (trace_ok_Logged tr ev)
  then show ?case by (cases post rule: rev_cases) auto
next
  case (trace_ok_Sent tr ev f)
  show ?case
  proof (cases post rule: rev_cases)
    case Nil
    then show ?thesis using trace_ok_Sent by auto
  next
    case (snoc post' x)
    then have "tr @ [Logged ev] = pre @ SentFrame frame # post'" using trace_ok_Sent.prems by simp
    then show ?thesis using trace_ok_Sent.IH by (cases post' rule: rev_cases) auto
  qed
qed simp

definition sent_frames :: "OrchEffect list \<Rightarrow> byte list list" where
  "sent_frames tr = List.map_filter (\<lambda>e. case e of SentFrame f \<Rightarrow> Some f | Logged _ \<Rightarrow> None) tr"

definition logged_events :: "OrchEffect list \<Rightarrow> AuditText AuditEvent list" where
  "logged_events tr = List.map_filter (\<lambda>e. case e of Logged ev \<Rightarrow> Some ev | SentFrame _ \<Rightarrow> None) tr"

lemma map_filter_append: "List.map_filter f (xs @ ys) = List.map_filter f xs @ List.map_filter f ys"
  by (simp add: List.map_filter_def)

lemma sent_frames_simps [simp]:
  "sent_frames [] = []" "sent_frames (a @ b) = sent_frames a @ sent_frames b" "sent_frames (SentFrame f # tr) = f # sent_frames tr"
  "sent_frames (Logged ev # tr) = sent_frames tr" "sent_frames (map Logged evs) = []"
  by (simp_all add: sent_frames_def map_filter_append List.map_filter_simps) (simp add: List.map_filter_def)

lemma logged_events_simps [simp]:
  "logged_events [] = []" "logged_events (a @ b) = logged_events a @ logged_events b"
  "logged_events (SentFrame f # tr) = logged_events tr"
  "logged_events (Logged ev # tr) = ev # logged_events tr" "logged_events (map Logged evs) = evs"
  by (simp_all add: logged_events_def map_filter_append List.map_filter_simps) (induction evs, simp_all add: List.map_filter_simps)

lemma trace_ok_sent: "trace_ok Q tr \<Longrightarrow> f \<in> set (sent_frames tr) \<Longrightarrow> \<exists>ev. Q ev f"
  by (induction rule: trace_ok.induct) auto

text \<open>A frame signed by the session for a request that carries the session's identity.\<close>

definition signed_by ::
  "('g, 's, 'r, 'f) OrchEnv \<Rightarrow> Session \<Rightarrow> ExecRequest \<Rightarrow> byte list \<Rightarrow> bool"
where
  "signed_by E s request frame \<longleftrightarrow>
    sealed_frame (oe_crypto E) (oe_request_codec E) (oe_envelope_codec E) (ses_signing_key s) request frame
    \<and> rq_session_id request = ses_id s \<and> rq_profile request = ses_profile s \<and> rq_mode request = ses_mode s
    \<and> rq_seq request \<le> ses_seq s"

definition requested_event :: "('g, 's, 'r, 'f) OrchEnv \<Rightarrow> ExecRequest \<Rightarrow> AuditText AuditEvent" where
  "requested_event E request =
    ExecRequested (rq_session_id request) (rq_action_id request) (rq_exec_name request)
      (sha256_hex (oe_crypto E) (args_bytes E (rq_args request)))"

definition sent_ok :: "('g, 's, 'r, 'f) OrchEnv \<Rightarrow> Session \<Rightarrow> AuditText AuditEvent \<Rightarrow> byte list \<Rightarrow> bool" where
  "sent_ok E s ev frame \<longleftrightarrow>
    (\<exists>request. signed_by E s request frame \<and> ev = requested_event E request \<and> rq_declared_risk request \<noteq> Critical)"

definition pending_ok :: "('g, 's, 'r, 'f) OrchEnv \<Rightarrow> Session \<Rightarrow> Pending \<Rightarrow> bool" where
  "pending_ok E s p \<longleftrightarrow>
    (\<exists>request payload_sha256. signed_by E s request (pd_frame p)
      \<and> ExecRequested (ses_id s) (pd_action_id p) (pd_exec p) (pd_args_sha256 p) = requested_event E request
      \<and> pd_digest p = action_digest E (rq_exec_name request) (rq_args request) payload_sha256
      \<and> pd_two_person p = (rq_declared_risk request = Critical))"

abbreviation pending_frames :: "Orchestrator \<Rightarrow> byte list list" where
  "pending_frames o' \<equiv> map (pd_frame \<circ> snd) (o_pending o')"

definition orch_inv :: "('g, 's, 'r, 'f) OrchEnv \<Rightarrow> Orchestrator \<Rightarrow> bool" where
  "orch_inv E o' \<longleftrightarrow>
    length (o_pending o') \<le> MAX_PENDING \<and> distinct (map fst (o_pending o'))
    \<and> (\<forall>p \<in> snd ` set (o_pending o'). pending_ok E (o_session o') p)
    \<and> trace_ok (sent_ok E (o_session o')) (o_trace o')
    \<and> (ses_seq (o_session o') \<noteq> - 1 \<longrightarrow> distinct (sent_frames (o_trace o') @ pending_frames o'))"

lemma sealed_frame_reads_back:
  assumes "codec_ok rc" and "codec_ok ec" and "sealed_frame C rc ec k r f"
  shows "\<exists>env. from_reader ec (drop 4 f) = Inr env \<and> from_reader rc (se_request env) = Inr r"
proof -
  from assms(3) obtain env where env: "envelope_seal C rc r k = Inr env" "to_frame ec env = Inr f"
    by (auto simp: sealed_frame_def)
  have "into_writer ec env = Inr (drop 4 f)"
    using env(2) by (auto simp: frame_defs cbor_to_vec_def bind_res_eq_Inr split: if_splits)
  moreover have "into_writer rc r = Inr (se_request env)"
    using env(1) by (auto simp: envelope_seal_def cbor_to_vec_def bind_res_eq_Inr)
  ultimately show ?thesis using assms(1,2) by (auto simp: codec_ok_def)
qed

lemma sealed_frame_inj:
  assumes "codec_ok rc" and "codec_ok ec" and "sealed_frame C rc ec k r f" and "sealed_frame C rc ec k r' f"
  shows "r = r'"
  using sealed_frame_reads_back [OF assms(1-3)] sealed_frame_reads_back [OF assms(1,2,4)] by auto

lemma next_session_simps [simp]:
  "ses_id (next_session s) = ses_id s" "ses_signing_key (next_session s) = ses_signing_key s"
  "ses_mode (next_session s) = ses_mode s" "ses_profile (next_session s) = ses_profile s"
  "ses_seq (next_session s) = saturating_add (ses_seq s) 1"
  by (simp_all add: next_session_def)

lemma next_seq:
  fixes q :: u64
  shows "q \<le> saturating_add q 1" and "saturating_add q 1 \<noteq> - 1 \<Longrightarrow> q \<noteq> - 1 \<and> q < saturating_add q 1"
proof -
  have top: "unat (- 1 :: u64) = 2 ^ 64 - 1" by (simp add: unat_minus_one_word)
  have sat: "unat (saturating_add q 1) = min (unat q + 1) (2 ^ 64 - 1)" by (simp add: unat_saturating_add)
  have bound: "unat q \<le> 2 ^ 64 - 1" using unat_lt2p [of q] by simp
  show "q \<le> saturating_add q 1" using bound by (simp add: word_le_nat_alt sat)
  assume "saturating_add q 1 \<noteq> - 1"
  then have "unat (saturating_add q 1) \<noteq> unat (- 1 :: u64)" by (simp add: unat_arith_simps(3))
  then have "unat q + 1 < 2 ^ 64 - 1" using top sat by (simp add: min_def split: if_splits)
  then show "q \<noteq> - 1 \<and> q < saturating_add q 1" using top sat by (auto simp: word_less_nat_alt)
qed

lemma signed_by_next: "signed_by E s r f \<Longrightarrow> signed_by E (next_session s) r f"
  using next_seq(1) [of "ses_seq s"] by (auto simp: signed_by_def intro: order.trans)

lemma turned_mono:
  assumes "o_session b \<in> {o_session a, next_session (o_session a)}"
  shows "signed_by E (o_session a) r f \<Longrightarrow> signed_by E (o_session b) r f"
    and "sent_ok E (o_session a) ev f \<Longrightarrow> sent_ok E (o_session b) ev f"
    and "pending_ok E (o_session a) p \<Longrightarrow> pending_ok E (o_session b) p"
    and "ses_seq (o_session b) \<noteq> - 1 \<Longrightarrow> ses_seq (o_session a) \<noteq> - 1"
proof -
  have s: "signed_by E (o_session a) r f \<Longrightarrow> signed_by E (o_session b) r f" for r f
    using assms signed_by_next [of E "o_session a"] by auto
  then show "signed_by E (o_session a) r f \<Longrightarrow> signed_by E (o_session b) r f"
    and "sent_ok E (o_session a) ev f \<Longrightarrow> sent_ok E (o_session b) ev f"
    by (auto simp: sent_ok_def)
  have "ses_id (o_session b) = ses_id (o_session a)" using assms by auto
  then show "pending_ok E (o_session a) p \<Longrightarrow> pending_ok E (o_session b) p"
    using s unfolding pending_ok_def by metis
  show "ses_seq (o_session b) \<noteq> - 1 \<Longrightarrow> ses_seq (o_session a) \<noteq> - 1"
    using assms next_seq(2) [of "ses_seq (o_session a)"] by auto
qed

lemma env_seals_signed:
  assumes "same_libs E0 E" and "env_seals E o' (next_request E o' exec args' vb) frame"
  shows "signed_by E0 (next_session (o_session o')) (next_request E o' exec args' vb) frame"
  using assms by (simp add: signed_by_def same_libs_def next_request_def)

lemma args_bytes_libs: "same_libs E0 E \<Longrightarrow> args_bytes E = args_bytes E0"
  by (simp add: fun_eq_iff args_bytes_def same_libs_def)

lemma action_digest_libs: "same_libs E0 E \<Longrightarrow> action_digest E = action_digest E0"
  by (simp add: fun_eq_iff action_digest_def args_bytes_libs) (simp add: same_libs_def)

text \<open>A newly signed frame differs from every frame the session signed before.\<close>

lemma fresh_frame:
  assumes "codec_ok (oe_request_codec E0)" and "codec_ok (oe_envelope_codec E0)" and "same_libs E0 E"
    and "env_seals E o' (next_request E o' exec args' vb) frame"
    and "signed_by E0 (o_session o') request frame'" and "saturating_add (ses_seq (o_session o')) 1 \<noteq> - 1"
  shows "frame \<noteq> frame'"
proof
  assume "frame = frame'"
  moreover have "sealed_frame (oe_crypto E0) (oe_request_codec E0) (oe_envelope_codec E0) (ses_signing_key (o_session o'))
      (next_request E o' exec args' vb) frame"
    using assms(3,4) by (simp add: same_libs_def)
  ultimately have "next_request E o' exec args' vb = request"
    using sealed_frame_inj [OF assms(1,2)] assms(5) by (simp add: signed_by_def)
  then show False
    using assms(5) next_seq(2) [OF assms(6)] by (auto simp: signed_by_def next_request_def)
qed

lemma inv_frames_signed:
  assumes "orch_inv E o'" and "f \<in> set (sent_frames (o_trace o') @ pending_frames o')"
  shows "\<exists>request. signed_by E (o_session o') request f"
  using assms trace_ok_sent [of "sent_ok E (o_session o')" "o_trace o'" f]
  by (auto simp: orch_inv_def sent_ok_def pending_ok_def)

lemma fresh_in_state:
  assumes "codec_ok (oe_request_codec E0)" and "codec_ok (oe_envelope_codec E0)" and "same_libs E0 E"
    and "orch_inv E0 o'" and "env_seals E o' (next_request E o' exec args' vb) frame"
    and "saturating_add (ses_seq (o_session o')) 1 \<noteq> - 1"
  shows "frame \<notin> set (sent_frames (o_trace o') @ pending_frames o')"
proof
  assume "frame \<in> set (sent_frames (o_trace o') @ pending_frames o')"
  from inv_frames_signed [OF assms(4) this] obtain request where "signed_by E0 (o_session o') request frame" ..
  from fresh_frame [OF assms(1-3,5) this assms(6)] show False by simp
qed

text \<open>The invariant of a state whose session turned and whose pending entries are among the old ones,
  up to the trace.\<close>

lemma inv_shrink:
  assumes inv: "orch_inv E a" and "turned a b" and sub: "subseq (o_pending b) (o_pending a)"
  shows "length (o_pending b) \<le> MAX_PENDING" and "distinct (map fst (o_pending b))"
    and "\<forall>p \<in> snd ` set (o_pending b). pending_ok E (o_session b) p"
    and "trace_ok (sent_ok E (o_session b)) (o_trace a)"
    and "ses_seq (o_session b) \<noteq> - 1 \<Longrightarrow> distinct (sent_frames (o_trace a) @ pending_frames b)"
proof -
  have turn: "o_session b \<in> {o_session a, next_session (o_session a)}" using assms(2) by (simp add: turned_def)
  have set: "set (o_pending b) \<subseteq> set (o_pending a)" using sub by (auto elim: list_emb_set)
  show "length (o_pending b) \<le> MAX_PENDING" using inv list_emb_length [OF sub] by (simp add: orch_inv_def)
  show "distinct (map fst (o_pending b))"
    using inv distinct_subseq [OF subseq_map [OF sub], of fst] by (simp add: orch_inv_def)
  show "\<forall>p \<in> snd ` set (o_pending b). pending_ok E (o_session b) p"
    using inv set turned_mono(3) [OF turn] by (auto simp: orch_inv_def)
  have "trace_ok (sent_ok E (o_session a)) (o_trace a)" using inv by (simp add: orch_inv_def)
  then show "trace_ok (sent_ok E (o_session b)) (o_trace a)"
    by (rule trace_ok_mono) (rule turned_mono(2) [OF turn])
  assume "ses_seq (o_session b) \<noteq> - 1"
  then have "distinct (sent_frames (o_trace a) @ pending_frames a)"
    using inv turned_mono(4) [OF turn] by (simp add: orch_inv_def)
  then show "distinct (sent_frames (o_trace a) @ pending_frames b)"
    by (rule distinct_subseq [rotated]) (intro list_emb_append_mono subseq_order.refl subseq_map sub)
qed

lemma inv_quiet:
  assumes "orch_inv E0 a" and "grew E a b" and "subseq (o_pending b) (o_pending a)"
  shows "orch_inv E0 b"
proof -
  obtain evs where tr: "o_trace b = o_trace a @ map Logged evs" and turn: "turned a b"
    using assms(2) by (auto simp: grew_def)
  note sh = inv_shrink [OF assms(1) turn assms(3)]
  show ?thesis unfolding orch_inv_def using sh trace_ok_logs [OF sh(4)] by (simp add: tr)
qed

lemma inv_sent:
  assumes inv: "orch_inv E0 a" and "grew_sending E a b ev f" and sub: "subseq (o_pending b) (o_pending a)"
    and ok: "sent_ok E0 (o_session b) ev f"
    and fresh: "ses_seq (o_session b) \<noteq> - 1 \<Longrightarrow> f \<notin> set (sent_frames (o_trace a) @ pending_frames b)"
  shows "orch_inv E0 b"
proof -
  obtain pre post where turn: "turned a b"
      and tr: "o_trace b = (o_trace a @ map Logged pre) @ [Logged ev, SentFrame f] @ map Logged post"
    using assms(2) by (auto simp: grew_sending_def)
  note sh = inv_shrink [OF inv turn sub]
  have "trace_ok (sent_ok E0 (o_session b)) (o_trace b)"
    unfolding tr append_assoc [of "o_trace a @ map Logged pre", symmetric]
    by (intro trace_ok_logs trace_ok_Sent ok sh(4))
  moreover have "sent_frames (o_trace b) = sent_frames (o_trace a) @ [f]" by (simp add: tr)
  ultimately show ?thesis unfolding orch_inv_def using sh fresh by simp
qed

lemma update_entries:
  "distinct (map fst xs) \<Longrightarrow> distinct (map fst (AList.update k v xs))"
  "length (AList.update k v xs) \<le> Suc (length xs)"
  "set (AList.update k v xs) \<subseteq> insert (k, v) (set xs)"
  "distinct (map g xs) \<Longrightarrow> g (k, v) \<notin> g ` set xs \<Longrightarrow> distinct (map g (AList.update k v xs))"
proof -
  show "distinct (map fst xs) \<Longrightarrow> distinct (map fst (AList.update k v xs))" by (rule distinct_update)
  show "length (AList.update k v xs) \<le> Suc (length xs)" by (induction xs) auto
  show sub: "set (AList.update k v xs) \<subseteq> insert (k, v) (set xs)" for xs by (induction xs) auto
  show "distinct (map g xs) \<Longrightarrow> g (k, v) \<notin> g ` set xs \<Longrightarrow> distinct (map g (AList.update k v xs))"
    using sub by (induction xs) (auto, blast+)
qed

lemma inv_stored:
  fixes a b c :: Orchestrator
  assumes inv: "orch_inv E0 a" and "grew E a b" and sub: "subseq (o_pending c) (o_pending a)"
    and "length (o_pending c) < MAX_PENDING" and upd: "o_pending b = AList.update i p (o_pending c)"
    and ok: "pending_ok E0 (o_session b) p"
    and fresh: "ses_seq (o_session b) \<noteq> - 1 \<Longrightarrow> pd_frame p \<notin> set (sent_frames (o_trace a) @ pending_frames a)"
  shows "orch_inv E0 b"
proof -
  obtain evs where tr: "o_trace b = o_trace a @ map Logged evs" and turn: "turned a b"
    using assms(2) by (auto simp: grew_def)
  let ?b = "b\<lparr> o_pending := o_pending c \<rparr>"
  have "turned a ?b" using turn by (simp add: turned_def same_setup_def)
  note sh = inv_shrink [OF inv this, simplified, OF sub]
  have pend: "set (o_pending b) \<subseteq> insert (i, p) (set (o_pending c))"
    unfolding upd by (rule update_entries)
  have frames: "set (pending_frames c) \<subseteq> set (pending_frames a)"
    using sub by (auto elim: list_emb_set)
  have "distinct (sent_frames (o_trace a) @ pending_frames b)" if "ses_seq (o_session b) \<noteq> - 1"
  proof -
    have d: "distinct (sent_frames (o_trace a) @ pending_frames c)" using sh(5) that by simp
    moreover have "pd_frame p \<notin> set (pending_frames c)" "pd_frame p \<notin> set (sent_frames (o_trace a))"
      using fresh [OF that] frames by auto
    moreover have "set (pending_frames b) \<subseteq> insert (pd_frame p) (set (pending_frames c))" using pend by auto
    moreover have "distinct (pending_frames b)"
      using d update_entries(4) [of "pd_frame \<circ> snd" "o_pending c" i p] \<open>pd_frame p \<notin> set (pending_frames c)\<close>
      by (simp add: upd)
    ultimately show ?thesis unfolding distinct_append by blast
  qed
  moreover have "length (o_pending b) \<le> MAX_PENDING"
    using update_entries(2) [of i p "o_pending c"] assms(4) by (simp add: upd)
  ultimately show ?thesis
    unfolding orch_inv_def
    using sh trace_ok_logs [OF sh(4)] update_entries(1) [OF sh(2)] pend ok by (auto simp: tr upd)
qed

lemma inv_run_task:
  assumes ok: "codec_ok (oe_request_codec E0)" "codec_ok (oe_envelope_codec E0)" and libs: "same_libs E0 E"
    and inv: "orch_inv E0 o'" and "run_task E o' task untrusted = (o2, r)"
  shows "orch_inv E0 o2"
  using assms(5)
proof (cases rule: run_task_effect)
  case quiet
  then show ?thesis using inv inv_quiet by blast
next
  case (stored exec args' vb frame o1)
  let ?r = "next_request E o' exec args' vb"
  have signed: "signed_by E0 (o_session o2) ?r frame" using env_seals_signed [OF libs stored(4)] stored(2) by simp
  have "frame \<notin> set (sent_frames (o_trace o') @ pending_frames o')" if "ses_seq (o_session o2) \<noteq> - 1"
    using fresh_in_state [OF ok libs inv stored(4)] that stored(2) by simp
  moreover obtain p where upd: "o_pending o2 = AList.update (random_id (oe_approval_rnd E)) p (o_pending o1)"
      and len: "length (o_pending o1) < MAX_PENDING"
      and p: "pd_frame p = frame" "pd_action_id p = rq_action_id ?r" "pd_exec p = rq_exec_name ?r"
        "pd_digest p = action_digest E0 (rq_exec_name ?r) (rq_args ?r) (p_sha256 (payload (vb_manifest vb)))"
        "pd_args_sha256 p = sha256_hex (oe_crypto E0) (args_bytes E0 (rq_args ?r))"
        "pd_two_person p = (rq_declared_risk ?r = Critical)"
    using stored(5) args_bytes_libs [OF libs] action_digest_libs [OF libs] libs
    by (simp add: stores_def next_request_def same_libs_def)
  have "pending_ok E0 (o_session o2) p"
    unfolding pending_ok_def
    by (rule exI [of _ ?r], rule exI [of _ "p_sha256 (payload (vb_manifest vb))"])
      (use signed p stored(2) in \<open>simp add: requested_event_def next_request_def\<close>)
  ultimately show ?thesis using inv_stored [OF inv stored(1) stored(3) len upd] p(1) by simp
next
  case (sent exec args' vb frame)
  let ?r = "next_request E o' exec args' vb"
  have signed: "signed_by E0 (o_session o2) ?r frame" using env_seals_signed [OF libs sent(6)] sent(1) by simp
  have "frame \<notin> set (sent_frames (o_trace o') @ pending_frames o2)" if "ses_seq (o_session o2) \<noteq> - 1"
    using fresh_in_state [OF ok libs inv sent(6)] that sent(1,2) by simp
  moreover have "sent_ok E0 (o_session o2) (ExecRequested (ses_id (o_session o')) (ActionId (fill_bytes 16 (oe_action_rnd E))) exec
      (sha256_hex (oe_crypto E) (args_bytes E args'))) frame"
    using signed decided_allow [OF sent(5)] args_bytes_libs [OF libs] libs
    by (auto simp: sent_ok_def requested_event_def next_request_def same_libs_def intro!: exI [of _ ?r])
  ultimately show ?thesis
    using inv_sent [OF inv sent(7)] sent(2) by simp
qed

lemma inv_approve:
  assumes libs: "same_libs E0 E" and inv: "orch_inv E0 o'" and "approve E o' approval_id digest = (o2, r)"
  shows "orch_inv E0 o2"
  using assms(3)
proof (cases rule: approve_cases)
  case quiet
  then show ?thesis using inv inv_quiet by blast
next
  case (approved p)
  let ?o1 = "prune_pending (oe_prune_ms E) o'"
  let ?ev = "ExecRequested (ses_id (o_session o')) (pd_action_id p) (pd_exec p) (pd_args_sha256 p)"
  have "grew E o' (o'\<lparr> o_pending := o_pending o2 \<rparr>)" by (rule grew_refl) (simp_all add: turned_def same_setup_def)
  from grew_then_sends [OF this approved(5)] have g: "grew_sending E o' o2 ?ev (pd_frame p)" by simp
  have s: "o_session o2 = o_session o'" using approved(5) by (simp add: sends_def)
  have sub: "subseq (o_pending o2) (o_pending o')"
    unfolding approved(7) by (rule subseq_order.trans [OF subseq_delete subseq_prune])
  have "pending_ok E0 (o_session o') p" using inv approved(1) by (force simp: orch_inv_def)
  then have ok: "sent_ok E0 (o_session o2) ?ev (pd_frame p)"
    using approved(3) s by (auto simp: sent_ok_def pending_ok_def)
  have "pd_frame p \<notin> set (sent_frames (o_trace o') @ pending_frames o2)" if "ses_seq (o_session o2) \<noteq> - 1"
  proof -
    have d: "distinct (sent_frames (o_trace o') @ pending_frames o')" using inv that s by (simp add: orch_inv_def)
    then have "inj_on (pd_frame \<circ> snd) (set (o_pending o'))" by (simp add: distinct_map)
    then have "p' = p \<and> i = approval_id" if "(i, p') \<in> set (o_pending o')" "pd_frame p' = pd_frame p" for i p'
      using that approved(1) inj_onD [of "pd_frame \<circ> snd" "set (o_pending o')" "(i, p')" "(approval_id, p)"] by simp
    moreover have "(approval_id, p) \<notin> set (o_pending o2)" unfolding approved(7) by (simp add: AList.delete_eq)
    moreover have "set (o_pending o2) \<subseteq> set (o_pending o')" using sub by (auto elim: list_emb_set)
    ultimately have "pd_frame p \<notin> set (pending_frames o2)" by force
    moreover have "pd_frame p \<notin> set (sent_frames (o_trace o'))" using d approved(1) by force
    ultimately show ?thesis by simp
  qed
  then show ?thesis using inv_sent [OF inv g sub ok] by blast
qed

lemma inv_reaches:
  assumes "codec_ok (oe_request_codec E0)" "codec_ok (oe_envelope_codec E0)" and "\<And>E. Env E \<Longrightarrow> same_libs E0 E"
    and "orch_reaches Env o' o2" and "orch_inv E0 o'"
  shows "orch_inv E0 o2"
  using assms(4)
proof (induction rule: rtranclp_induct)
  case (step a b)
  from step(2) show ?case
  proof cases
    case (starts E r)
    then show ?thesis using inv_quiet [OF step(3)] logs_only_grew [OF start_effect] by fastforce
  next
    case (runs E task untrusted q)
    then show ?thesis using inv_run_task [OF assms(1,2)] assms(3) step(3) by blast
  next
    case (approves E approval_id digest q)
    then show ?thesis using inv_approve assms(3) step(3) by blast
  next
    case (rejects approval_id t)
    then show ?thesis using inv_quiet [OF step(3)] reject_effect by blast
  qed
qed (rule assms(5))

lemma inv_new: "orch_inv E (orchestrator_new rnd1 rnd2 policy trust bundle_dir audit session model max_tokens' tools)"
  by (simp add: orch_inv_def orchestrator_new_def MAX_PENDING_def trace_ok_Nil)

section \<open>The log of a reachable state\<close>

lemma grew_writes:
  assumes "grew E a b \<or> grew_sending E a b ev f" and "same_libs E0 E" and "no_torn_writes E"
  shows "\<exists>evs ts. logged_events (o_trace b) = logged_events (o_trace a) @ evs \<and> length ts = length evs
    \<and> append_all (oe_crypto E0) (oe_audit_json E0) (zip ts evs) (o_audit a) = Inr (o_audit b)"
proof -
  obtain evs where "logged_events (o_trace b) = logged_events (o_trace a) @ evs" "writes E evs (o_audit a) (o_audit b)"
    using assms(1) by (auto simp: grew_def grew_sending_def)
  then show ?thesis using assms(2,3) unfolding writes_def no_torn_writes_def same_libs_def by metis
qed

lemma step_writes:
  assumes "orch_step (\<lambda>E. same_libs E0 E \<and> no_torn_writes E) a b"
  shows "\<exists>evs ts. logged_events (o_trace b) = logged_events (o_trace a) @ evs \<and> length ts = length evs
    \<and> append_all (oe_crypto E0) (oe_audit_json E0) (zip ts evs) (o_audit a) = Inr (o_audit b)"
  using assms
proof cases
  case (starts E r)
  then show ?thesis using grew_writes logs_only_grew [OF start_effect] by blast
next
  case (runs E task untrusted q)
  from runs(2) have "grew E a b \<or> (\<exists>ev f. grew_sending E a b ev f)" by (cases rule: run_task_effect) blast+
  then show ?thesis using runs(1) grew_writes by blast
next
  case (approves E approval_id digest q)
  from approves(2) have "grew E a b \<or> (\<exists>ev f. grew_sending E a b ev f)"
  proof (cases rule: approve_cases)
    case (approved p)
    have "grew E a (a\<lparr> o_pending := o_pending b \<rparr>)" by (rule grew_refl) (simp_all add: turned_def same_setup_def)
    from grew_then_sends [OF this approved(5)] show ?thesis by blast
  qed blast
  then show ?thesis using approves(1) grew_writes by blast
next
  case (rejects approval_id t)
  then have "o_trace b = o_trace a \<and> o_audit b = o_audit a" by (auto simp: reject_def split: option.splits)
  then show ?thesis by (intro exI [of _ "[]"]) (simp add: append_all_def)
qed

lemma reaches_writes:
  assumes "orch_reaches (\<lambda>E. same_libs E0 E \<and> no_torn_writes E) a b"
  shows "\<exists>evs ts. logged_events (o_trace b) = logged_events (o_trace a) @ evs \<and> length ts = length evs
    \<and> append_all (oe_crypto E0) (oe_audit_json E0) (zip ts evs) (o_audit a) = Inr (o_audit b)"
  using assms
proof (induction rule: rtranclp_induct)
  case base
  show ?case by (intro exI [of _ "[]"]) (simp add: append_all_def)
next
  case (step b c)
  from step(3) obtain e t where 1: "logged_events (o_trace b) = logged_events (o_trace a) @ e" "length t = length e"
      "append_all (oe_crypto E0) (oe_audit_json E0) (zip t e) (o_audit a) = Inr (o_audit b)" by blast
  from step_writes [OF step(2)] obtain f u where 2: "logged_events (o_trace c) = logged_events (o_trace b) @ f" "length u = length f"
      "append_all (oe_crypto E0) (oe_audit_json E0) (zip u f) (o_audit b) = Inr (o_audit c)" by blast
  show ?case
    by (rule exI [of _ "e @ f"], rule exI [of _ "t @ u"]) (use 1 2 in \<open>simp add: append_all_def fold_res_append\<close>)
qed

section \<open>A sample daemon\<close>

text \<open>A read-only session whose model always proposes the sample bundle; the executor is down.\<close>

definition lax_json :: "AuditText AuditJson" where
  "lax_json = \<lparr> record_to_vec = (\<lambda>_. Inr []), entry_to_vec = (\<lambda>_. Inr []), entry_from_str = (\<lambda>_. Inl ''malformed'') \<rparr>"

definition sample_reply :: CompletionResponse where
  "sample_reply = \<lparr> cp_text = ''{}'', cp_model = ''m'', cp_usage = \<lparr> input_tokens = 0, output_tokens = 0 \<rparr> \<rparr>"

definition sample_orch_env :: "(string, string list, string list, unit) OrchEnv" where
  "sample_orch_env =
    \<lparr> oe_crypto = sample_crypto, oe_request_codec = point_codec sample_request [1],
      oe_envelope_codec = point_codec sample_envelope [2], oe_toml = (\<lambda>_. Inr sample_manifest), oe_read = sample_files,
      oe_regex = sample_regex, oe_match = literal_lib, oe_audit_json = lax_json,
      oe_json_action = (\<lambda>_. Inr \<lparr> ra_action = ''unit-status'', ra_args = Some [(''unit'', ''sshd'')], ra_reason = None,
        ra_question = None \<rparr>),
      oe_args_json = (\<lambda>_. Inr []), oe_debug_args = (\<lambda>_. []), oe_backend_name = ''mock'', oe_complete = (\<lambda>_. Inr sample_reply),
      oe_send = (\<lambda>_. Inl ConnectExecSocket), oe_stamp = (\<lambda>_. 0), oe_fault = (\<lambda>_. None),
      oe_action_rnd = replicate 16 2, oe_nonce_rnd = replicate 16 3, oe_approval_rnd = replicate 16 4,
      oe_issued_ms = 0, oe_prune_ms = 0, oe_created_ms = 0 \<rparr>"

definition sample_session :: "OperationMode \<Rightarrow> Session" where
  "sample_session mode = session_new (replicate 16 1) sample_key mode ''default''"

definition sample_orch :: "OperationMode \<Rightarrow> Orchestrator" where
  "sample_orch mode =
    orchestrator_new (replicate 16 5) (replicate 16 6) (x_policy sample_executor) (x_trust sample_executor) ''/b'' sample_log
      (sample_session mode) ''m'' 100 []"

lemma sample_orch_env_simps [simp]:
  "oe_audit_json sample_orch_env = lax_json" "no_torn_writes sample_orch_env" "oe_crypto sample_orch_env = sample_crypto"
  "oe_send sample_orch_env f = Inl ConnectExecSocket" "oe_complete sample_orch_env q = Inr sample_reply"
  by (simp_all add: sample_orch_env_def no_torn_writes_def)

definition lax_logged :: "Orchestrator \<Rightarrow> AuditText AuditEvent \<Rightarrow> Orchestrator" where
  "lax_logged o' ev = o'\<lparr> o_audit := fst (audit_append sample_crypto lax_json 0 None (o_audit o') ev),
    o_trace := o_trace o' @ [Logged ev] \<rparr>"

lemma lax_logged_simps [simp]:
  "o_trace (lax_logged o' ev) = o_trace o' @ [Logged ev]" "o_session (lax_logged o' ev) = o_session o'"
  "o_policy (lax_logged o' ev) = o_policy o'" "o_trust (lax_logged o' ev) = o_trust o'"
  "o_bundle_dir (lax_logged o' ev) = o_bundle_dir o'" "o_pending (lax_logged o' ev) = o_pending o'"
  by (simp_all add: lax_logged_def)

lemma lax_audited: "audited sample_orch_env o' ev k = k (lax_logged o' ev)"
  by (simp add: audited_def audit_event_def audit_append_def seal_def canonical_bytes_def lax_json_def commit_line_def
      lax_logged_def sample_orch_env_def Let_def)

lemma sample_parse:
  "parse_model_response (oe_json_action sample_orch_env) (cp_text sample_reply) (builder (sample_orch mode))
    = Inr (Invoke ''unit-status'' [(''unit'', ''sshd'')] [])"
  and sample_canary: "\<not> contains (canary (o_secrets (sample_orch mode))) (cp_text sample_reply)"
proof -
  have "length (canary (o_secrets (sample_orch mode))) = 32"
    by (simp add: sample_orch_def orchestrator_new_def secrets_generate_def length_hex_token)
  then show c: "\<not> contains (canary (o_secrets (sample_orch mode))) (cp_text sample_reply)"
    by (auto simp: sample_reply_def contains_sublist simp del: contains.simps dest: sublist_length_le)
  have "trim ''{}'' = ''{}''" by (rule trim_plain) (simp add: plain_char_def)
  then show "parse_model_response (oe_json_action sample_orch_env) (cp_text sample_reply) (builder (sample_orch mode))
      = Inr (Invoke ''unit-status'' [(''unit'', ''sshd'')] [])"
    using c
    by (simp add: parse_model_response_def response_is_compromised_def builder_def sample_reply_def strip_one_fence_def
        strip_prefix_def starts_with_def ends_with_def MAX_RESPONSE_BYTES_def sample_orch_env_def Let_def unwrap_or_def
        response_safe_exec_name_def is_ascii_alphanumeric_def is_ascii_digit_def is_ascii_lowercase_def is_ascii_uppercase_def)
qed

lemma sample_load:
  "bundle_load sample_crypto (oe_toml sample_orch_env) (oe_read sample_orch_env) ''/b/unit-status.exec'' ''/b/unit-status.exec.sig''
    (x_trust sample_executor) = Inr \<lparr> vb_manifest = sample_manifest \<rparr>"
proof -
  have "resolve_bundle (sample_env sample_manifest) sample_executor sample_request = Inr \<lparr> vb_manifest = sample_manifest \<rparr>"
    by (rule sample_resolve) (simp_all add: sample_payload_bound, simp add: sample_executor_def executor_new_def)
  then show ?thesis
    using sample_name
    by (simp add: resolve_bundle_def sample_request_def sample_env_def sample_orch_env_def sample_executor_def executor_new_def
        path_join_def starts_with_def split: sum.splits)
qed

lemma sample_decided: "evaluate_policy literal_lib (x_policy sample_executor) ''default'' ReadOnly ''unit-status''
    \<lparr> vb_manifest = sample_manifest \<rparr> = Allow"
  unfolding evaluate_policy_def Let_def engine.allow_iff
  using sample_command_free
  by (simp add: request_denied_def sample_manifest_def engine_lists_def sample_executor_def executor_new_def
      allowlist_is_allowed_iff profile_def)

lemma sample_seal: "envelope_seal sample_crypto (point_codec sample_request [1]) sample_request sample_key = Inr sample_envelope"
  and sample_frame: "to_frame (point_codec sample_envelope [2]) sample_envelope = Inr (be32 1 @ [2])"
  by (simp_all add: envelope_seal_def cbor_to_vec_def point_codec_def sample_envelope_def frame_defs MAX_FRAME_LEN_def)

lemma sample_next_request:
  assumes "o_session o' = sample_session ReadOnly"
  shows "next_request sample_orch_env o' ''unit-status'' [(''unit'', ''sshd'')] \<lparr> vb_manifest = sample_manifest \<rparr> = sample_request"
  using assms
  by (simp add: next_request_def sample_session_def session_new_def sample_orch_env_def sample_request_def fill_bytes_def
      saturating_add_def sample_manifest_def)

lemma sample_invoke:
  assumes "o_session o' = sample_session ReadOnly" "o_policy o' = x_policy sample_executor"
    "o_trust o' = x_trust sample_executor" "o_bundle_dir o' = ''/b''"
  shows "\<exists>o2 e1 e2. invoke sample_orch_env o' ''unit-status'' [(''unit'', ''sshd'')] [] = (o2, Inl (OTransport ConnectExecSocket))
    \<and> o_trace o2 = o_trace o' @ [Logged e1, Logged e2, SentFrame (be32 1 @ [2])]"
proof -
  have v: "validate_args (oe_regex sample_orch_env) sample_manifest [(''unit'', ''sshd'')] = Inr ()"
    using sample_args [of sample_manifest] by (simp add: sample_orch_env_def sample_request_def)
  have d: "evaluate_policy (oe_match sample_orch_env) (x_policy sample_executor) (ses_profile (sample_session ReadOnly))
      (ses_mode (sample_session ReadOnly)) ''unit-status'' \<lparr> vb_manifest = sample_manifest \<rparr> = Allow"
    using sample_decided by (simp add: sample_orch_env_def sample_session_def session_new_def)
  have fr: "to_frame (oe_envelope_codec sample_orch_env) sample_envelope = Inr (be32 1 @ [2])"
    using sample_frame by (simp add: sample_orch_env_def)
  have sg: "sign_exec_request (oe_crypto sample_orch_env) (oe_request_codec sample_orch_env) (oe_nonce_rnd sample_orch_env)
      (oe_issued_ms sample_orch_env) (sample_session ReadOnly) (ActionId (fill_bytes 16 (oe_action_rnd sample_orch_env)))
      ''unit-status'' [(''unit'', ''sshd'')] (m_risk (meta sample_manifest)) (m_read_only (meta sample_manifest))
    = (next_session (sample_session ReadOnly), Inr sample_envelope)"
    using sample_seal sample_next_request [of "o'\<lparr> o_session := sample_session ReadOnly \<rparr>"]
    by (simp add: sign_exec_request_def next_session_def next_request_def Let_def)
      (simp add: sample_orch_env_def sample_session_def session_new_def)
  show ?thesis
    using assms sample_load v d sg fr
    by (simp add: invoke_def path_join_def starts_with_def lax_audited sign_and_route_def orch_dispatch_def Let_def)
qed

lemma sample_run:
  obtains o2 where "run_task sample_orch_env (sample_orch ReadOnly) ''status?'' [] = (o2, Inl (OTransport ConnectExecSocket))"
    "sent_frames (o_trace o2) = [be32 1 @ [2]]"
proof -
  let ?o = "sample_orch ReadOnly"
  let ?c = "response_is_compromised (builder ?o) (cp_text sample_reply)"
  have c: "\<not> ?c" using sample_canary [of ReadOnly] by (simp add: response_is_compromised_def builder_def)
  have st: "o_session ?o = sample_session ReadOnly" "o_policy ?o = x_policy sample_executor" "o_trace ?o = []"
      "o_trust ?o = x_trust sample_executor" "o_bundle_dir ?o = ''/b''"
    by (simp_all add: sample_orch_def orchestrator_new_def)
  define oa where "oa ev1 ev2 = lax_logged (lax_logged ?o ev1) ev2" for ev1 ev2
  have run: "\<exists>ev1 ev2. run_task sample_orch_env ?o ''status?'' [] =
      invoke sample_orch_env (oa ev1 ev2) ''unit-status'' [(''unit'', ''sshd'')] []"
    using c sample_parse [of ReadOnly] by (simp add: run_task_def lax_audited oa_def Let_def) blast
  then obtain ev1 ev2 where run: "run_task sample_orch_env ?o ''status?'' [] =
      invoke sample_orch_env (oa ev1 ev2) ''unit-status'' [(''unit'', ''sshd'')] []" by blast
  obtain o2 e1 e2 where "invoke sample_orch_env (oa ev1 ev2) ''unit-status'' [(''unit'', ''sshd'')] []
        = (o2, Inl (OTransport ConnectExecSocket))"
      "o_trace o2 = o_trace (oa ev1 ev2) @ [Logged e1, Logged e2, SentFrame (be32 1 @ [2])]"
    using sample_invoke [of "oa ev1 ev2"] st by (auto simp: oa_def)
  then show thesis using that run st by (simp add: oa_def)
qed

section \<open>Properties\<close>

text \<open>C6: a task runs nothing that was not proposed, verified, allowed, signed and logged.  A task sends
  at most one frame.  If it sends one, the model's reply leaked no canary and parsed as the
  invocation of that tool; the bundle file of that name was signed by a trusted operator with a
  matching payload digest, and the arguments satisfy its schema; the policy engine allowed it at
  once, so the mode is not interactive and the risk not critical; the frame is the session's
  signature over the request that names exactly this tool and these arguments under the next
  sequence number; and the request was written to the audit log immediately before.\<close>

theorem task_sends_only_vetted:
  assumes "run_task E o' task untrusted = (o2, r)"
  shows "sent_frames (o_trace o2) = sent_frames (o_trace o')
    \<or> (\<exists>exec args' vb frame pre post.
        sent_frames (o_trace o2) = sent_frames (o_trace o') @ [frame]
        \<and> proposed E o' task untrusted exec args' \<and> vetted E o' exec args' vb
        \<and> decided E o' exec vb = Allow
        \<and> ses_mode (o_session o') \<noteq> Interactive \<and> m_risk (meta (vb_manifest vb)) \<noteq> Critical
        \<and> env_seals E o' (next_request E o' exec args' vb) frame
        \<and> o_session o2 = next_session (o_session o') \<and> o_pending o2 = o_pending o'
        \<and> o_trace o2 = o_trace o' @ map Logged pre
            @ [Logged (ExecRequested (ses_id (o_session o')) (ActionId (fill_bytes 16 (oe_action_rnd E))) exec
                (sha256_hex (oe_crypto E) (args_bytes E args'))), SentFrame frame] @ map Logged post)"
  using assms
proof (cases rule: run_task_effect)
  case (sent exec args' vb frame)
  let ?ev = "ExecRequested (ses_id (o_session o')) (ActionId (fill_bytes 16 (oe_action_rnd E))) exec
    (sha256_hex (oe_crypto E) (args_bytes E args'))"
  from sent(7) obtain pre post
    where "o_trace o2 = o_trace o' @ map Logged pre @ [Logged ?ev, SentFrame frame] @ map Logged post"
    by (auto simp: grew_sending_def)
  then have "sent_frames (o_trace o2) = sent_frames (o_trace o') @ [frame]"
      "o_trace o2 = o_trace o' @ map Logged pre @ [Logged ?ev, SentFrame frame] @ map Logged post" by simp_all
  with sent decided_allow [OF sent(5)] show ?thesis by blast
qed (auto simp: grew_def)

theorem task_sends_only_vetted_witness:
  "\<exists>o2 vb. fst (run_task sample_orch_env (sample_orch ReadOnly) ''status?'' []) = o2
    \<and> sent_frames (o_trace o2) = [be32 1 @ [2]]
    \<and> vetted sample_orch_env (sample_orch ReadOnly) ''unit-status'' [(''unit'', ''sshd'')] vb"
proof -
  obtain o2 where run: "run_task sample_orch_env (sample_orch ReadOnly) ''status?'' [] = (o2, Inl (OTransport ConnectExecSocket))"
      and fr: "sent_frames (o_trace o2) = [be32 1 @ [2]]" by (rule sample_run)
  have "o_trace (sample_orch ReadOnly) = []" by (simp add: sample_orch_def orchestrator_new_def)
  then obtain exec args' vb where "proposed sample_orch_env (sample_orch ReadOnly) ''status?'' [] exec args'"
      "vetted sample_orch_env (sample_orch ReadOnly) exec args' vb"
    using task_sends_only_vetted [OF run] fr by auto
  moreover from this(1) have "exec = ''unit-status''" "args' = [(''unit'', ''sshd'')]"
    using sample_parse [of ReadOnly] by (auto simp: proposed_def)
  ultimately show ?thesis using run fr by auto
qed

text \<open>C7: an approval is used once and runs exactly the stored action.  Whatever \<open>approve\<close> does, the
  identifier is no longer pending afterwards.  It sends a frame only if the identifier was
  pending and not older than the time to live, the echoed digest is the stored one and one
  operator suffices; then the frame is the stored one, and the log records the approval and
  then the request, immediately before the frame goes out.\<close>

theorem approval_single_use:
  assumes "approve E o' approval_id digest = (o2, r)"
  shows "map_of (o_pending o2) approval_id = None
    \<and> o_session o2 = o_session o'
    \<and> (sent_frames (o_trace o2) = sent_frames (o_trace o')
      \<or> (\<exists>p post. (approval_id, p) \<in> set (o_pending o') \<and> pd_digest p = digest \<and> \<not> pd_two_person p
          \<and> saturating_sub (oe_prune_ms E) APPROVAL_TTL_MS \<le> pd_created_ms p
          \<and> o_trace o2 = o_trace o' @ [Logged (ApprovalGranted (ses_id (o_session o')) (pd_action_id p) ''operator''),
              Logged (ExecRequested (ses_id (o_session o')) (pd_action_id p) (pd_exec p) (pd_args_sha256 p)),
              SentFrame (pd_frame p)] @ map Logged post))"
  using assms
proof (cases rule: approve_cases)
  case quiet
  then show ?thesis by (auto simp: grew_def)
next
  case (approved p)
  have "map_of (o_pending o2) approval_id = None" unfolding approved(7) by (simp add: AList.delete_conv')
  moreover have "o_session o2 = o_session o'" using approved(5) by (simp add: sends_def)
  ultimately show ?thesis using approved(1-4,6) by blast
qed

definition sample_pending :: "bool \<Rightarrow> Pending" where
  "sample_pending two =
    \<lparr> pd_frame = [9], pd_action_id = ActionId (replicate 16 2), pd_exec = ''unit-status'', pd_digest = ''d'',
      pd_args_sha256 = ''a'', pd_two_person = two, pd_created_ms = 0 \<rparr>"

theorem approval_single_use_witness:
  "let o' = (sample_orch Interactive)\<lparr> o_pending := [(''id'', sample_pending False)] \<rparr>;
       o2 = fst (approve sample_orch_env o' ''id'' ''d'') in
   sent_frames (o_trace o2) = [[9]] \<and> map_of (o_pending o2) ''id'' = None"
proof -
  let ?o = "(sample_orch Interactive)\<lparr> o_pending := [(''id'', sample_pending False)] \<rparr>"
  obtain o2 r where ap: "approve sample_orch_env ?o ''id'' ''d'' = (o2, r)" by (metis surj_pair)
  have "sent_frames (o_trace o2) = [[9]]"
    using ap
    by (auto simp: approve_def prune_pending_def saturating_sub_def APPROVAL_TTL_MS_def sample_pending_def Let_def lax_audited
        orch_dispatch_def sample_orch_def orchestrator_new_def sample_orch_env_def [THEN arg_cong, of oe_prune_ms])
  then show ?thesis using approval_single_use [OF ap] ap by (simp add: Let_def)
qed

text \<open>C5: over a daemon's life nothing unapproved, unlogged or doubled leaves it.  In every state that the
  calls can reach from a new orchestrator, whatever the outside does in between: at most 64
  approvals are pending, under distinct identifiers; each holds a frame signed by the session
  whose tool, arguments and digest are the recorded ones, and asks for two persons exactly if the
  signed risk is critical; every frame that was sent is directly preceded by the log entry of the
  very request it carries, which belongs to this session and is not critical; and, as long as the
  sequence counter has not saturated, no frame was sent twice and no sent frame is pending.\<close>

theorem reachable_daemon_safe:
  assumes "codec_ok (oe_request_codec E0)" and "codec_ok (oe_envelope_codec E0)"
    and "orch_reaches (same_libs E0)
      (orchestrator_new rnd1 rnd2 policy trust bundle_dir log0 session model max_tokens' tools) o'"
  shows "length (o_pending o') \<le> 64 \<and> distinct (map fst (o_pending o'))
    \<and> (\<forall>(i, p) \<in> set (o_pending o'). pending_ok E0 (o_session o') p)
    \<and> (\<forall>pre frame post. o_trace o' = pre @ SentFrame frame # post \<longrightarrow>
        (\<exists>pre' request. pre = pre' @ [Logged (requested_event E0 request)]
          \<and> signed_by E0 (o_session o') request frame \<and> rq_declared_risk request \<noteq> Critical))
    \<and> (ses_seq (o_session o') \<noteq> - 1 \<longrightarrow> distinct (sent_frames (o_trace o') @ pending_frames o'))"
proof -
  have inv: "orch_inv E0 o'" by (rule inv_reaches [OF assms(1,2) _ assms(3) inv_new])
  then have ok: "trace_ok (sent_ok E0 (o_session o')) (o_trace o')" by (simp add: orch_inv_def)
  have "\<exists>pre' request. pre = pre' @ [Logged (requested_event E0 request)]
      \<and> signed_by E0 (o_session o') request frame \<and> rq_declared_risk request \<noteq> Critical"
    if "o_trace o' = pre @ SentFrame frame # post" for pre frame post
    using trace_ok_split [OF ok that] unfolding sent_ok_def by blast
  moreover have "\<forall>(i, p) \<in> set (o_pending o'). pending_ok E0 (o_session o') p" using inv by (force simp: orch_inv_def)
  ultimately show ?thesis using inv unfolding orch_inv_def MAX_PENDING_def by blast
qed

theorem reachable_daemon_safe_witness:
  "\<exists>o2 request. orch_reaches (same_libs sample_orch_env) (sample_orch ReadOnly) o2
    \<and> sent_frames (o_trace o2) = [be32 1 @ [2]]
    \<and> signed_by sample_orch_env (o_session o2) request (be32 1 @ [2]) \<and> rq_declared_risk request \<noteq> Critical"
proof -
  obtain o2 where run: "run_task sample_orch_env (sample_orch ReadOnly) ''status?'' [] = (o2, Inl (OTransport ConnectExecSocket))"
      and fr: "sent_frames (o_trace o2) = [be32 1 @ [2]]" by (rule sample_run)
  have step: "orch_reaches (same_libs sample_orch_env) (sample_orch ReadOnly) o2"
    by (rule r_into_rtranclp, rule orch_step.runs [OF _ run]) (simp add: same_libs_def)
  have ok: "codec_ok (oe_request_codec sample_orch_env)" "codec_ok (oe_envelope_codec sample_orch_env)"
    by (simp_all add: sample_orch_env_def point_codec_ok)
  have "SentFrame (be32 1 @ [2]) \<in> set (o_trace o2)"
  proof (rule ccontr)
    assume "SentFrame (be32 1 @ [2]) \<notin> set (o_trace o2)"
    then have "be32 1 @ [2] \<notin> set (sent_frames (o_trace o2))"
      by (auto simp: sent_frames_def List.map_filter_def split: OrchEffect.splits)
    then show False using fr by simp
  qed
  then obtain pre post where "o_trace o2 = pre @ SentFrame (be32 1 @ [2]) # post" by (meson split_list)
  then have "\<exists>request. signed_by sample_orch_env (o_session o2) request (be32 1 @ [2]) \<and> rq_declared_risk request \<noteq> Critical"
    using reachable_daemon_safe [OF ok step [unfolded sample_orch_def]] by blast
  then show ?thesis using step fr by blast
qed

text \<open>C13: the log tells everything.  Appends may fail, but as long as a failing append leaves no bytes in the
  file, the audit log of every reachable state verifies under the public half of its key; it holds the genesis entry and then exactly the
  recorded events in the order in which they happened, so by the previous statement also an
  entry for every frame that left the daemon.\<close>

theorem reachable_log_verifies:
  assumes "crypto_ok (oe_crypto E0)" and "json_ok (oe_audit_json E0)"
    and "with_sink (oe_crypto E0) (oe_audit_json E0) now None [] kp = Inr log0"
    and "orch_reaches (\<lambda>E. same_libs E0 E \<and> no_torn_writes E)
      (orchestrator_new rnd1 rnd2 policy trust bundle_dir log0 session model max_tokens' tools) o'"
    and "Suc (length (logged_events (o_trace o'))) < 2 ^ 64"
  shows "verify_chain (oe_crypto E0) (oe_audit_json E0) (al_sink (o_audit o')) (verifying_key (oe_crypto E0) (ak_signing kp)) =
      Inr \<lparr> ch_entries = of_nat (Suc (length (logged_events (o_trace o')))), ch_next_seq = al_next_seq (o_audit o'),
            ch_head_hash_hex = al_prev_hash_hex (o_audit o') \<rparr>
    \<and> (\<exists>es. log_entries (oe_audit_json E0) (reader_lines (al_sink (o_audit o'))) = Some es
        \<and> map (ar_event \<circ> ae_record) es = Genesis (public_hex (oe_crypto E0) kp) # logged_events (o_trace o'))"
proof -
  obtain evs ts where "logged_events (o_trace o') = evs" "length ts = length evs"
      "append_all (oe_crypto E0) (oe_audit_json E0) (zip ts evs) log0 = Inr (o_audit o')"
    using reaches_writes [OF assms(4)] by (auto simp: orchestrator_new_def)
  then show ?thesis using appended_log_verifies [OF assms(1-3)] assms(5) by fastforce
qed

text \<open>For the witness, a JSON library that knows the two entries of a session that was just started.\<close>

definition start_record :: "nat \<Rightarrow> AuditText AuditRecord" where
  "start_record n =
    (if n = 0 then \<lparr> ar_seq = 0, ar_timestamp_ms = 5, ar_prev_hash = genesis_prev_hash_hex,
       ar_event = Genesis (public_hex sample_crypto sample_keypair) \<rparr>
     else \<lparr> ar_seq = 1, ar_timestamp_ms = 6,
       ar_prev_hash = audit_hex_encode (chain_hash sample_crypto [1] (audit_sign sample_crypto sample_keypair [1])),
       ar_event = SessionStarted (SessionId (replicate 16 1)) ReadOnly ''default'' \<rparr>)"

definition start_entry :: "nat \<Rightarrow> AuditText AuditEntry" where
  "start_entry n =
    (let bs = [if n = 0 then 1 else 2]; sig = audit_sign sample_crypto sample_keypair bs in
     \<lparr> ae_record = start_record n, ae_signature = audit_hex_encode sig,
       ae_entry_hash = audit_hex_encode (chain_hash sample_crypto bs sig) \<rparr>)"

definition start_json :: "AuditText AuditJson" where
  "start_json =
    \<lparr> record_to_vec = (\<lambda>r. if r = start_record 0 then Inr [1] else if r = start_record 1 then Inr [2] else Inl ''unsupported''),
      entry_to_vec = (\<lambda>e. if e = start_entry 0 then Inr (as_bytes ''x'') else if e = start_entry 1 then Inr (as_bytes ''y'')
        else Inl ''unsupported''),
      entry_from_str = (\<lambda>s. if s = ''x'' then Inr (start_entry 0) else if s = ''y'' then Inr (start_entry 1) else Inl ''malformed'') \<rparr>"

definition start_env :: "(string, string list, string list, unit) OrchEnv" where
  "start_env = sample_orch_env\<lparr> oe_audit_json := start_json, oe_stamp := (\<lambda>_. 6) \<rparr>"

lemma start_json_ok: "json_ok start_json"
proof -
  have "trim ''x'' = ''x''" "trim ''y'' = ''y''" by (rule trim_plain, simp add: plain_char_def)+
  moreover have "as_bytes ''x'' = [0x78]" "as_bytes ''y'' = [0x79]" by (simp_all add: as_bytes_def byte_of_char_def)
  moreover have "utf8_valid [0x78]" "utf8_valid [0x79]" by (rule utf8_valid_ascii, simp)+
  moreover have "str_of_bytes [0x78] = ''x''" "str_of_bytes [0x79] = ''y''"
    by (simp_all add: str_of_bytes_def char_of_byte_iff byte_of_char_def)
  ultimately show ?thesis by (simp add: json_ok_def start_json_def)
qed

lemma start_records_differ: "start_record 0 \<noteq> start_record 1" "start_entry 0 \<noteq> start_entry 1"
  by (auto simp: start_record_def start_entry_def Let_def)

lemma start_log:
  obtains log0 where "with_sink sample_crypto start_json 5 None [] sample_keypair = Inr log0"
    "al_next_seq log0 = 1" "al_prev_hash_hex log0 = ae_entry_hash (start_entry 0)" "al_keypair log0 = sample_keypair"
proof -
  let ?log = "\<lparr> al_sink = [], al_keypair = sample_keypair, al_next_seq = 0, al_prev_hash_hex = genesis_prev_hash_hex \<rparr>"
  let ?ev = "Genesis (public_hex sample_crypto sample_keypair) :: AuditText AuditEvent"
  have r: "\<lparr> ar_seq = al_next_seq ?log, ar_timestamp_ms = 5, ar_prev_hash = al_prev_hash_hex ?log, ar_event = ?ev \<rparr> = start_record 0"
    by (simp add: start_record_def)
  have "\<exists>log0. audit_append sample_crypto start_json 5 None ?log ?ev = (log0, Inr ())
      \<and> al_next_seq log0 = 1 \<and> al_prev_hash_hex log0 = ae_entry_hash (start_entry 0) \<and> al_keypair log0 = sample_keypair"
    unfolding audit_append_def r
    by (simp add: seal_def canonical_bytes_def start_json_def commit_line_def saturating_add_def Let_def)
      (simp add: start_entry_def commit_line_def saturating_add_def Let_def)
  then show thesis using that by (auto simp: with_sink_def Let_def)
qed

lemma start_session_logged:
  assumes "al_next_seq log0 = 1" "al_prev_hash_hex log0 = ae_entry_hash (start_entry 0)" "al_keypair log0 = sample_keypair"
  shows "\<exists>o'. orch_start start_env ((sample_orch ReadOnly)\<lparr> o_audit := log0 \<rparr>) = (o', Inr ())
    \<and> logged_events (o_trace o') = [SessionStarted (SessionId (replicate 16 1)) ReadOnly ''default'']"
proof -
  let ?ev = "SessionStarted (SessionId (replicate 16 1)) ReadOnly ''default''"
  have r: "\<lparr> ar_seq = al_next_seq log0, ar_timestamp_ms = 6, ar_prev_hash = al_prev_hash_hex log0, ar_event = ?ev \<rparr> = start_record 1"
    using assms by (simp add: start_record_def start_entry_def Let_def)
  have "\<exists>log. audit_append sample_crypto start_json 6 None log0 ?ev = (log, Inr ())"
    unfolding audit_append_def r
    using start_records_differ assms
    by (simp add: seal_def canonical_bytes_def start_json_def commit_line_def Let_def) (simp add: start_entry_def Let_def)
  then show ?thesis
    by (auto simp: orch_start_def audited_def audit_event_def start_env_def sample_orch_def orchestrator_new_def
        sample_session_def session_new_def fill_bytes_def sample_orch_env_def Let_def)
qed

theorem reachable_log_verifies_witness:
  "\<exists>log0 o' head. with_sink sample_crypto start_json 5 None [] sample_keypair = Inr log0
    \<and> orch_start start_env ((sample_orch ReadOnly)\<lparr> o_audit := log0 \<rparr>) = (o', Inr ())
    \<and> verify_chain sample_crypto start_json (al_sink (o_audit o')) (verifying_key sample_crypto (ak_signing sample_keypair)) = Inr head
    \<and> ch_entries head = 2"
proof -
  obtain log0 where log0: "with_sink sample_crypto start_json 5 None [] sample_keypair = Inr log0"
      "al_next_seq log0 = 1" "al_prev_hash_hex log0 = ae_entry_hash (start_entry 0)" "al_keypair log0 = sample_keypair"
    by (rule start_log)
  let ?o = "(sample_orch ReadOnly)\<lparr> o_audit := log0 \<rparr>"
  have E: "oe_crypto start_env = sample_crypto" "oe_audit_json start_env = start_json" "no_torn_writes start_env"
    by (simp_all add: start_env_def no_torn_writes_def sample_orch_env_def)
  obtain o' where o': "orch_start start_env ?o = (o', Inr ())"
      "logged_events (o_trace o') = [SessionStarted (SessionId (replicate 16 1)) ReadOnly ''default'']"
    using start_session_logged [OF log0(2-4)] by metis
  have new: "?o = orchestrator_new (replicate 16 5) (replicate 16 6) (x_policy sample_executor) (x_trust sample_executor) ''/b'' log0
      (sample_session ReadOnly) ''m'' 100 []"
    by (simp add: sample_orch_def orchestrator_new_def)
  have "orch_reaches (\<lambda>E. same_libs start_env E \<and> no_torn_writes E) ?o o'"
    by (rule r_into_rtranclp, rule orch_step.starts [OF _ o'(1)]) (simp add: same_libs_def E)
  note reached = this [unfolded new]
  have "crypto_ok (oe_crypto start_env)" "json_ok (oe_audit_json start_env)"
      "with_sink (oe_crypto start_env) (oe_audit_json start_env) 5 None [] sample_keypair = Inr log0"
    using E sample_crypto_ok start_json_ok log0(1) by simp_all
  from conjunct1 [OF reachable_log_verifies [OF this reached]]
  have "verify_chain sample_crypto start_json (al_sink (o_audit o')) (verifying_key sample_crypto (ak_signing sample_keypair)) =
      Inr \<lparr> ch_entries = 2, ch_next_seq = al_next_seq (o_audit o'), ch_head_hash_hex = al_prev_hash_hex (o_audit o') \<rparr>"
    using E(1,2) o'(2) by simp
  then show ?thesis using log0(1) o'(1) by auto
qed

end
