(* ===== verification/Ctl_Server.thy ===== *)
theory Ctl_Server
  imports Orchestrator_Safety
begin

text \<open>
  The operator's control plane: the daemon's server (\<open>archangeld/src/server.rs\<close>, the accept loop of
  \<open>archangeld/src/main.rs\<close>) and the client (\<open>archangelctl/src/client.rs\<close>).
\<close>

section \<open>The service\<close>

datatype CtlReason =
    Reason OutcomeReason
  | MalformedControl CtlError
  | ControlRejected CtlError
  | ReplayGuardRefused CtlReplayRejection
  | ResponseEncodeFailed

definition outcome_to_ctl :: "TaskOutcome \<Rightarrow> CtlReason CtlOutcome" where
  "outcome_to_ctl t =
    (case t of
       Asked question \<Rightarrow> CtlAsked question
     | Refused reason \<Rightarrow> CtlRefused reason
     | Denied stage reason \<Rightarrow> CtlDenied stage (Reason reason)
     | ApprovalRequired approval_id digest exec reason preview two_person \<Rightarrow>
         CtlApprovalRequired approval_id digest exec (Reason reason) preview two_person
     | Compromised \<Rightarrow> CtlCompromised
     | Executed exec exit_code' stdout stderr \<Rightarrow> CtlExecuted exec exit_code' stdout stderr)"

definition service_run_task ::
  "('g, 's, 'r, 'f) OrchEnv \<Rightarrow> Orchestrator \<Rightarrow> string \<Rightarrow> (string \<times> string) list \<Rightarrow> Orchestrator \<times> CtlReason CtlOutcome"
where
  "service_run_task E o' task context' =
    (let (o2, r) = run_task E o' task context' in
     (o2, case r of Inr t \<Rightarrow> outcome_to_ctl t | Inl e \<Rightarrow> CtlDenied ''daemon'' (Reason (PipelineError e))))"

definition service_approve ::
  "('g, 's, 'r, 'f) OrchEnv \<Rightarrow> Orchestrator \<Rightarrow> string \<Rightarrow> string \<Rightarrow> Orchestrator \<times> CtlReason CtlOutcome"
where
  "service_approve E o' approval_id digest =
    (let (o2, r) = approve E o' approval_id digest in
     (o2, case r of Inr t \<Rightarrow> outcome_to_ctl t | Inl e \<Rightarrow> CtlDenied ''daemon'' (Reason (ApprovalError e))))"

definition service_reject :: "Orchestrator \<Rightarrow> string \<Rightarrow> Orchestrator \<times> CtlReason CtlOutcome" where
  "service_reject o' approval_id = (let (o2, t) = reject o' approval_id in (o2, outcome_to_ctl t))"

definition reload_policy :: "bool \<times> string" where
  "reload_policy = (False, ''policy reload needs signed allowlists (milestone v0.3); not available in this build'')"

section \<open>One frame\<close>

definition error_frame :: "CtlReason CtlResponse Codec \<Rightarrow> CtlReason \<Rightarrow> byte list" where
  "error_frame rc detail = (case ctl_response_to_frame rc (CtlErrorReply detail) of Inr frame \<Rightarrow> frame | Inl _ \<Rightarrow> [])"

record CtlCodecs =
  k_envelope :: "SignedCtlEnvelope Codec"
  k_body :: "CtlBody Codec"
  k_response :: "CtlReason CtlResponse Codec"

definition serve_request ::
  "('g, 's, 'r, 'f) OrchEnv \<Rightarrow> Orchestrator \<Rightarrow> CtlRequest \<Rightarrow> Orchestrator \<times> CtlReason CtlResponse"
where
  "serve_request E o' request =
    (case request of
       Ping \<Rightarrow> (o', Pong)
     | RunTask task context' \<Rightarrow> let (o2, out) = service_run_task E o' task context' in (o2, Task out)
     | Approve approval_id digest \<Rightarrow> let (o2, out) = service_approve E o' approval_id digest in (o2, Task out)
     | Reject approval_id \<Rightarrow> let (o2, out) = service_reject o' approval_id in (o2, Task out)
     | ReloadPolicy \<Rightarrow> (o', case reload_policy of (ok, detail) \<Rightarrow> PolicyReloaded ok detail))"

definition handle_ctl_frame ::
  "('g, 's, 'r, 'f) OrchEnv \<Rightarrow> CtlCodecs \<Rightarrow> byte list \<Rightarrow> VerifyingKey \<Rightarrow> CtlReplayGuard \<Rightarrow> Orchestrator
    \<Rightarrow> (CtlReplayGuard \<times> Orchestrator) \<times> byte list"
where
  "handle_ctl_frame E K frame_body operator_pub replay o' =
    (case ctl_from_frame_body (k_envelope K) frame_body of
       Inl e \<Rightarrow> ((replay, o'), error_frame (k_response K) (MalformedControl e))
     | Inr envelope \<Rightarrow>
    (case ctl_open (oe_crypto E) (k_body K) envelope operator_pub of
       Inl e \<Rightarrow> ((replay, o'), error_frame (k_response K) (ControlRejected e))
     | Inr body \<Rightarrow>
    (case ctl_admit replay (cb_seq body) (cb_nonce body) of
       (replay1, Inl why) \<Rightarrow> ((replay1, o'), error_frame (k_response K) (ReplayGuardRefused why))
     | (replay1, Inr _) \<Rightarrow>
       let (o2, response) = serve_request E o' (cb_request body) in
       ((replay1, o2),
        case ctl_response_to_frame (k_response K) response of
          Inr frame \<Rightarrow> frame
        | Inl _ \<Rightarrow> error_frame (k_response K) ResponseEncodeFailed))))"

section \<open>The accept loop\<close>

record ('g, 's, 'r, 'f) CtlConn =
  cc_env :: "('g, 's, 'r, 'f) OrchEnv"
  cc_peer_uid :: "u32 option"
  cc_incoming :: "byte list"
  cc_writable :: bool

datatype CtlServeError = CtlReadFailed "CtlError FrameReadError" | CtlWriteFailed

definition serve_connection ::
  "CtlCodecs \<Rightarrow> VerifyingKey \<Rightarrow> ('g, 's, 'r, 'f) CtlConn \<Rightarrow> Orchestrator \<Rightarrow> Orchestrator \<times> (CtlServeError, byte list) result"
where
  "serve_connection K operator_pub conn o' =
    (case read_body ctl_frame_len (cc_incoming conn) of
       Inl e \<Rightarrow> (o', Inl (CtlReadFailed e))
     | Inr body \<Rightarrow>
       let ((_, o2), response) = handle_ctl_frame (cc_env conn) K body operator_pub ctl_replay_new o' in
       (o2, if cc_writable conn then Inr response else Inl CtlWriteFailed))"

datatype CtlServed =
    CtlAcceptFailed
  | CtlUnauthorizedPeer u32
  | CtlNoPeerCredentials
  | CtlServedOne "(CtlServeError, byte list) result"

definition serve_ctl_accepted ::
  "CtlCodecs \<Rightarrow> u32 \<Rightarrow> VerifyingKey \<Rightarrow> ('g, 's, 'r, 'f) CtlConn option \<Rightarrow> Orchestrator \<Rightarrow> Orchestrator \<times> CtlServed"
where
  "serve_ctl_accepted K operator_uid operator_pub accepted o' =
    (case accepted of
       None \<Rightarrow> (o', CtlAcceptFailed)
     | Some conn \<Rightarrow>
        (case cc_peer_uid conn of
           None \<Rightarrow> (o', CtlNoPeerCredentials)
         | Some uid \<Rightarrow>
            if uid \<noteq> operator_uid then (o', CtlUnauthorizedPeer uid)
            else let (o2, r) = serve_connection K operator_pub conn o' in (o2, CtlServedOne r)))"

text \<open>The loop never returns; this is the state after any finite number of accepts.\<close>

primrec serve_ctl_loop ::
  "CtlCodecs \<Rightarrow> u32 \<Rightarrow> VerifyingKey \<Rightarrow> ('g, 's, 'r, 'f) CtlConn option list \<Rightarrow> Orchestrator \<Rightarrow> Orchestrator"
where
  "serve_ctl_loop K operator_uid operator_pub [] o' = o'"
| "serve_ctl_loop K operator_uid operator_pub (a # as) o' =
    serve_ctl_loop K operator_uid operator_pub as (fst (serve_ctl_accepted K operator_uid operator_pub a o'))"

section \<open>The client\<close>

record CtlClient =
  cl_signing_key :: SigningKey
  cl_seq :: u64

datatype ClientError =
    SealFailed CtlError
  | FrameFailed CtlError
  | SocketFailed
  | ResponseUnreadable "CtlError FrameReadError"
  | ResponseUndecodable CtlError

definition client_new :: "SigningKey \<Rightarrow> CtlClient" where
  "client_new key = \<lparr> cl_signing_key = key, cl_seq = 0 \<rparr>"

definition next_frame ::
  "Crypto \<Rightarrow> CtlCodecs \<Rightarrow> byte list \<Rightarrow> u64 \<Rightarrow> CtlClient \<Rightarrow> CtlRequest \<Rightarrow> CtlClient \<times> (ClientError, byte list) result"
where
  "next_frame C K rnd now c request =
    (let c1 = c\<lparr> cl_seq := saturating_add (cl_seq c) 1 \<rparr>;
         body = \<lparr> cb_seq = cl_seq c1, cb_nonce = fill_bytes 16 rnd, cb_issued_ms = now, cb_request = request \<rparr> in
     (c1, bind_res (map_err SealFailed (ctl_seal C (k_body K) body (cl_signing_key c1)))
            (\<lambda>env. map_err FrameFailed (ctl_to_frame (k_envelope K) env))))"

text \<open>\<open>socket\<close> is what the daemon sends back for the bytes written to it, or that connecting or
  writing failed.\<close>

definition client_request ::
  "Crypto \<Rightarrow> CtlCodecs \<Rightarrow> byte list \<Rightarrow> u64 \<Rightarrow> (byte list \<Rightarrow> byte list option) \<Rightarrow> CtlClient \<Rightarrow> CtlRequest
    \<Rightarrow> CtlClient \<times> (ClientError, CtlReason CtlResponse) result"
where
  "client_request C K rnd now socket c request =
    (let (c1, framed) = next_frame C K rnd now c request in
     (c1, bind_res framed (\<lambda>frame.
          bind_res (ok_or SocketFailed (socket frame)) (\<lambda>reply.
          bind_res (map_err ResponseUnreadable (read_body ctl_frame_len reply)) (\<lambda>body.
          map_err ResponseUndecodable (ctl_response_from_frame_body (k_response K) body))))))"

definition operator_public_hex :: "Crypto \<Rightarrow> CtlClient \<Rightarrow> string" where
  "operator_public_hex C c = concat (map push_hex_byte (vk_bytes (verifying_key C (cl_signing_key c))))"

section \<open>What a connection does\<close>

lemma fresh_guard_admits: "\<exists>g. ctl_admit ctl_replay_new q n = (g, Inr ())"
  by (simp add: ctl_admit_def ctl_replay_new_def)

lemma handle_ctl_frame_cases:
  assumes "handle_ctl_frame E K body operator_pub ctl_replay_new o' = ((g, o2), reply)"
  obtains (refused) detail where "o2 = o'" "reply = error_frame (k_response K) detail"
  | (served) env cb where "from_reader (k_envelope K) body = Inr env" "ce_version env = CTL_PROTOCOL_VERSION"
      "verify_strict (oe_crypto E) operator_pub (ce_body env) (Signature (ce_signature env))"
      "from_reader (k_body K) (ce_body env) = Inr cb" "o2 = fst (serve_request E o' (cb_request cb))"
      "reply = (case ctl_response_to_frame (k_response K) (snd (serve_request E o' (cb_request cb))) of
          Inr frame \<Rightarrow> frame | Inl _ \<Rightarrow> error_frame (k_response K) ResponseEncodeFailed)"
proof (cases "ctl_from_frame_body (k_envelope K) body")
  case (Inl e)
  then show thesis using assms by (auto simp: handle_ctl_frame_def intro: refused)
next
  case (Inr env)
  note env = Inr
  show thesis
  proof (cases "ctl_open (oe_crypto E) (k_body K) env operator_pub")
    case (Inl e)
    then show thesis using assms env by (auto simp: handle_ctl_frame_def intro: refused)
  next
    case (Inr cb)
    obtain g' where "ctl_admit ctl_replay_new (cb_seq cb) (cb_nonce cb) = (g', Inr ())" using fresh_guard_admits by blast
    then have "o2 = fst (serve_request E o' (cb_request cb)) \<and> reply =
        (case ctl_response_to_frame (k_response K) (snd (serve_request E o' (cb_request cb))) of
          Inr frame \<Rightarrow> frame | Inl _ \<Rightarrow> error_frame (k_response K) ResponseEncodeFailed)"
      using assms env Inr by (simp add: handle_ctl_frame_def split_beta Let_def)
    moreover have "from_reader (k_envelope K) body = Inr env"
      using env by (simp add: ctl_from_frame_body_def ctl_cbor_from_slice_def)
    ultimately show thesis using Inr [unfolded ctl_open_ok] served by blast
  qed
qed

lemma serve_request_step:
  assumes "Env E" and "serve_request E o' request = (o2, response)"
  shows "o2 = o' \<or> orch_step Env o' o2"
proof (cases request)
  case (RunTask task context')
  then obtain q where "run_task E o' task context' = (o2, q)"
    using assms(2) by (auto simp: serve_request_def service_run_task_def Let_def split: prod.splits)
  then show ?thesis using assms(1) orch_step.runs by blast
next
  case (Approve i d)
  then obtain q where "approve E o' i d = (o2, q)"
    using assms(2) by (auto simp: serve_request_def service_approve_def Let_def split: prod.splits)
  then show ?thesis using assms(1) orch_step.approves by blast
next
  case (Reject i)
  then obtain t where "reject o' i = (o2, t)"
    using assms(2) by (auto simp: serve_request_def service_reject_def Let_def split: prod.splits)
  then show ?thesis using orch_step.rejects by blast
qed (use assms(2) in \<open>simp_all add: serve_request_def\<close>)

lemma serve_ctl_accepted_step:
  assumes "serve_ctl_accepted K uid operator_pub accepted o' = (o2, out)" and "o2 \<noteq> o'"
  obtains conn body env cb where "accepted = Some conn" "cc_peer_uid conn = Some uid"
    "read_body ctl_frame_len (cc_incoming conn) = Inr body" "from_reader (k_envelope K) body = Inr env"
    "verify_strict (oe_crypto (cc_env conn)) operator_pub (ce_body env) (Signature (ce_signature env))"
    "from_reader (k_body K) (ce_body env) = Inr cb" "o2 = fst (serve_request (cc_env conn) o' (cb_request cb))"
proof -
  from assms obtain conn r where conn: "accepted = Some conn" "cc_peer_uid conn = Some uid"
      "serve_connection K operator_pub conn o' = (o2, r)"
    by (auto simp: serve_ctl_accepted_def Let_def split: option.splits if_splits prod.splits)
  then obtain body g reply where body: "read_body ctl_frame_len (cc_incoming conn) = Inr body"
      "handle_ctl_frame (cc_env conn) K body operator_pub ctl_replay_new o' = ((g, o2), reply)"
    using assms(2) by (auto simp: serve_connection_def Let_def split: sum.splits prod.splits)
  from body(2) show thesis
    by (cases rule: handle_ctl_frame_cases) (use assms(2) that conn body(1) in blast)+
qed

section \<open>A sample exchange\<close>

text \<open>The operator rejects the one pending action.\<close>

definition ctl_sample_body :: CtlBody where
  "ctl_sample_body = \<lparr> cb_seq = 1, cb_nonce = replicate 16 0, cb_issued_ms = 0, cb_request = Reject ''id'' \<rparr>"

definition ctl_sample_envelope :: SignedCtlEnvelope where
  "ctl_sample_envelope =
    \<lparr> ce_version = CTL_PROTOCOL_VERSION, ce_body = [1], ce_signature = sig_bytes (sign sample_crypto sample_key [1]) \<rparr>"

definition ctl_sample_response :: "CtlReason CtlResponse" where
  "ctl_sample_response = Task (CtlDenied ''rejected'' (Reason (OperatorRejected ''unit-status'')))"

definition sample_codecs :: CtlCodecs where
  "sample_codecs =
    \<lparr> k_envelope = point_codec ctl_sample_envelope [2], k_body = point_codec ctl_sample_body [1],
      k_response = point_codec ctl_sample_response [3] \<rparr>"

definition waiting_orch :: Orchestrator where
  "waiting_orch = (sample_orch Interactive)\<lparr> o_pending := [(''id'', sample_pending False)] \<rparr>"

definition sample_ctl_conn :: "(string, string list, string list, unit) CtlConn" where
  "sample_ctl_conn =
    \<lparr> cc_env = sample_orch_env, cc_peer_uid = Some 1000, cc_incoming = be32 1 @ [2], cc_writable = True \<rparr>"

lemma sample_codecs_ok: "codec_ok (k_body sample_codecs)" "codec_ok (k_envelope sample_codecs)" "codec_ok (k_response sample_codecs)"
  by (simp_all add: sample_codecs_def point_codec_ok)

lemma ctl_sample_frame:
  "next_frame sample_crypto sample_codecs (replicate 16 0) 0 (client_new sample_key) (Reject ''id'')
    = (\<lparr> cl_signing_key = sample_key, cl_seq = 1 \<rparr>, Inr (be32 1 @ [2]))"
  by (simp add: next_frame_def client_new_def saturating_add_def fill_bytes_def ctl_seal_def ctl_cbor_to_vec_def frame_defs
      sample_codecs_def point_codec_def ctl_sample_body_def ctl_sample_envelope_def CTL_MAX_FRAME_LEN_def Let_def)

lemma ctl_sample_served:
  "serve_request sample_orch_env waiting_orch (Reject ''id'') = (waiting_orch\<lparr> o_pending := [] \<rparr>, ctl_sample_response)"
  by (simp add: serve_request_def service_reject_def reject_def waiting_orch_def outcome_to_ctl_def ctl_sample_response_def
      sample_pending_def Let_def)

lemma ctl_sample_reply: "ctl_response_to_frame (k_response sample_codecs) ctl_sample_response = Inr (be32 1 @ [3])"
  by (simp add: frame_defs ctl_cbor_to_vec_def sample_codecs_def point_codec_def)

section \<open>Properties\<close>

text \<open>C14: the daemon obeys its operator only.  If serving an accepted control connection changes anything,
  the peer had the operator's uid, its frame body was at most 1 MiB, and the body of the envelope
  in it carries the operator key's signature over exactly the bytes that decode to the request;
  the new state is then that of the one call the request names, an orchestrator step.\<close>

theorem control_plane_authenticated:
  assumes "serve_ctl_accepted K uid operator_pub accepted o' = (o2, out)" and "o2 \<noteq> o'"
  shows "\<exists>conn body env cb. accepted = Some conn \<and> cc_peer_uid conn = Some uid
    \<and> read_body ctl_frame_len (cc_incoming conn) = Inr body \<and> length body \<le> CTL_MAX_FRAME_LEN
    \<and> from_reader (k_envelope K) body = Inr env
    \<and> verify_strict (oe_crypto (cc_env conn)) operator_pub (ce_body env) (Signature (ce_signature env))
    \<and> from_reader (k_body K) (ce_body env) = Inr cb
    \<and> o2 = fst (serve_request (cc_env conn) o' (cb_request cb))
    \<and> orch_step (\<lambda>E. E = cc_env conn) o' o2"
proof -
  from assms obtain conn body env cb where 1: "accepted = Some conn" "cc_peer_uid conn = Some uid"
      "read_body ctl_frame_len (cc_incoming conn) = Inr body" "from_reader (k_envelope K) body = Inr env"
      "verify_strict (oe_crypto (cc_env conn)) operator_pub (ce_body env) (Signature (ce_signature env))"
      "from_reader (k_body K) (ce_body env) = Inr cb" "o2 = fst (serve_request (cc_env conn) o' (cb_request cb))"
    by (rule serve_ctl_accepted_step)
  moreover have "length body \<le> CTL_MAX_FRAME_LEN"
    using ctl_request_frames.body_bounded [OF 1(3)] .
  moreover have "orch_step (\<lambda>E. E = cc_env conn) o' o2"
    using serve_request_step [of "\<lambda>E. E = cc_env conn" "cc_env conn" o' "cb_request cb" o2] 1(7) assms(2)
    by (metis prod.collapse)
  ultimately show ?thesis by blast
qed

theorem control_plane_authenticated_witness:
  "\<exists>o2 (env :: SignedCtlEnvelope). fst (serve_ctl_accepted sample_codecs 1000 (verifying_key sample_crypto sample_key) (Some sample_ctl_conn) waiting_orch) = o2
    \<and> o_pending o2 = [] \<and> o_pending waiting_orch \<noteq> []
    \<and> verify_strict sample_crypto (verifying_key sample_crypto sample_key) (ce_body env) (Signature (ce_signature env))"
proof -
  let ?vk = "verifying_key sample_crypto sample_key"
  have opened: "ctl_open sample_crypto (k_body sample_codecs) ctl_sample_envelope ?vk = Inr ctl_sample_body"
    by (simp add: ctl_open_ok ctl_sample_envelope_def sample_codecs_def point_codec_def) (simp add: sample_crypto_def)
  have body: "read_body ctl_frame_len (be32 1 @ [2]) = Inr [2]"
    by (simp add: read_body_def read_exact_def ctl_frame_len_def of_be32_be32 CTL_MAX_FRAME_LEN_def Let_def)
  have env: "ctl_from_frame_body (k_envelope sample_codecs) [2] = Inr ctl_sample_envelope"
    by (simp add: ctl_from_frame_body_def ctl_cbor_from_slice_def sample_codecs_def point_codec_def)
  obtain g where g: "ctl_admit ctl_replay_new (cb_seq ctl_sample_body) (cb_nonce ctl_sample_body) = (g, Inr ())"
    using fresh_guard_admits by blast
  obtain o2 out where run: "serve_ctl_accepted sample_codecs 1000 ?vk (Some sample_ctl_conn) waiting_orch = (o2, out)"
    by (metis surj_pair)
  moreover have "fst (serve_ctl_accepted sample_codecs 1000 ?vk (Some sample_ctl_conn) waiting_orch) = waiting_orch\<lparr> o_pending := [] \<rparr>"
    using opened body env g ctl_sample_served
    by (simp add: serve_ctl_accepted_def sample_ctl_conn_def serve_connection_def handle_ctl_frame_def split_beta Let_def)
      (simp add: ctl_sample_body_def)
  ultimately have o2: "o2 = waiting_orch\<lparr> o_pending := [] \<rparr>" by simp
  have pend: "o_pending waiting_orch \<noteq> []" by (simp add: waiting_orch_def)
  then have "o_pending o2 \<noteq> o_pending waiting_orch" using o2 by simp
  then have "o2 \<noteq> waiting_orch" by blast
  from control_plane_authenticated [OF run this] obtain env :: SignedCtlEnvelope
    where "verify_strict sample_crypto ?vk (ce_body env) (Signature (ce_signature env))"
    by (auto simp: sample_ctl_conn_def)
  then show ?thesis using run o2 pend by auto
qed

text \<open>C26: the operator reads what the daemon did.  The frame the client builds for a request makes the
  daemon serve exactly that request once, and the client reads the daemon's answer back from the
  reply, unless the reply is longer than the frame cap; then the request has been served all the
  same, and the client reports a framing error.\<close>

theorem control_roundtrip:
  assumes libs: "crypto_ok (oe_crypto E)" "codec_ok (k_body K)" "codec_ok (k_envelope K)" "codec_ok (k_response K)"
    and frame: "next_frame (oe_crypto E) K rnd now c request = (c1, Inr frame)"
    and conn: "cc_env conn = E" "cc_incoming conn = frame" "cc_writable conn"
    and reply: "ctl_response_to_frame (k_response K) (snd (serve_request E o' request)) = Inr reply"
  shows "serve_connection K (verifying_key (oe_crypto E) (cl_signing_key c)) conn o'
      = (fst (serve_request E o' request), Inr reply)
    \<and> client_request (oe_crypto E) K rnd now (\<lambda>f. if f = frame then Some reply else None) c request =
      (c1, if length reply - 4 \<le> CTL_MAX_FRAME_LEN then Inr (snd (serve_request E o' request))
           else Inl (ResponseUnreadable (BadLength (CtlFraming (length reply - 4)))))"
proof -
  let ?vk = "verifying_key (oe_crypto E) (cl_signing_key c)"
  let ?body = "\<lparr> cb_seq = saturating_add (cl_seq c) 1, cb_nonce = fill_bytes 16 rnd, cb_issued_ms = now, cb_request = request \<rparr>"
  obtain env where env: "ctl_seal (oe_crypto E) (k_body K) ?body (cl_signing_key c) = Inr env" "ctl_to_frame (k_envelope K) env = Inr frame"
    using frame by (auto simp: next_frame_def bind_res_eq_Inr map_err_eq_Inr Let_def)
  have small: "length frame - 4 \<le> CTL_MAX_FRAME_LEN"
    using env(2) by (auto simp: frame_defs bind_res_eq_Inr split: if_splits)
  obtain body where body: "read_body ctl_frame_len frame = Inr body" "ctl_from_frame_body (k_envelope K) body = Inr env"
    using ctl_request_frames.read_back [OF libs(3) env(2) small, of "[]"] by auto
  have opened: "ctl_open (oe_crypto E) (k_body K) env ?vk = Inr ?body"
    using ctl_env.seal_unseal [OF libs(1,2) env(1)] .
  obtain g where g: "ctl_admit ctl_replay_new (saturating_add (cl_seq c) 1) (fill_bytes 16 rnd) = (g, Inr ())"
    using fresh_guard_admits by blast
  have served: "serve_connection K ?vk conn o' = (fst (serve_request E o' request), Inr reply)"
    using conn body opened g reply
    by (simp add: serve_connection_def handle_ctl_frame_def split_beta Let_def)
  obtain bs where bs: "into_writer (k_response K) (snd (serve_request E o' request)) = Inr bs"
      "reply = be32 (length bs) @ bs" "length bs < 2 ^ 32"
    using ctl_response_frames.frame_shape [OF reply] by blast
  then have "read_body ctl_frame_len reply = (if length reply - 4 \<le> CTL_MAX_FRAME_LEN then Inr bs
      else Inl (BadLength (CtlFraming (length reply - 4))))"
    by (simp add: read_body_def read_exact_def ctl_frame_len_def of_be32_be32 Let_def)
  moreover have "ctl_response_from_frame_body (k_response K) bs = Inr (snd (serve_request E o' request))"
    using ctl_response_frames.body_decodes [OF libs(4) bs(1)] .
  ultimately show ?thesis
    using served frame by (simp add: client_request_def Let_def)
qed

theorem control_roundtrip_witness:
  "client_request sample_crypto sample_codecs (replicate 16 0) 0 (\<lambda>f. if f = be32 1 @ [2] then Some (be32 1 @ [3]) else None)
      (client_new sample_key) (Reject ''id'')
    = (\<lparr> cl_signing_key = sample_key, cl_seq = 1 \<rparr>, Inr ctl_sample_response)"
proof -
  have crypto: "oe_crypto sample_orch_env = sample_crypto" by simp
  have ok: "crypto_ok (oe_crypto sample_orch_env)" using sample_crypto_ok by simp
  have frame: "next_frame (oe_crypto sample_orch_env) sample_codecs (replicate 16 0) 0 (client_new sample_key) (Reject ''id'')
      = (\<lparr> cl_signing_key = sample_key, cl_seq = 1 \<rparr>, Inr (be32 1 @ [2]))"
    unfolding crypto by (rule ctl_sample_frame)
  have conn: "cc_env sample_ctl_conn = sample_orch_env" "cc_incoming sample_ctl_conn = be32 1 @ [2]" "cc_writable sample_ctl_conn"
    by (simp_all add: sample_ctl_conn_def)
  have reply: "ctl_response_to_frame (k_response sample_codecs) (snd (serve_request sample_orch_env waiting_orch (Reject ''id''))) = Inr (be32 1 @ [3])"
    using ctl_sample_reply by (simp add: ctl_sample_served)
  show ?thesis
    using control_roundtrip [OF ok sample_codecs_ok frame conn reply]
    by (simp add: ctl_sample_served CTL_MAX_FRAME_LEN_def)
qed

end
