(* ===== verification/Rust_Chars.thy ===== *)
theory Rust_Chars
  imports Rust_Strings
begin

text \<open>
  Strings as sequences of characters: \<open>str::chars\<close> and \<open>char_indices\<close> on UTF-8 byte strings, and
  how they distribute over concatenation.
\<close>

section \<open>The first character\<close>

text \<open>The length of the first character as a function of its first byte and the tests on the following ones.\<close>

definition utf8_step :: "byte \<Rightarrow> (nat \<Rightarrow> nat \<Rightarrow> bool) \<Rightarrow> (nat \<Rightarrow> bool) \<Rightarrow> nat" where
  "utf8_step a b2 c = 
       (if in_range 0 0x7F a then 1
        else if in_range 0xC2 0xDF a \<and> b2 0x80 0xBF then 2
        else if in_range 0xE0 0xE0 a \<and> b2 0xA0 0xBF \<and> c 1 then 3
        else if in_range 0xE1 0xEC a \<and> b2 0x80 0xBF \<and> c 1 then 3
        else if in_range 0xED 0xED a \<and> b2 0x80 0x9F \<and> c 1 then 3
        else if in_range 0xEE 0xEF a \<and> b2 0x80 0xBF \<and> c 1 then 3
        else if in_range 0xF0 0xF0 a \<and> b2 0x90 0xBF \<and> c 1 \<and> c 2 then 4
        else if in_range 0xF1 0xF3 a \<and> b2 0x80 0xBF \<and> c 1 \<and> c 2 then 4
        else if in_range 0xF4 0xF4 a \<and> b2 0x80 0x8F \<and> c 1 \<and> c 2 then 4
        else 0)"

lemma utf8_len_step:
  "utf8_len (a # r) = utf8_step a (\<lambda>lo hi. case r of b # _ \<Rightarrow> in_range lo hi b | [] \<Rightarrow> False)
     (\<lambda>i. i < length r \<and> in_range 0x80 0xBF (r ! i))"
  by (simp add: utf8_len_def utf8_step_def Let_def)

lemma three_way:
  "(if p1 then 1 else if p2 then 2 else if p3 then 3 else if p4 then 3 else if p5 then 3 else if p6 then 3 else x) = (3 :: nat)
    \<Longrightarrow> x \<noteq> 3
    \<Longrightarrow> (if p1 then 1 else if p2 then 2 else if p3 then 3 else if p4 then 3 else if p5 then 3 else if p6 then 3 else y) = (3 :: nat)"
  by (auto split: if_split_asm)

lemma utf8_step_cong:
  assumes "utf8_step a b2 c = n" "n \<noteq> 0"
    and "2 \<le> n \<Longrightarrow> b2 = b2'" "3 \<le> n \<Longrightarrow> c 1 = c' 1" "4 \<le> n \<Longrightarrow> c 2 = c' 2"
  shows "utf8_step a b2' c' = n"
proof -
  have "n = 1 \<or> n = 2 \<or> n = 3 \<or> n = 4" using assms(1,2) unfolding utf8_step_def by (simp split: if_split_asm)
  then show ?thesis
  proof (elim disjE)
    assume 1: "n = 1"
    have "utf8_step a b2 c \<noteq> 1" if "\<not> in_range 0 0x7F a" using that by (simp add: utf8_step_def)
    then have "in_range 0 0x7F a" using assms(1) 1 by blast
    then show ?thesis by (simp add: utf8_step_def 1)
  next
    assume "n = 2"
    then show ?thesis using assms(1,3) unfolding utf8_step_def by (simp split: if_split_asm)
  next
    assume 3: "n = 3"
    then have "b2' = b2" "c' 1 = c 1" using assms(3,4) by simp_all
    then show ?thesis unfolding 3 utf8_step_def
      by (simp only:) (rule three_way [OF assms(1) [unfolded utf8_step_def 3]], simp)
  next
    assume 4: "n = 4"
    then have "b2' = b2" "c' 1 = c 1" "c' 2 = c 2" using assms(3-5) by simp_all
    then show ?thesis using assms(1) unfolding utf8_step_def by (simp only:)
  qed
qed

text \<open>A well-formed first character stays one whatever follows it.\<close>

lemma utf8_len_front:
  assumes "utf8_len bs = n" and "n \<noteq> 0"
  shows "n \<le> length bs \<and> n \<le> 4 \<and> utf8_len (take n bs @ rest) = n"
proof (cases bs)
  case (Cons a r)
  note step = assms(1) [unfolded Cons utf8_len_step]
  have n: "n \<le> 4" "2 \<le> n \<Longrightarrow> 1 \<le> length r" "3 \<le> n \<Longrightarrow> 2 \<le> length r" "4 \<le> n \<Longrightarrow> 3 \<le> length r"
    using step assms(2) unfolding utf8_step_def by (auto split: if_split_asm list.splits)
  obtain m where m: "n = Suc m" using assms(2) by (cases n) auto
  have first: "(\<lambda>lo hi. case r of b # _ \<Rightarrow> in_range lo hi b | [] \<Rightarrow> False)
      = (\<lambda>lo hi. case take m r @ rest of b # _ \<Rightarrow> in_range lo hi b | [] \<Rightarrow> False)" if "2 \<le> n"
    using that n(2) m by (cases r; cases m) simp_all
  have "utf8_len (a # (take m r @ rest)) = n"
    unfolding utf8_len_step
    by (rule utf8_step_cong [OF step assms(2) first]) (use n m in \<open>auto simp: nth_append\<close>)
  moreover have "n = 1 \<or> n = 2 \<or> n = 3 \<or> n = 4" using n(1) assms(2) by arith
  then have "m \<le> length r" using n(2-4) m by (elim disjE) auto
  ultimately show ?thesis using n(1) m Cons by simp
qed (use assms in \<open>simp add: utf8_len_def\<close>)

lemma length_utf8_lossy: "length (utf8_lossy bs) \<le> 3 * length bs"
proof (induction bs rule: utf8_lossy.induct)
  case (1 bs)
  show ?case
  proof (cases "bs = []")
    case False
    show ?thesis
    proof (cases "utf8_len bs = 0")
      case True
      have "0 < utf8_bad_len bs" using False by (cases bs) (auto simp: utf8_bad_len_def Let_def)
      then show ?thesis using 1(1) [OF False True] False True by (subst utf8_lossy.simps) (cases bs; simp)
    next
      case len: False
      then show ?thesis
        using 1(2) [OF False len] False utf8_len_front [of bs "utf8_len bs" "[]"] by (subst utf8_lossy.simps) auto
    qed
  qed (simp add: utf8_lossy.simps)
qed

section \<open>Characters\<close>

text \<open>\<open>str::chars\<close>: the encodings of the characters of a string.\<close>

function chars :: "string \<Rightarrow> string list" where
  "chars s =
    (if s = [] then []
     else let n = max 1 (utf8_len (as_bytes s)) in take n s # chars (drop n s))"
  by pat_completeness auto
termination
  by (relation "measure length") auto

declare chars.simps [simp del]

definition is_str :: "string \<Rightarrow> bool" where
  "is_str s \<longleftrightarrow> utf8_valid (as_bytes s)"

definition is_char :: "string \<Rightarrow> bool" where
  "is_char c \<longleftrightarrow> c \<noteq> [] \<and> utf8_len (as_bytes c) = length c"

lemma chars_Nil [simp]: "chars [] = []"
  by (simp add: chars.simps)

lemma is_char_front: "is_char c \<Longrightarrow> utf8_len (as_bytes (c @ s)) = length c"
  using utf8_len_front [of "as_bytes c" "length c" "as_bytes s"] by (simp add: is_char_def)

lemma chars_Cons: "is_char c \<Longrightarrow> chars (c @ s) = c # chars s"
proof -
  assume c: "is_char c"
  then have "max 1 (utf8_len (as_bytes (c @ s))) = length c" "c \<noteq> []"
    unfolding is_char_front [OF c] by (auto simp: is_char_def max_def Suc_le_eq)
  then show ?thesis by (subst chars.simps) (simp del: as_bytes_append)
qed

lemma chars_concat: "\<forall>c \<in> set cs. is_char c \<Longrightarrow> chars (concat cs) = cs"
  by (induction cs) (simp_all add: chars_Cons)

lemma concat_chars [simp]: "concat (chars s) = s"
proof (induction s rule: chars.induct)
  case (1 s)
  then show ?case by (subst chars.simps) (auto simp: Let_def)
qed

lemma is_str_chars: "is_str s \<longleftrightarrow> (\<forall>c \<in> set (chars s). is_char c)"
proof (induction s rule: chars.induct)
  case (1 s)
  show ?case
  proof (cases "s = []")
    case True then show ?thesis by (simp add: is_str_def utf8_valid.simps as_bytes_def)
  next
    case False
    define n where "n = utf8_len (as_bytes s)"
    show ?thesis
    proof (cases "n = 0")
      case True
      have "\<not> is_str s" using False True by (simp add: is_str_def utf8_valid.simps n_def as_bytes_def)
      moreover have "take 1 s \<in> set (chars s)" using False True by (subst chars.simps) (simp add: n_def Let_def)
      moreover have "\<not> is_char (take 1 s)"
      proof
        assume c: "is_char (take 1 s)"
        have "utf8_len (as_bytes (take 1 s @ drop 1 s)) = length (take 1 s)" by (rule is_char_front [OF c])
        then show False using True c by (simp add: n_def is_char_def)
      qed
      ultimately show ?thesis by blast
    next
      case pos: False
      have front: "n \<le> length s" "utf8_len (as_bytes (take n s)) = n"
        using utf8_len_front [of "as_bytes s" n "[]"] pos by (simp_all add: n_def as_bytes_def take_map)
      have "is_str s \<longleftrightarrow> is_str (drop n s)"
        using False pos unfolding is_str_def by (subst utf8_valid.simps) (simp add: n_def as_bytes_def drop_map)
      moreover have "chars s = take n s # chars (drop n s)"
        using False pos by (subst chars.simps) (simp add: n_def Let_def max_def)
      moreover have "is_char (take n s)" using front pos False by (auto simp: is_char_def)
      ultimately show ?thesis using 1 [OF False refl] pos by (simp add: n_def max_def)
    qed
  qed
qed

lemma chars_append: "is_str s \<Longrightarrow> chars (s @ t) = chars s @ chars t"
proof -
  assume "is_str s"
  then have "\<forall>c \<in> set (chars s). is_char c" by (simp add: is_str_chars)
  moreover have "\<forall>c \<in> set cs. is_char c \<Longrightarrow> chars (concat cs @ t) = cs @ chars t" for cs
    by (induction cs) (simp_all add: chars_Cons)
  ultimately have "chars (concat (chars s) @ t) = chars s @ chars t" by blast
  then show ?thesis by simp
qed

lemma is_str_append: "is_str s \<Longrightarrow> is_str (s @ t) \<longleftrightarrow> is_str t"
  by (auto simp: is_str_chars chars_append)

lemma is_str_concat: "\<forall>s \<in> set ss. is_str s \<Longrightarrow> is_str (concat ss)"
  by (induction ss) (auto simp: is_str_append, simp add: is_str_chars)

lemma is_char_ascii: "(of_char c :: nat) < 128 \<Longrightarrow> is_char [c]"
  by (simp add: is_char_def utf8_len_def as_bytes_def in_range_def Let_def)

lemma chars_ascii: "\<forall>c \<in> set s. (of_char c :: nat) < 128 \<Longrightarrow> chars s = map (\<lambda>c. [c]) s"
proof (induction s)
  case (Cons c s)
  then show ?case using chars_Cons [OF is_char_ascii, of c s] by simp
qed simp

lemma is_str_ascii: "\<forall>c \<in> set s. (of_char c :: nat) < 128 \<Longrightarrow> is_str s"
  by (auto simp: is_str_chars chars_ascii intro: is_char_ascii)

end
