(* ===== verification/Llm_Backend.thy ===== *)
theory Llm_Backend
  imports Orchestrator Rust_Chars
begin

text \<open>
  The model backends: \<open>archangel-llm/src/http.rs\<close>, \<open>anthropic.rs\<close> and \<open>ollama.rs\<close>, and the
  selector \<open>AnyBackend\<close> of \<open>archangeld/src/main.rs\<close>.  The HTTP library is a parameter: what sending a
  request gives, with the body as the sequence of chunks that arrive.  So is serde: the
  serialisation of the two wire requests and the decoding of the two wire responses.  Each call returns,
  beside its result, the requests it sent and the clients it sent them through.
\<close>

section \<open>The hardened client\<close>

definition CONNECT_TIMEOUT :: duration where
  "CONNECT_TIMEOUT = 10 * 1000000000"

record HttpClient =
  hc_follow_redirects :: bool
  hc_env_proxy :: bool
  hc_connect_timeout :: duration
  hc_timeout :: duration
  hc_https_only :: bool

datatype LlmConfigError =
    NotHttps string
  | NotHttpOrHttps string
  | ClientBuildFailed string

text \<open>\<open>built\<close> is the outcome of reqwest's builder.\<close>

definition build_client :: "(string, unit) result \<Rightarrow> bool \<Rightarrow> duration \<Rightarrow> (LlmConfigError, HttpClient) result" where
  "build_client built require_tls overall_timeout =
    map_ok (\<lambda>_. \<lparr> hc_follow_redirects = False, hc_env_proxy = False, hc_connect_timeout = CONNECT_TIMEOUT,
                  hc_timeout = overall_timeout, hc_https_only = require_tls \<rparr>)
      (map_err ClientBuildFailed built)"

datatype HttpChunk = Chunk "byte list" | ChunkError string

record HttpResponse =
  hr_status :: u16
  hr_content_length :: "u64 option"
  hr_chunks :: "HttpChunk list"

record HttpRequest =
  hq_url :: string
  hq_headers :: "(string \<times> string) list"
  hq_body :: "(string, byte list) result"

type_synonym http_send = "HttpClient \<Rightarrow> HttpRequest \<Rightarrow> (string, HttpResponse) result"

definition ellipsis :: string where
  "ellipsis = [CHR 0xE2, CHR 0x80, CHR 0xA6]"

definition snippet :: "byte list \<Rightarrow> string" where
  "snippet bs =
    (let shown = from_utf8_lossy (take (min (length bs) 256) bs) in
     if length bs > 256 then shown @ ellipsis else shown)"

definition redact :: "string \<Rightarrow> string" where
  "redact e = snippet (as_bytes e)"

definition is_success :: "u16 \<Rightarrow> bool" where
  "is_success status \<longleftrightarrow> 200 \<le> unat status \<and> unat status < 300"

fun read_chunks :: "nat \<Rightarrow> byte list \<Rightarrow> HttpChunk list \<Rightarrow> (LlmError, byte list) result" where
  "read_chunks max_bytes body [] = Inr body"
| "read_chunks max_bytes body (ChunkError e # cs) = Inl (LlmTransport (redact e))"
| "read_chunks max_bytes body (Chunk c # cs) =
    (if min usize_max (length body + length c) > max_bytes then Inl (ResponseTooLarge max_bytes)
     else read_chunks max_bytes (body @ c) cs)"

text \<open>A call returns what it put on the wire, and through which client, beside its result; a body that cannot
  be serialised makes \<open>send\<close> fail before anything is sent.\<close>

type_synonym wire_log = "(HttpClient \<times> HttpRequest) list"

definition send_capped :: "http_send \<Rightarrow> HttpClient \<Rightarrow> HttpRequest \<Rightarrow> nat \<Rightarrow> wire_log \<times> (LlmError, byte list) result" where
  "send_capped send client request max_bytes =
    (case hq_body request of
       Inl e \<Rightarrow> ([], Inl (LlmTransport (redact e)))
     | Inr _ \<Rightarrow>
       ([(client, request)],
        bind_res (map_err (LlmTransport \<circ> redact) (send client request)) (\<lambda>response.
        let status = hr_status response in
        if (case hr_content_length response of Some len \<Rightarrow> unat len > max_bytes | None \<Rightarrow> False)
        then Inl (ResponseTooLarge max_bytes)
        else
        bind_res (read_chunks max_bytes [] (hr_chunks response)) (\<lambda>body.
        if \<not> is_success status then Inl (LlmStatus status (snippet body)) else Inr body))))"

section \<open>Shared pieces\<close>

definition trim_end_slashes :: "string \<Rightarrow> string" where
  "trim_end_slashes s = rev (dropWhile (\<lambda>c. c = CHR ''/'') (rev s))"

definition role_str :: "Role \<Rightarrow> string" where
  "role_str role = (case role of User \<Rightarrow> ''user'' | Assistant \<Rightarrow> ''assistant'')"

record WireMessage =
  wm_role :: string
  wm_content :: string

definition wire_message :: "Message \<Rightarrow> WireMessage" where
  "wire_message m = \<lparr> wm_role = role_str (msg_role m), wm_content = msg_content m \<rparr>"

datatype BackendCapability = SystemPrompt | PromptCaching | StructuredOutput

section \<open>Anthropic\<close>

definition ANTHROPIC_BASE_URL :: string where
  "ANTHROPIC_BASE_URL = ''https://api.anthropic.com''"

definition ANTHROPIC_VERSION :: string where
  "ANTHROPIC_VERSION = ''2023-06-01''"

definition ANTHROPIC_MAX_BYTES :: nat where
  "ANTHROPIC_MAX_BYTES = 4 * 1024 * 1024"

definition ANTHROPIC_TIMEOUT :: duration where
  "ANTHROPIC_TIMEOUT = 120 * 1000000000"

record AnthropicConfig =
  ac_base_url :: "string option"
  ac_api_key :: SecretString
  ac_timeout :: "duration option"
  ac_max_response_bytes :: "nat option"

record AnthropicBackend =
  ab_client :: HttpClient
  ab_base_url :: string
  ab_api_key :: SecretString
  ab_max_response_bytes :: nat

definition anthropic_new :: "(string, unit) result \<Rightarrow> AnthropicConfig \<Rightarrow> (LlmConfigError, AnthropicBackend) result" where
  "anthropic_new built config =
    (let trimmed = trim_end_slashes (unwrap_or ANTHROPIC_BASE_URL (ac_base_url config)) in
     if \<not> starts_with ''https://'' trimmed then Inl (NotHttps trimmed)
     else
     bind_res (build_client built True (unwrap_or ANTHROPIC_TIMEOUT (ac_timeout config))) (\<lambda>client.
     Inr \<lparr> ab_client = client, ab_base_url = trimmed, ab_api_key = ac_api_key config,
           ab_max_response_bytes = unwrap_or ANTHROPIC_MAX_BYTES (ac_max_response_bytes config) \<rparr>))"

record 'f AWireRequest =
  aw_model :: string
  aw_max_tokens :: u32
  aw_system :: "string option"
  aw_messages :: "WireMessage list"
  aw_temperature :: "'f option"

record WireBlock =
  wb_ty :: string
  wb_text :: string

record AWireResponse =
  ar_content :: "WireBlock list"
  ar_model :: string
  ar_usage :: "Usage option"

record ('f, 'q, 'p) WireJson =
  wj_to_vec :: "'q \<Rightarrow> (string, byte list) result"
  wj_from_slice :: "byte list \<Rightarrow> (string, 'p) result"

definition anthropic_request :: "('f, 'f AWireRequest, AWireResponse) WireJson \<Rightarrow> AnthropicBackend \<Rightarrow> 'f CompletionRequest \<Rightarrow> HttpRequest" where
  "anthropic_request J b request =
    \<lparr> hq_url = ab_base_url b @ ''/v1/messages'',
      hq_headers = [(''x-api-key'', secret_str (ab_api_key b)), (''anthropic-version'', ANTHROPIC_VERSION)],
      hq_body = wj_to_vec J \<lparr> aw_model = cr_model request, aw_max_tokens = cr_max_tokens request,
        aw_system = cr_system request, aw_messages = map wire_message (cr_messages request),
        aw_temperature = cr_temperature request \<rparr> \<rparr>"

definition anthropic_complete ::
  "http_send \<Rightarrow> ('f, 'f AWireRequest, AWireResponse) WireJson \<Rightarrow> AnthropicBackend \<Rightarrow> 'f CompletionRequest
    \<Rightarrow> wire_log \<times> (LlmError, CompletionResponse) result"
where
  "anthropic_complete send J b request =
    (let (sent, answer) = send_capped send (ab_client b) (anthropic_request J b request) (ab_max_response_bytes b) in
     (sent,
      bind_res answer (\<lambda>bs.
      bind_res (map_err LlmDecode (wj_from_slice J bs)) (\<lambda>decoded.
      Inr \<lparr> cp_text = concat (map wb_text (filter (\<lambda>blk. wb_ty blk = ''text'') (ar_content decoded))),
          cp_model = ar_model decoded,
          cp_usage = (case ar_usage decoded of None \<Rightarrow> \<lparr> input_tokens = 0, output_tokens = 0 \<rparr> | Some u \<Rightarrow> u) \<rparr>))))"

definition anthropic_supports :: "BackendCapability \<Rightarrow> bool" where
  "anthropic_supports c \<longleftrightarrow> c \<in> {SystemPrompt, PromptCaching, StructuredOutput}"

section \<open>Ollama\<close>

definition OLLAMA_BASE_URL :: string where
  "OLLAMA_BASE_URL = ''http://127.0.0.1:11434''"

definition OLLAMA_MAX_BYTES :: nat where
  "OLLAMA_MAX_BYTES = 8 * 1024 * 1024"

definition OLLAMA_TIMEOUT :: duration where
  "OLLAMA_TIMEOUT = 300 * 1000000000"

record OllamaConfig =
  oc_base_url :: "string option"
  oc_timeout :: "duration option"
  oc_max_response_bytes :: "nat option"

record OllamaBackend =
  ob_client :: HttpClient
  ob_base_url :: string
  ob_max_response_bytes :: nat

definition ollama_new :: "(string, unit) result \<Rightarrow> OllamaConfig \<Rightarrow> (LlmConfigError, OllamaBackend) result" where
  "ollama_new built config =
    (let trimmed = trim_end_slashes (unwrap_or OLLAMA_BASE_URL (oc_base_url config)) in
     if \<not> (starts_with ''http://'' trimmed \<or> starts_with ''https://'' trimmed) then Inl (NotHttpOrHttps trimmed)
     else
     bind_res (build_client built False (unwrap_or OLLAMA_TIMEOUT (oc_timeout config))) (\<lambda>client.
     Inr \<lparr> ob_client = client, ob_base_url = trimmed,
           ob_max_response_bytes = unwrap_or OLLAMA_MAX_BYTES (oc_max_response_bytes config) \<rparr>))"

record 'f WireOptions =
  wo_num_predict :: u32
  wo_temperature :: "'f option"

record 'f OWireRequest =
  ow_model :: string
  ow_messages :: "WireMessage list"
  ow_stream :: bool
  ow_options :: "'f WireOptions"

record OWireResponse =
  or_model :: string
  or_message :: "string option"
  or_prompt_eval_count :: u32
  or_eval_count :: u32

definition ollama_messages :: "'f CompletionRequest \<Rightarrow> WireMessage list" where
  "ollama_messages request =
    (case cr_system request of Some system \<Rightarrow> [\<lparr> wm_role = ''system'', wm_content = system \<rparr>] | None \<Rightarrow> [])
    @ map wire_message (cr_messages request)"

definition ollama_request :: "('f, 'f OWireRequest, OWireResponse) WireJson \<Rightarrow> OllamaBackend \<Rightarrow> 'f CompletionRequest \<Rightarrow> HttpRequest" where
  "ollama_request J b request =
    \<lparr> hq_url = ob_base_url b @ ''/api/chat'', hq_headers = [],
      hq_body = wj_to_vec J \<lparr> ow_model = cr_model request, ow_messages = ollama_messages request, ow_stream = False,
        ow_options = \<lparr> wo_num_predict = cr_max_tokens request, wo_temperature = cr_temperature request \<rparr> \<rparr> \<rparr>"

definition ollama_complete ::
  "http_send \<Rightarrow> ('f, 'f OWireRequest, OWireResponse) WireJson \<Rightarrow> OllamaBackend \<Rightarrow> 'f CompletionRequest
    \<Rightarrow> wire_log \<times> (LlmError, CompletionResponse) result"
where
  "ollama_complete send J b request =
    (let (sent, answer) = send_capped send (ob_client b) (ollama_request J b request) (ob_max_response_bytes b) in
     (sent,
      bind_res answer (\<lambda>bs.
      bind_res (map_err LlmDecode (wj_from_slice J bs)) (\<lambda>decoded.
      Inr \<lparr> cp_text = unwrap_or [] (or_message decoded), cp_model = or_model decoded,
          cp_usage = \<lparr> input_tokens = or_prompt_eval_count decoded, output_tokens = or_eval_count decoded \<rparr> \<rparr>))))"

definition ollama_supports :: "BackendCapability \<Rightarrow> bool" where
  "ollama_supports c \<longleftrightarrow> c = SystemPrompt"

section \<open>The selected backend\<close>

datatype AnyBackend = Anthropic AnthropicBackend | Ollama OllamaBackend

record 'f LlmLib =
  ll_send :: http_send
  ll_anthropic :: "('f, 'f AWireRequest, AWireResponse) WireJson"
  ll_ollama :: "('f, 'f OWireRequest, OWireResponse) WireJson"

definition backend_name :: "AnyBackend \<Rightarrow> string" where
  "backend_name b = (case b of Anthropic _ \<Rightarrow> ''anthropic'' | Ollama _ \<Rightarrow> ''ollama'')"

definition any_complete :: "'f LlmLib \<Rightarrow> AnyBackend \<Rightarrow> 'f CompletionRequest \<Rightarrow> wire_log \<times> (LlmError, CompletionResponse) result" where
  "any_complete L b request =
    (case b of
       Anthropic ab \<Rightarrow> anthropic_complete (ll_send L) (ll_anthropic L) ab request
     | Ollama ob \<Rightarrow> ollama_complete (ll_send L) (ll_ollama L) ob request)"

definition any_supports :: "AnyBackend \<Rightarrow> BackendCapability \<Rightarrow> bool" where
  "any_supports b c = (case b of Anthropic _ \<Rightarrow> anthropic_supports c | Ollama _ \<Rightarrow> ollama_supports c)"

section \<open>What a reply can be\<close>

lemma read_chunks_ok:
  assumes "max_bytes < usize_max" and "length body \<le> max_bytes"
  shows "read_chunks max_bytes body cs = Inr b \<longleftrightarrow>
    (\<exists>bss. cs = map Chunk bss \<and> b = body @ concat bss \<and> length b \<le> max_bytes)"
  using assms
proof (induction max_bytes body cs rule: read_chunks.induct)
  case (3 max_bytes body c cs)
  let ?over = "max_bytes < min usize_max (length body + length c)"
  show ?case
  proof (cases ?over)
    case True
    have "length (concat bss) \<ge> length c" if "Chunk c # cs = map Chunk bss" for bss using that by auto
    then show ?thesis using True by fastforce
  next
    case False
    then have "length (body @ c) \<le> max_bytes" using 3(2) by simp
    note IH = 3(1) [OF False 3(2) this]
    have "(\<exists>bss. Chunk c # cs = map Chunk bss \<and> b = body @ concat bss \<and> length b \<le> max_bytes)
      \<longleftrightarrow> (\<exists>bss. cs = map Chunk bss \<and> b = (body @ c) @ concat bss \<and> length b \<le> max_bytes)"
      by (auto simp: Cons_eq_map_conv)
    then show ?thesis using False IH by simp
  qed
qed (auto simp: Cons_eq_map_conv)

lemma send_capped_ok:
  assumes "max_bytes < usize_max"
  shows "send_capped send client q max_bytes = (sent, Inr b) \<longleftrightarrow>
    (\<exists>r bss. is_ok (hq_body q) \<and> sent = [(client, q)] \<and> send client q = Inr r \<and> hr_chunks r = map Chunk bss \<and> b = concat bss
      \<and> length b \<le> max_bytes \<and> is_success (hr_status r)
      \<and> (\<forall>len. hr_content_length r = Some len \<longrightarrow> unat len \<le> max_bytes))"
  using read_chunks_ok [OF assms, of "[]"]
  by (auto simp: send_capped_def bind_res_eq_Inr map_err_eq_Inr is_ok_iff Let_def not_less split: sum.splits option.splits if_splits)

lemma send_capped_sends: "fst (send_capped send client q max_bytes) = (if is_ok (hq_body q) then [(client, q)] else [])"
  by (auto simp: send_capped_def is_ok_iff split: sum.splits)

text \<open>The wire request of the selected backend and the client it goes through.\<close>

definition wire_request :: "'f LlmLib \<Rightarrow> AnyBackend \<Rightarrow> 'f CompletionRequest \<Rightarrow> HttpClient \<times> HttpRequest" where
  "wire_request L b request =
    (case b of
       Anthropic ab \<Rightarrow> (ab_client ab, anthropic_request (ll_anthropic L) ab request)
     | Ollama ob \<Rightarrow> (ob_client ob, ollama_request (ll_ollama L) ob request))"

definition wire_cap :: "AnyBackend \<Rightarrow> nat" where
  "wire_cap b = (case b of Anthropic ab \<Rightarrow> ab_max_response_bytes ab | Ollama ob \<Rightarrow> ob_max_response_bytes ob)"

lemma any_complete_sends: "sent = fst (any_complete L b request) \<Longrightarrow> sent \<in> {[], [wire_request L b request]}"
  by (auto simp: any_complete_def anthropic_complete_def ollama_complete_def send_capped_sends wire_request_def split_beta Let_def
      split: AnyBackend.splits)

lemma any_complete_ok:
  assumes "any_complete L b request = (sent, Inr resp)" and "wire_cap b < usize_max"
  obtains reply bss where "sent = [wire_request L b request]" "ll_send L (fst (wire_request L b request)) (snd (wire_request L b request)) = Inr reply"
    "is_success (hr_status reply)" "hr_chunks reply = map Chunk bss" "length (concat bss) \<le> wire_cap b"
proof (cases b)
  case (Anthropic ab)
  then obtain bs where "send_capped (ll_send L) (ab_client ab) (anthropic_request (ll_anthropic L) ab request) (wire_cap b) = (sent, Inr bs)"
    using assms(1) by (auto simp: any_complete_def anthropic_complete_def wire_cap_def bind_res_eq_Inr split_beta Let_def prod_eq_iff)
  then show thesis using that Anthropic unfolding send_capped_ok [OF assms(2)] wire_request_def by auto
next
  case (Ollama ob)
  then obtain bs where "send_capped (ll_send L) (ob_client ob) (ollama_request (ll_ollama L) ob request) (wire_cap b) = (sent, Inr bs)"
    using assms(1) by (auto simp: any_complete_def ollama_complete_def wire_cap_def bind_res_eq_Inr split_beta Let_def prod_eq_iff)
  then show thesis using that Ollama unfolding send_capped_ok [OF assms(2)] wire_request_def by auto
qed

lemma snippet_short: "length (snippet bs) \<le> 3 * 256 + 3"
  using length_utf8_lossy [of "take (min (length bs) 256) bs"]
  by (auto simp: snippet_def from_utf8_lossy_def ellipsis_def Let_def)

end
