(* ===== verification/Daemon.thy ===== *)
theory Daemon
  imports Files Ctl_Server Monitor Llm_Backend
begin

text \<open>
  The daemon as a whole, \<open>archangeld/src/main.rs\<close>: start-up on a disk, and the two loops that share the
  orchestrator under its lock.  The names of the errors are those of the contexts the code
  attaches.
\<close>

section \<open>Start-up steps\<close>

datatype DaemonError =
    LoadingConfig ConfigError
  | TokenNotSet
  | BackendFailed LlmConfigError
  | UnsupportedDefaultBackend string
  | LoadingTrust ExecFormatError
  | LoadingAllowlist PolicyError
  | ReadOperatorPub
  | OperatorPubHex KeyHexMessage
  | OperatorPubNot32
  | OperatorPubInvalid
  | ReadAuditKey
  | InvalidAuditKey AuditError
  | CreateAuditKey FileError
  | RotateAuditLog FileError
  | OpenAuditLog AuditError
  | AuditStart OrchestratorError
  | PublishSessionPub FileError
  | BindControl
  | ChmodControl
  | MonitorPatterns MonitorError

definition publish_session_pub :: "FileEnv \<Rightarrow> string \<Rightarrow> string \<Rightarrow> (FileError, unit) io" where
  "publish_session_pub F path hex =
    (let tmp = path @ ''.tmp'' in
     bind_io (fs_overwrite F tmp 0x1A0 (as_bytes hex @ [0x0A])) (\<lambda>_. fs_rename F tmp path))"

text \<open>\<open>var\<close> is the process environment, \<open>built\<close> the outcome of the HTTP client builder.\<close>

definition build_backend ::
  "(string \<Rightarrow> string option) \<Rightarrow> (string, unit) result \<Rightarrow> Config \<Rightarrow> (DaemonError, AnyBackend) result"
where
  "build_backend var built cfg =
    (let backend = default_backend (cfg_llm cfg) in
     if backend = ''anthropic'' then
       bind_res (ok_or TokenNotSet (var ''ARCHANGEL_LLM_TOKEN'')) (\<lambda>token.
       map_ok Anthropic (map_err BackendFailed (anthropic_new built
         \<lparr> ac_base_url = None, ac_api_key = SecretString token, ac_timeout = None, ac_max_response_bytes = None \<rparr>)))
     else if backend = ''ollama'' then
       map_ok Ollama (map_err BackendFailed (ollama_new built
         \<lparr> oc_base_url = var ''ARCHANGEL_OLLAMA_URL'', oc_timeout = None, oc_max_response_bytes = None \<rparr>))
     else Inl (UnsupportedDefaultBackend backend))"

text \<open>\<open>seed\<close> is what the generator yields for a new key.\<close>

definition load_or_create_audit_key :: "FileEnv \<Rightarrow> byte list \<Rightarrow> string \<Rightarrow> (DaemonError, AuditKeypair) io" where
  "load_or_create_audit_key F seed path d =
    (if fs_exists d path then
       (d, bind_res (ok_or ReadAuditKey (read_to_string (fs_read F d) path)) (\<lambda>hex.
           map_err InvalidAuditKey (from_secret_hex (trim hex))))
     else
       let kp = from_secret_bytes (fill_bytes 32 seed);
           (d1, r) = fs_create_new F path 0x180 (as_bytes (daemon_encode_hex (secret_bytes (audit_secret_bytes kp)))) d in
       (d1, map_ok (\<lambda>_. kp) (map_err CreateAuditKey r)))"

definition rotate_existing_log :: "FileEnv \<Rightarrow> nat \<Rightarrow> string \<Rightarrow> (FileError, unit) io" where
  "rotate_existing_log F ms path d =
    (if fs_exists d path then fs_rename F path (path @ ''.prev-'' @ show_nat ms) d else (d, Inr ()))"

text \<open>\<open>AuditLog::open\<close>: append to the file, which is created if absent, and write the genesis entry.\<close>

definition audit_open ::
  "Crypto \<Rightarrow> 't AuditJson \<Rightarrow> u64 \<Rightarrow> nat option \<Rightarrow> FileEnv \<Rightarrow> string \<Rightarrow> AuditKeypair \<Rightarrow> (AuditError, AuditLog) io"
where
  "audit_open C J now_ms fault F path kp d =
    (if fe_open_fails F path then (d, Inl AuditIo)
     else
       let (old, mode) = (case d path of Some file \<Rightarrow> file | None \<Rightarrow> ([], 0x1A0));
           log = \<lparr> al_sink = old, al_keypair = kp, al_next_seq = 0, al_prev_hash_hex = genesis_prev_hash_hex \<rparr>;
           (log', r) = audit_append C J now_ms fault log (Genesis (public_hex C kp)) in
       (d(path \<mapsto> (al_sink log', mode)), map_ok (\<lambda>_. log') r))"

text \<open>\<open>Path::extension\<close> and \<open>Path::file_stem\<close> of a directory entry's name.\<close>

definition split_at_dot :: "string \<Rightarrow> string \<times> string option" where
  "split_at_dot name =
    (case rsplit_once CHR ''.'' name of
       None \<Rightarrow> (name, None)
     | Some (before, ext) \<Rightarrow> if name = ''..'' \<or> before = [] then (name, None) else (before, Some ext))"

definition tool_of ::
  "Crypto \<Rightarrow> (string \<Rightarrow> (string, ExecManifest) result) \<Rightarrow> (string \<Rightarrow> byte list option) \<Rightarrow> string \<Rightarrow> OperatorTrust \<Rightarrow> bool
    \<Rightarrow> string \<Rightarrow> ToolSpec option"
where
  "tool_of C toml read bundle_dir trust read_only_only name =
    (let (stem, ext) = split_at_dot name in
     if ext \<noteq> Some ''exec'' \<or> \<not> utf8_valid (as_bytes stem) then None
     else case bundle_load C toml read (path_join bundle_dir name) (path_join bundle_dir (stem @ ''.exec.sig'')) trust of
       Inl _ \<Rightarrow> None
     | Inr b \<Rightarrow>
        let m = meta (vb_manifest b) in
        if read_only_only \<and> \<not> m_read_only m then None
        else Some \<lparr> ts_name = m_name m, ts_description = ''v'' @ m_version m @ '' risk='' @ risk_debug (m_risk m),
                    ts_read_only = m_read_only m \<rparr>)"

text \<open>\<open>read_dir\<close> lists the names of the readable entries of a directory, if it can be read.\<close>

definition discover_tools ::
  "Crypto \<Rightarrow> (string \<Rightarrow> (string, ExecManifest) result) \<Rightarrow> (string \<Rightarrow> byte list option) \<Rightarrow> (string \<Rightarrow> string list option)
    \<Rightarrow> string \<Rightarrow> OperatorTrust \<Rightarrow> bool \<Rightarrow> ToolSpec list"
where
  "discover_tools C toml read read_dir bundle_dir trust read_only_only =
    (case read_dir bundle_dir of
       None \<Rightarrow> []
     | Some names \<Rightarrow> List.map_filter (tool_of C toml read bundle_dir trust read_only_only) names)"

definition operator_key :: "Crypto \<Rightarrow> (string \<Rightarrow> byte list option) \<Rightarrow> string \<Rightarrow> (DaemonError, VerifyingKey) result" where
  "operator_key C read path =
    bind_res (ok_or ReadOperatorPub (read_to_string read path)) (\<lambda>hex.
    bind_res (map_err OperatorPubHex (daemon_decode_hex hex)) (\<lambda>v.
    bind_res (ok_or OperatorPubNot32 (to_array 32 v)) (\<lambda>bytes.
    ok_or OperatorPubInvalid (vk_from_bytes C bytes))))"

text \<open>The control socket: an old one is removed if it can be, and the new one gets the configured permissions.  A
  failing removal is ignored, but then the path is taken and binding fails.  \<open>bound\<close> is the mode the socket is
  bound with, if binding works otherwise.\<close>

definition bind_control :: "bool \<Rightarrow> u32 option \<Rightarrow> bool \<Rightarrow> SocketsCfg \<Rightarrow> (DaemonError, unit) io" where
  "bind_control remove_ok bound chmod_ok cfg d =
    (let d1 = (if fs_exists d (s_control cfg) \<and> remove_ok then d(s_control cfg := None) else d) in
     case bound of
       None \<Rightarrow> (d1, Inl BindControl)
     | Some mode \<Rightarrow>
        if fs_exists d1 (s_control cfg) then (d1, Inl BindControl)
        else if \<not> chmod_ok then (d1(s_control cfg \<mapsto> ([], mode)), Inl ChmodControl)
        else (d1(s_control cfg \<mapsto> ([], s_control_mode cfg)), Inr ()))"

definition build_monitor_driver ::
  "'t TriggerLib \<Rightarrow> (string \<Rightarrow> u64 option) \<Rightarrow> MonitorCfg \<Rightarrow> (DaemonError, 't MonitorDriver) result"
where
  "build_monitor_driver L metadata_len cfg =
    map_err MonitorPatterns (driver_new L metadata_len (mon_sources cfg)
      \<lparr> max_line_bytes = cfg_max_line_bytes cfg, max_lines_per_poll = cfg_max_lines_per_poll cfg \<rparr>
      (map (\<lambda>p. \<lparr> pt_label = mp_label p, pt_regex = mp_regex p \<rparr>) (mon_patterns cfg))
      (unat (cooldown_secs cfg) * 1000000000))"

definition spawn_monitor_if_enabled ::
  "'t TriggerLib \<Rightarrow> (string \<Rightarrow> u64 option) \<Rightarrow> MonitorCfg \<Rightarrow> (DaemonError, ('t MonitorDriver \<times> duration) option) result"
where
  "spawn_monitor_if_enabled L metadata_len cfg =
    (if \<not> mon_enabled cfg then Inr None
     else map_ok (\<lambda>driver. Some (driver, max (unat (poll_interval_secs cfg)) 1 * 1000000000))
       (build_monitor_driver L metadata_len cfg))"

section \<open>The main function\<close>

text \<open>What start-up sees of the world: the files and their faults, the libraries, the environment
  variables, fresh keys and random bytes, the clock, and the outcomes of the socket calls.\<close>

record ('g, 's, 'r, 'f, 't) DaemonWorld =
  dw_files :: FileEnv
  dw_env :: "('g, 's, 'r, 'f) OrchEnv"
  dw_toml_config :: "string \<Rightarrow> (string, Config) result"
  dw_toml_allow :: "string \<Rightarrow> (string, Allowlist) result"
  dw_var :: "string \<Rightarrow> string option"
  dw_http_built :: "(string, unit) result"
  dw_read_dir :: "string \<Rightarrow> string list option"
  dw_triggers :: "'t TriggerLib"
  dw_metadata_len :: "string \<Rightarrow> u64 option"
  dw_audit_seed :: "byte list"
  dw_session_rnd :: "byte list"
  dw_session_key :: SigningKey
  dw_secret_rnd :: "byte list \<times> byte list"
  dw_rotate_ms :: nat
  dw_genesis_ms :: u64
  dw_genesis_fault :: "nat option"
  dw_remove_ok :: bool
  dw_bound :: "u32 option"
  dw_chmod_ok :: bool

record 't DaemonRun =
  dr_orch :: Orchestrator
  dr_backend :: AnyBackend
  dr_operator_uid :: u32
  dr_operator_pub :: VerifyingKey
  dr_monitor :: "('t MonitorDriver \<times> duration) option"

definition model_of :: "AnyBackend \<Rightarrow> LlmCfg \<Rightarrow> string" where
  "model_of backend cfg =
    (case llm_model cfg of
       Some model \<Rightarrow> model
     | None \<Rightarrow> if backend_name backend = ''anthropic'' then ''claude-sonnet-4-6'' else ''llama3'')"

text \<open>The orchestrator owns the backend: its model calls are those of the backend the daemon built.\<close>

definition with_backend :: "'f LlmLib \<Rightarrow> AnyBackend \<Rightarrow> ('g, 's, 'r, 'f) OrchEnv \<Rightarrow> ('g, 's, 'r, 'f) OrchEnv" where
  "with_backend L b E = E\<lparr> oe_backend_name := backend_name b, oe_complete := (\<lambda>request. snd (any_complete L b request)) \<rparr>"

text \<open>From \<open>start\<close> on, the log file is the sink of the orchestrator's log.\<close>

definition start_orchestrator :: "('g, 's, 'r, 'f) OrchEnv \<Rightarrow> string \<Rightarrow> Orchestrator \<Rightarrow> (DaemonError, Orchestrator) io" where
  "start_orchestrator E log_path o0 d =
    (let (o1, r) = orch_start E o0 in
     (d(log_path := map_option (\<lambda>(_, mode). (al_sink (o_audit o1), mode)) (d log_path)),
      map_ok (\<lambda>_. o1) (map_err AuditStart r)))"

definition daemon_main :: "('g, 's, 'r, 'f, 't) DaemonWorld \<Rightarrow> string \<Rightarrow> (DaemonError, 't DaemonRun) io" where
  "daemon_main W config =
    (let F = dw_files W; E = dw_env W; C = oe_crypto E in
     bind_io (look_io (\<lambda>d. map_err LoadingConfig (config_load (read_to_string (fs_read F d)) (dw_toml_config W) config))) (\<lambda>cfg.
     bind_io (lift_io (build_backend (dw_var W) (dw_http_built W) cfg)) (\<lambda>backend.
     let D = cfg_daemon cfg in
     bind_io (look_io (\<lambda>d. map_err LoadingTrust (trust_load C (read_to_string (fs_read F d)) (d_trust_store D)))) (\<lambda>trust.
     bind_io (look_io (\<lambda>d. map_err LoadingAllowlist (allowlist_load (read_to_string (fs_read F d)) (dw_toml_allow W) (d_allowlist D)))) (\<lambda>al.
     bind_io (look_io (\<lambda>d. operator_key C (fs_read F d) (d_operator_pubkey D))) (\<lambda>operator_pub.
     bind_io (load_or_create_audit_key F (dw_audit_seed W) (d_audit_key D)) (\<lambda>kp.
     bind_io (map_err_io RotateAuditLog (rotate_existing_log F (dw_rotate_ms W) (d_audit_log D))) (\<lambda>_.
     bind_io (map_err_io OpenAuditLog (audit_open C (oe_audit_json E) (dw_genesis_ms W) (dw_genesis_fault W) F (d_audit_log D) kp)) (\<lambda>audit.
     let mode = mode_default (cfg_modes cfg);
         session = session_new (dw_session_rnd W) (dw_session_key W) mode ''default'';
         session_pub_hex = daemon_encode_hex (vk_bytes (session_verifying_key C session)) in
     bind_io (look_io (\<lambda>d. Inr (discover_tools C (oe_toml E) (fs_read F d) (dw_read_dir W) (d_bundle_dir D) trust (mode = ReadOnly)))) (\<lambda>tools.
     bind_io (start_orchestrator E (d_audit_log D)
       (orchestrator_new (fst (dw_secret_rnd W)) (snd (dw_secret_rnd W)) \<lparr> pe_allowlist = al \<rparr> trust (d_bundle_dir D) audit session
         (model_of backend (cfg_llm cfg)) (max_tokens (cfg_llm cfg)) tools)) (\<lambda>o1.
     bind_io (map_err_io PublishSessionPub (publish_session_pub F (d_session_pub D) session_pub_hex)) (\<lambda>_.
     bind_io (bind_control (dw_remove_ok W) (dw_bound W) (dw_chmod_ok W) (cfg_sockets cfg)) (\<lambda>_.
     bind_io (lift_io (spawn_monitor_if_enabled (dw_triggers W) (dw_metadata_len W) (cfg_monitor cfg))) (\<lambda>monitor.
     lift_io (Inr \<lparr> dr_orch = o1, dr_backend = backend, dr_operator_uid = s_operator_uid (cfg_sockets cfg),
                    dr_operator_pub = operator_pub, dr_monitor = monitor \<rparr>)))))))))))))))"

section \<open>The loops\<close>

text \<open>The monitor's tick polls the sources; each alert of the tick is then assessed under the lock, so a
  control request may be served between any two of them.\<close>

record 't DaemonState =
  ds_orch :: Orchestrator
  ds_driver :: "'t MonitorDriver option"
  ds_alerts :: "Alert list"

definition daemon_init :: "'t DaemonRun \<Rightarrow> 't DaemonState" where
  "daemon_init r = \<lparr> ds_orch = dr_orch r, ds_driver = map_option fst (dr_monitor r), ds_alerts = [] \<rparr>"

definition assess_alert :: "('g, 's, 'r, 'f) OrchEnv \<Rightarrow> Alert \<Rightarrow> Orchestrator \<Rightarrow> Orchestrator \<times> (OrchestratorError, TaskOutcome) result" where
  "assess_alert E alert o' = run_task E o' AUTONOMOUS_TASK [(''log-line'', ev_line (al_event alert))]"

inductive daemon_step ::
  "CtlCodecs \<Rightarrow> u32 \<Rightarrow> VerifyingKey \<Rightarrow> 't TriggerLib \<Rightarrow> (('g, 's, 'r, 'f) OrchEnv \<Rightarrow> bool) \<Rightarrow> 't DaemonState \<Rightarrow> 't DaemonState \<Rightarrow> bool"
  for K operator_uid operator_pub L Env
where
  control: "(\<And>conn. accepted = Some conn \<Longrightarrow> Env (cc_env conn)) \<Longrightarrow>
    serve_ctl_accepted K operator_uid operator_pub accepted (ds_orch s) = (o2, out) \<Longrightarrow>
    daemon_step K operator_uid operator_pub L Env s (s\<lparr> ds_orch := o2 \<rparr>)"
| tick: "ds_alerts s = [] \<Longrightarrow> ds_driver s = Some d \<Longrightarrow> poll_actionable L ios now d = (d2, alerts) \<Longrightarrow>
    daemon_step K operator_uid operator_pub L Env s (s\<lparr> ds_driver := Some d2, ds_alerts := alerts \<rparr>)"
| assess: "ds_alerts s = a # as \<Longrightarrow> Env E \<Longrightarrow> assess_alert E a (ds_orch s) = (o2, r) \<Longrightarrow>
    daemon_step K operator_uid operator_pub L Env s (s\<lparr> ds_orch := o2, ds_alerts := as \<rparr>)"

inductive_cases daemon_stepE: "daemon_step K operator_uid operator_pub L Env s s2"

end
