(* ===== verification/Daemon_Safety.thy ===== *)
theory Daemon_Safety
  imports Daemon
begin

text \<open>
  Properties of the daemon as a whole: what start-up leaves on the disk and in memory, and that the two
  loops together stay within what the orchestrator alone can do.
\<close>

section \<open>Keys on the disk\<close>

lemma key_file_reads_back:
  assumes "crypto_ok C" and "read path = Some (as_bytes (daemon_encode_hex (vk_bytes (verifying_key C k))) @ [0x0A])"
  shows "read_key_file C read path = Inr (verifying_key C k)"
proof -
  let ?b = "vk_bytes (verifying_key C k)"
  have k: "length ?b = 32" "vk_from_bytes C ?b = Some (verifying_key C k)" using assms(1) by (simp_all add: crypto_ok_def)
  have "hex_encode ?b \<noteq> []" using length_hex_encode [of ?b] k(1) by (metis list.size(3) mult_eq_0_iff zero_neq_numeral)
  then have "trim (hex_encode ?b @ [CHR 0x0A]) = hex_encode ?b" using trim_newline [OF hex_encode_plain] by blast
  then show ?thesis
    using assms(2) k execd_hex.decode_encode [of ?b]
    by (simp add: read_key_file_def key_from_hex_def read_to_string_def hex_line_utf8 daemon_encode_hex_def to_array_def)
qed

lemma tmp_differs: "path @ ''.tmp'' \<noteq> path"
  by simp

text \<open>C34: the session key is published atomically.  However publishing ends, a reader finds at the path
  either what was there before or, exactly if it succeeded, a complete key file from which the
  executor reads the session's public key; no other file but the temporary one is touched.\<close>

theorem session_key_published_atomically:
  assumes "crypto_ok C"
    and "publish_session_pub F path (daemon_encode_hex (vk_bytes (session_verifying_key C s))) d = (d2, r)"
  shows "(if r = Inr () then \<forall>F'. \<not> fe_read_fails F' path \<longrightarrow> read_key_file C (fs_read F' d2) path = Inr (session_verifying_key C s)
      else d2 path = d path)
    \<and> (\<forall>q. q \<noteq> path \<longrightarrow> q \<noteq> path @ ''.tmp'' \<longrightarrow> d2 q = d q)"
proof -
  let ?bs = "as_bytes (daemon_encode_hex (vk_bytes (session_verifying_key C s))) @ [0x0A]"
  let ?tmp = "path @ ''.tmp''"
  obtain d1 r1 where w: "fs_overwrite F ?tmp 0x1A0 ?bs d = (d1, r1)" by (metis surj_pair)
  have other: "d1 q = d q" if "q \<noteq> ?tmp" for q using fs_frame(3) [OF that, of F] w by (metis fst_conv)
  show ?thesis
  proof (cases r1)
    case (Inl e)
    then have "d2 = d1 \<and> r = Inl e" using assms(2) w by (simp add: publish_session_pub_def bind_io_def Let_def)
    then show ?thesis using other by simp
  next
    case (Inr u)
    then obtain mode where d1: "d1 = d(?tmp \<mapsto> (?bs, mode))" using w by (auto simp: fs_overwrite_Inr)
    have mv: "fs_rename F ?tmp path d1 = (d2, r)"
      using assms(2) w Inr by (simp add: publish_session_pub_def bind_io_def Let_def)
    show ?thesis
    proof (cases "fe_rename_fails F path")
      case True
      then have "d2 = d1 \<and> r = Inl FileRename" using mv by (simp add: fs_rename_def)
      then show ?thesis using other by simp
    next
      case False
      then have r: "r = Inr ()" "d2 = d1(path \<mapsto> (?bs, mode), ?tmp := None)" using mv d1 by (simp_all add: fs_rename_def)
      have "read_key_file C (fs_read F' d2) path = Inr (session_verifying_key C s)" if "\<not> fe_read_fails F' path" for F'
        unfolding session_verifying_key_def
        by (rule key_file_reads_back [OF assms(1)]) (simp add: fs_read_def that r(2) session_verifying_key_def)
      then show ?thesis using r d1 by simp
    qed
  qed
qed

definition quiet_files :: FileEnv where
  "quiet_files = \<lparr> fe_read_fails = (\<lambda>_. False), fe_open_fails = (\<lambda>_. False), fe_write_stops = (\<lambda>_. None), fe_rename_fails = (\<lambda>_. False) \<rparr>"

theorem session_key_published_atomically_witness:
  "\<exists>d2. publish_session_pub quiet_files ''/run/s.pub'' (daemon_encode_hex (vk_bytes (session_verifying_key sample_crypto (sample_session ReadOnly)))) Map.empty
      = (d2, Inr ())
    \<and> read_key_file sample_crypto (fs_read quiet_files d2) ''/run/s.pub'' = Inr (session_verifying_key sample_crypto (sample_session ReadOnly))"
proof -
  let ?hex = "daemon_encode_hex (vk_bytes (session_verifying_key sample_crypto (sample_session ReadOnly)))"
  obtain d2 where p: "publish_session_pub quiet_files ''/run/s.pub'' ?hex Map.empty = (d2, Inr ())"
    by (simp add: publish_session_pub_def bind_io_def fs_overwrite_def fs_put_def fs_rename_def quiet_files_def Let_def)
  from session_key_published_atomically [OF sample_crypto_ok p] show ?thesis using p by (auto simp: quiet_files_def)
qed



section \<open>Start-up\<close>

text \<open>The files start-up may have touched when it looks for tools: the audit key, the log and the old log it moved away.\<close>

definition audit_files :: "('g, 's, 'r, 'f, 't) DaemonWorld \<Rightarrow> Config \<Rightarrow> string set" where
  "audit_files W cfg =
    {d_audit_key (cfg_daemon cfg), d_audit_log (cfg_daemon cfg), d_audit_log (cfg_daemon cfg) @ ''.prev-'' @ show_nat (dw_rotate_ms W)}"

lemma audit_setup_frame:
  assumes "load_or_create_audit_key F seed key d = (d0, Inr kp)" and "rotate_existing_log F ms path d0 = (d1, Inr u)"
    and "audit_open C J now fault F path kp d1 = (d2, Inr log)" and "p \<notin> {key, path, path @ ''.prev-'' @ show_nat ms}"
  shows "d2 p = d p"
proof -
  have "d0 p = d p"
    using assms(1,4) fs_frame(2) [of p key F "0x180"] by (fastforce simp: load_or_create_audit_key_def Let_def split_beta split: if_splits)
  moreover have "d1 p = d0 p"
    using assms(2,4) by (auto simp: rotate_existing_log_def fs_rename_def split: if_splits)
  moreover have "d2 p = d1 p"
    using assms(3,4) by (auto simp: audit_open_def Let_def split_beta split: if_splits)
  ultimately show ?thesis by simp
qed

lemma daemon_main_ok:
  assumes "daemon_main W config d = (d', Inr dr)"
  obtains cfg trust al audit tools d1 d2 d3 where
    "config_load (read_to_string (fs_read (dw_files W) d)) (dw_toml_config W) config = Inr cfg"
    "build_backend (dw_var W) (dw_http_built W) cfg = Inr (dr_backend dr)"
    "trust_load (oe_crypto (dw_env W)) (read_to_string (fs_read (dw_files W) d)) (d_trust_store (cfg_daemon cfg)) = Inr trust"
    "allowlist_load (read_to_string (fs_read (dw_files W) d)) (dw_toml_allow W) (d_allowlist (cfg_daemon cfg)) = Inr al"
    "operator_key (oe_crypto (dw_env W)) (fs_read (dw_files W) d) (d_operator_pubkey (cfg_daemon cfg)) = Inr (dr_operator_pub dr)"
    "dr_operator_uid dr = s_operator_uid (cfg_sockets cfg)"
    "\<And>p. p \<notin> audit_files W cfg \<Longrightarrow> d1 p = d p"
    "tools = discover_tools (oe_crypto (dw_env W)) (oe_toml (dw_env W)) (fs_read (dw_files W) d1) (dw_read_dir W)
      (d_bundle_dir (cfg_daemon cfg)) trust (mode_default (cfg_modes cfg) = ReadOnly)"
    "orch_start (dw_env W) (orchestrator_new (fst (dw_secret_rnd W)) (snd (dw_secret_rnd W)) \<lparr> pe_allowlist = al \<rparr> trust
      (d_bundle_dir (cfg_daemon cfg)) audit (session_new (dw_session_rnd W) (dw_session_key W) (mode_default (cfg_modes cfg)) ''default'')
      (model_of (dr_backend dr) (cfg_llm cfg)) (max_tokens (cfg_llm cfg)) tools) = (dr_orch dr, Inr ())"
    "publish_session_pub (dw_files W) (d_session_pub (cfg_daemon cfg))
      (daemon_encode_hex (vk_bytes (verifying_key (oe_crypto (dw_env W)) (dw_session_key W)))) d2 = (d3, Inr ())"
    "bind_control (dw_remove_ok W) (dw_bound W) (dw_chmod_ok W) (cfg_sockets cfg) d3 = (d', Inr ())"
    "spawn_monitor_if_enabled (dw_triggers W) (dw_metadata_len W) (cfg_monitor cfg) = Inr (dr_monitor dr)"
proof -
  note steps = assms [unfolded daemon_main_def Let_def io_Inr]
  from steps obtain cfg backend trust al pub kp audit tools o1 monitor d0 d01 d1 d2 d3 where
      main: "config_load (read_to_string (fs_read (dw_files W) d)) (dw_toml_config W) config = Inr cfg"
      "build_backend (dw_var W) (dw_http_built W) cfg = Inr backend"
      "trust_load (oe_crypto (dw_env W)) (read_to_string (fs_read (dw_files W) d)) (d_trust_store (cfg_daemon cfg)) = Inr trust"
      "allowlist_load (read_to_string (fs_read (dw_files W) d)) (dw_toml_allow W) (d_allowlist (cfg_daemon cfg)) = Inr al"
      "operator_key (oe_crypto (dw_env W)) (fs_read (dw_files W) d) (d_operator_pubkey (cfg_daemon cfg)) = Inr pub"
      "tools = discover_tools (oe_crypto (dw_env W)) (oe_toml (dw_env W)) (fs_read (dw_files W) d1) (dw_read_dir W)
        (d_bundle_dir (cfg_daemon cfg)) trust (mode_default (cfg_modes cfg) = ReadOnly)"
      "start_orchestrator (dw_env W) (d_audit_log (cfg_daemon cfg)) (orchestrator_new (fst (dw_secret_rnd W)) (snd (dw_secret_rnd W))
        \<lparr> pe_allowlist = al \<rparr> trust (d_bundle_dir (cfg_daemon cfg)) audit
        (session_new (dw_session_rnd W) (dw_session_key W) (mode_default (cfg_modes cfg)) ''default'')
        (model_of backend (cfg_llm cfg)) (max_tokens (cfg_llm cfg)) tools) d1 = (d2, Inr o1)"
      "publish_session_pub (dw_files W) (d_session_pub (cfg_daemon cfg)) (daemon_encode_hex (vk_bytes (session_verifying_key
        (oe_crypto (dw_env W)) (session_new (dw_session_rnd W) (dw_session_key W) (mode_default (cfg_modes cfg)) ''default'')))) d2 = (d3, Inr ())"
      "bind_control (dw_remove_ok W) (dw_bound W) (dw_chmod_ok W) (cfg_sockets cfg) d3 = (d', Inr ())"
      "spawn_monitor_if_enabled (dw_triggers W) (dw_metadata_len W) (cfg_monitor cfg) = Inr monitor"
      "dr = \<lparr> dr_orch = o1, dr_backend = backend, dr_operator_uid = s_operator_uid (cfg_sockets cfg),
                    dr_operator_pub = pub, dr_monitor = monitor \<rparr>"
    and audit: "load_or_create_audit_key (dw_files W) (dw_audit_seed W) (d_audit_key (cfg_daemon cfg)) d = (d0, Inr kp)"
      "rotate_existing_log (dw_files W) (dw_rotate_ms W) (d_audit_log (cfg_daemon cfg)) d0 = (d01, Inr ())"
      "audit_open (oe_crypto (dw_env W)) (oe_audit_json (dw_env W)) (dw_genesis_ms W) (dw_genesis_fault W) (dw_files W)
        (d_audit_log (cfg_daemon cfg)) kp d01 = (d1, Inr audit)"
    by (clarsimp simp: map_err_eq_Inr)
  note frame = audit_setup_frame [OF audit, folded audit_files_def]
  from main show thesis
    by (intro that [of cfg trust al d1 tools audit d2 d3])
      (simp_all add: frame start_orchestrator_def split_beta map_ok_eq_Inr map_err_eq_Inr session_verifying_key_def session_new_def prod_eq_iff)
qed

lemma split_at_dot_exec: "split_at_dot name = (stem, Some ''exec'') \<longleftrightarrow> stem \<noteq> [] \<and> name = stem @ ''.exec''"
proof
  assume "split_at_dot name = (stem, Some ''exec'')"
  then show "stem \<noteq> [] \<and> name = stem @ ''.exec''"
    by (auto simp: split_at_dot_def split: option.splits if_splits dest: rsplit_once_Some)
next
  have "rsplit_once CHR ''.'' (stem @ ''.exec'') = Some (stem, ''exec'')" by (induction stem) simp_all
  moreover assume "stem \<noteq> [] \<and> name = stem @ ''.exec''"
  ultimately show "split_at_dot name = (stem, Some ''exec'')" by (auto simp: split_at_dot_def Cons_eq_append_conv)
qed

lemma tool_of_Some:
  "tool_of C toml read bundle_dir trust ro name = Some t \<longleftrightarrow>
    (\<exists>stem b. stem \<noteq> [] \<and> name = stem @ ''.exec'' \<and> utf8_valid (as_bytes stem)
      \<and> bundle_load C toml read (path_join bundle_dir name) (path_join bundle_dir (stem @ ''.exec.sig'')) trust = Inr b
      \<and> (ro \<longrightarrow> m_read_only (meta (vb_manifest b)))
      \<and> t = \<lparr> ts_name = m_name (meta (vb_manifest b)),
              ts_description = ''v'' @ m_version (meta (vb_manifest b)) @ '' risk='' @ risk_debug (m_risk (meta (vb_manifest b))),
              ts_read_only = m_read_only (meta (vb_manifest b)) \<rparr>)"
proof -
  obtain stem ext where sp: "split_at_dot name = (stem, ext)" by (metis surj_pair)
  show ?thesis
  proof (cases "ext = Some ''exec''")
    case True
    then have n: "stem \<noteq> []" "name = stem @ ''.exec''" using sp split_at_dot_exec by blast+
    then show ?thesis using sp True by (auto simp: tool_of_def Let_def split: sum.splits)
  next
    case False
    then have "\<nexists>st. st \<noteq> [] \<and> name = st @ ''.exec''" using sp split_at_dot_exec by (metis prod.inject)
    then show ?thesis using sp False by (auto simp: tool_of_def)
  qed
qed

lemma discovered_tool:
  "t \<in> set (discover_tools C toml read read_dir bundle_dir trust ro) \<longleftrightarrow>
    (\<exists>names name. read_dir bundle_dir = Some names \<and> name \<in> set names \<and> tool_of C toml read bundle_dir trust ro name = Some t)"
  by (cases "read_dir bundle_dir") (force simp: discover_tools_def List.map_filter_def image_iff)+

text \<open>A hardened backend: the client neither follows redirects nor uses a proxy of the environment, and has both
  timeouts; the Anthropic backend talks TLS to the fixed endpoint with the token of the environment, the Ollama backend
  talks to the configured address without credentials.\<close>

definition hardened_backend :: "(string \<Rightarrow> string option) \<Rightarrow> AnyBackend \<Rightarrow> bool" where
  "hardened_backend var b \<longleftrightarrow>
    (case b of
       Anthropic ab \<Rightarrow> var ''ARCHANGEL_LLM_TOKEN'' = Some (secret_str (ab_api_key ab)) \<and> ab_base_url ab = ''https://api.anthropic.com''
         \<and> ab_max_response_bytes ab = 4 * 1024 * 1024
         \<and> ab_client ab = \<lparr> hc_follow_redirects = False, hc_env_proxy = False, hc_connect_timeout = 10 * 1000000000,
             hc_timeout = 120 * 1000000000, hc_https_only = True \<rparr>
     | Ollama ob \<Rightarrow> ob_base_url ob = trim_end_slashes (unwrap_or ''http://127.0.0.1:11434'' (var ''ARCHANGEL_OLLAMA_URL''))
         \<and> (starts_with ''http://'' (ob_base_url ob) \<or> starts_with ''https://'' (ob_base_url ob))
         \<and> ob_max_response_bytes ob = 8 * 1024 * 1024
         \<and> ob_client ob = \<lparr> hc_follow_redirects = False, hc_env_proxy = False, hc_connect_timeout = 10 * 1000000000,
             hc_timeout = 300 * 1000000000, hc_https_only = False \<rparr>)"

lemma build_backend_hardened:
  assumes "build_backend var built cfg = Inr b"
  shows "hardened_backend var b" "backend_name b = default_backend (cfg_llm cfg)"
proof -
  have "trim_end_slashes ''https://api.anthropic.com'' = ''https://api.anthropic.com''" by (simp add: trim_end_slashes_def)
  then show "hardened_backend var b" "backend_name b = default_backend (cfg_llm cfg)"
    using assms
    by (auto simp: build_backend_def hardened_backend_def backend_name_def anthropic_new_def ollama_new_def build_client_def unwrap_or_def
        bind_res_eq_Inr map_ok_eq_Inr map_err_eq_Inr ok_or_eq_Inr ANTHROPIC_BASE_URL_def ANTHROPIC_MAX_BYTES_def ANTHROPIC_TIMEOUT_def
        OLLAMA_BASE_URL_def OLLAMA_MAX_BYTES_def OLLAMA_TIMEOUT_def CONNECT_TIMEOUT_def Let_def split: if_splits)
qed

lemma start_fresh:
  assumes "orch_start E (orchestrator_new r1 r2 policy trust dir audit session model n tools) = (o1, r)"
  shows "o_pending o1 = []" "sent_frames (o_trace o1) = []" "o_session o1 = session" "o_tools o1 = tools" "o_trust o1 = trust"
    "o_policy o1 = policy" "o_bundle_dir o1 = dir"
  using start_effect [OF assms] by (auto simp: logs_only_def same_setup_def orchestrator_new_def)

lemma published_key:
  assumes "crypto_ok (oe_crypto (dw_env W))" and "daemon_main W config d = (d', Inr dr)"
    and "config_load (read_to_string (fs_read (dw_files W) d)) (dw_toml_config W) config = Inr cfg"
    and "d_session_pub (cfg_daemon cfg) \<noteq> s_control (cfg_sockets cfg)" "\<not> fe_read_fails F (d_session_pub (cfg_daemon cfg))"
    and "d2 (d_session_pub (cfg_daemon cfg)) = d' (d_session_pub (cfg_daemon cfg))"
  shows "read_key_file (oe_crypto (dw_env W)) (fs_read F d2) (d_session_pub (cfg_daemon cfg))
    = Inr (verifying_key (oe_crypto (dw_env W)) (dw_session_key W))"
proof -
  from assms(2,3) obtain d1 d3 where pub: "publish_session_pub (dw_files W) (d_session_pub (cfg_daemon cfg))
        (daemon_encode_hex (vk_bytes (verifying_key (oe_crypto (dw_env W)) (dw_session_key W)))) d1 = (d3, Inr ())"
      and ctl: "bind_control (dw_remove_ok W) (dw_bound W) (dw_chmod_ok W) (cfg_sockets cfg) d3 = (d', Inr ())"
    by (metis daemon_main_ok sum.inject(2))
  from pub have "\<exists>mode. d3 (d_session_pub (cfg_daemon cfg))
      = Some (as_bytes (daemon_encode_hex (vk_bytes (verifying_key (oe_crypto (dw_env W)) (dw_session_key W)))) @ [0x0A], mode)"
    by (auto simp: publish_session_pub_def Let_def io_Inr fs_overwrite_Inr fs_rename_Inr)
  moreover have "d' (d_session_pub (cfg_daemon cfg)) = d3 (d_session_pub (cfg_daemon cfg))"
    using ctl assms(4) by (auto simp: bind_control_def Let_def split: option.splits if_splits)
  ultimately show ?thesis using assms(5,6) by (auto simp: fs_read_def intro!: key_file_reads_back [OF assms(1)])
qed

lemma started_inv:
  assumes "codec_ok (oe_request_codec E)" "codec_ok (oe_envelope_codec E)"
    and "orch_start E (orchestrator_new r1 r2 policy trust dir audit session model n tools) = (o1, r)"
  shows "orch_inv E o1"
proof -
  have "same_libs E E" by (simp add: same_libs_def)
  from orch_step.starts [of "same_libs E", OF this assms(3)] show ?thesis
    using inv_reaches [OF assms(1,2) _ r_into_rtranclp inv_new] by blast
qed

text \<open>C23: a daemon that starts, starts safely.  Its configuration meets the security baseline; the mode is
  the configured one, and autonomous only if that is allowed; nothing has been sent and nothing
  is pending; the backend is the configured one and hardened; trust store, allowlist, operator key and operator uid
  are those the configuration names; the tools offered to the model are exactly those of the bundles \<open>stem.exec\<close>
  in the bundle directory that verify, with the signature file next to them, under that trust
  store, and only read-only ones in read-only mode (as read from the disk after the audit files
  were set up); the control socket is closed to others; the
  executor reads the session's public key from the published file; and the monitor runs exactly
  if it is enabled.\<close>

theorem daemon_starts_safely:
  fixes W :: "('g, 's, 'r, 'f, 't) DaemonWorld"
  assumes "crypto_ok (oe_crypto (dw_env W))" and "daemon_main W config d = (d', Inr dr)"
  shows "\<exists>cfg d1. config_load (read_to_string (fs_read (dw_files W) d)) (dw_toml_config W) config = Inr cfg \<and> config_validate cfg = Inr ()
    \<and> ses_mode (o_session (dr_orch dr)) = mode_default (cfg_modes cfg)
    \<and> (ses_mode (o_session (dr_orch dr)) = Autonomous \<longrightarrow> autonomous_allowed (cfg_modes cfg))
    \<and> o_pending (dr_orch dr) = [] \<and> sent_frames (o_trace (dr_orch dr)) = []
    \<and> backend_name (dr_backend dr) = default_backend (cfg_llm cfg) \<and> hardened_backend (dw_var W) (dr_backend dr)
    \<and> trust_load (oe_crypto (dw_env W)) (read_to_string (fs_read (dw_files W) d)) (d_trust_store (cfg_daemon cfg)) = Inr (o_trust (dr_orch dr))
    \<and> allowlist_load (read_to_string (fs_read (dw_files W) d)) (dw_toml_allow W) (d_allowlist (cfg_daemon cfg)) = Inr (pe_allowlist (o_policy (dr_orch dr)))
    \<and> operator_key (oe_crypto (dw_env W)) (fs_read (dw_files W) d) (d_operator_pubkey (cfg_daemon cfg)) = Inr (dr_operator_pub dr)
    \<and> dr_operator_uid dr = s_operator_uid (cfg_sockets cfg)
    \<and> o_bundle_dir (dr_orch dr) = d_bundle_dir (cfg_daemon cfg)
    \<and> (\<forall>p. p \<notin> audit_files W cfg \<longrightarrow> d1 p = d p)
    \<and> (\<forall>t. t \<in> set (o_tools (dr_orch dr)) \<longleftrightarrow>
        (\<exists>names stem b. dw_read_dir W (o_bundle_dir (dr_orch dr)) = Some names \<and> stem @ ''.exec'' \<in> set names
          \<and> stem \<noteq> [] \<and> utf8_valid (as_bytes stem)
          \<and> bundle_load (oe_crypto (dw_env W)) (oe_toml (dw_env W)) (fs_read (dw_files W) d1)
              (path_join (o_bundle_dir (dr_orch dr)) (stem @ ''.exec'')) (path_join (o_bundle_dir (dr_orch dr)) (stem @ ''.exec.sig''))
              (o_trust (dr_orch dr)) = Inr b
          \<and> (ses_mode (o_session (dr_orch dr)) = ReadOnly \<longrightarrow> m_read_only (meta (vb_manifest b)))
          \<and> t = \<lparr> ts_name = m_name (meta (vb_manifest b)),
                  ts_description = ''v'' @ m_version (meta (vb_manifest b)) @ '' risk='' @ risk_debug (m_risk (meta (vb_manifest b))),
                  ts_read_only = m_read_only (meta (vb_manifest b)) \<rparr>))
    \<and> (\<exists>mode. d' (s_control (cfg_sockets cfg)) = Some ([], mode) \<and> mode AND 7 = 0)
    \<and> (d_session_pub (cfg_daemon cfg) \<noteq> s_control (cfg_sockets cfg) \<longrightarrow>
        (\<forall>F. \<not> fe_read_fails F (d_session_pub (cfg_daemon cfg)) \<longrightarrow>
          read_key_file (oe_crypto (dw_env W)) (fs_read F d') (d_session_pub (cfg_daemon cfg))
            = Inr (session_verifying_key (oe_crypto (dw_env W)) (o_session (dr_orch dr)))))
    \<and> (dr_monitor dr \<noteq> None \<longleftrightarrow> mon_enabled (cfg_monitor cfg))"
proof -
  let ?C = "oe_crypto (dw_env W)"
  from assms(2) obtain cfg trust al audit tools d1 d2 d3 where
      1: "config_load (read_to_string (fs_read (dw_files W) d)) (dw_toml_config W) config = Inr cfg"
    and backend: "build_backend (dw_var W) (dw_http_built W) cfg = Inr (dr_backend dr)"
    and loaded: "trust_load ?C (read_to_string (fs_read (dw_files W) d)) (d_trust_store (cfg_daemon cfg)) = Inr trust"
      "allowlist_load (read_to_string (fs_read (dw_files W) d)) (dw_toml_allow W) (d_allowlist (cfg_daemon cfg)) = Inr al"
      "operator_key ?C (fs_read (dw_files W) d) (d_operator_pubkey (cfg_daemon cfg)) = Inr (dr_operator_pub dr)"
      "dr_operator_uid dr = s_operator_uid (cfg_sockets cfg)" "\<And>p. p \<notin> audit_files W cfg \<Longrightarrow> d1 p = d p"
    and tools: "tools = discover_tools ?C (oe_toml (dw_env W)) (fs_read (dw_files W) d1) (dw_read_dir W)
        (d_bundle_dir (cfg_daemon cfg)) trust (mode_default (cfg_modes cfg) = ReadOnly)"
    and start: "orch_start (dw_env W) (orchestrator_new (fst (dw_secret_rnd W)) (snd (dw_secret_rnd W)) \<lparr> pe_allowlist = al \<rparr> trust
        (d_bundle_dir (cfg_daemon cfg)) audit (session_new (dw_session_rnd W) (dw_session_key W) (mode_default (cfg_modes cfg)) ''default'')
        (model_of (dr_backend dr) (cfg_llm cfg)) (max_tokens (cfg_llm cfg)) tools) = (dr_orch dr, Inr ())"
    and ctl: "bind_control (dw_remove_ok W) (dw_bound W) (dw_chmod_ok W) (cfg_sockets cfg) d3 = (d', Inr ())"
    and mon: "spawn_monitor_if_enabled (dw_triggers W) (dw_metadata_len W) (cfg_monitor cfg) = Inr (dr_monitor dr)"
    by (rule daemon_main_ok) blast
  have valid: "config_validate cfg = Inr ()" using 1 by (auto simp: config_load_def config_from_toml_def bind_res_eq_Inr)
  note base = valid [unfolded config_validate_iff]
  note fresh = start_fresh [OF start]
  have mode: "ses_mode (o_session (dr_orch dr)) = mode_default (cfg_modes cfg)" using fresh by (simp add: session_new_def)
  have ctl': "\<exists>mode. d' (s_control (cfg_sockets cfg)) = Some ([], mode) \<and> mode AND 7 = 0"
    using ctl base by (auto simp: bind_control_def Let_def split: option.splits if_splits)
  have key: "d_session_pub (cfg_daemon cfg) \<noteq> s_control (cfg_sockets cfg) \<longrightarrow>
      (\<forall>F. \<not> fe_read_fails F (d_session_pub (cfg_daemon cfg)) \<longrightarrow>
        read_key_file ?C (fs_read F d') (d_session_pub (cfg_daemon cfg)) = Inr (session_verifying_key ?C (o_session (dr_orch dr))))"
    using published_key [where ?d2.0 = d', OF assms 1 _ _ refl] fresh(3) by (simp add: session_new_def session_verifying_key_def)
  have mon': "dr_monitor dr \<noteq> None \<longleftrightarrow> mon_enabled (cfg_monitor cfg)"
    using mon by (auto simp: spawn_monitor_if_enabled_def map_ok_eq_Inr split: if_splits)
  have auto': "ses_mode (o_session (dr_orch dr)) = Autonomous \<longrightarrow> autonomous_allowed (cfg_modes cfg)"
    unfolding mode using base by blast
  have "t \<in> set (o_tools (dr_orch dr)) \<longleftrightarrow>
      (\<exists>names stem b. dw_read_dir W (o_bundle_dir (dr_orch dr)) = Some names \<and> stem @ ''.exec'' \<in> set names
        \<and> stem \<noteq> [] \<and> utf8_valid (as_bytes stem)
        \<and> bundle_load ?C (oe_toml (dw_env W)) (fs_read (dw_files W) d1)
            (path_join (o_bundle_dir (dr_orch dr)) (stem @ ''.exec'')) (path_join (o_bundle_dir (dr_orch dr)) (stem @ ''.exec.sig''))
            (o_trust (dr_orch dr)) = Inr b
        \<and> (ses_mode (o_session (dr_orch dr)) = ReadOnly \<longrightarrow> m_read_only (meta (vb_manifest b)))
        \<and> t = \<lparr> ts_name = m_name (meta (vb_manifest b)),
                ts_description = ''v'' @ m_version (meta (vb_manifest b)) @ '' risk='' @ risk_debug (m_risk (meta (vb_manifest b))),
                ts_read_only = m_read_only (meta (vb_manifest b)) \<rparr>)" for t
    unfolding mode unfolding fresh tools discovered_tool tool_of_Some by blast
  note offered = this
  show ?thesis
    by (rule exI [of _ cfg], rule exI [of _ d1], intro conjI)
      (rule 1 valid mode auto' ctl' key mon' allI [OF offered] build_backend_hardened [OF backend] | simp add: fresh loaded)+
qed

text \<open>A daemon that starts on a nearly empty disk.\<close>

definition demo_disk :: disk where
  "demo_disk = [''/cfg'' \<mapsto> ([], 0), ''/t'' \<mapsto> ([], 0), default_allowlist \<mapsto> ([], 0),
    default_operator_pub \<mapsto> (as_bytes (daemon_encode_hex (vk_bytes (verifying_key sample_crypto sample_key))), 0)]"

definition demo_daemon :: "(string, string list, string list, unit, string list) DaemonWorld" where
  "demo_daemon =
    \<lparr> dw_files = quiet_files, dw_env = sample_orch_env, dw_toml_config = (\<lambda>_. Inr sample_config),
      dw_toml_allow = (\<lambda>_. Inr \<lparr> profiles = [] \<rparr>), dw_var = (\<lambda>_. None), dw_http_built = Inr (), dw_read_dir = (\<lambda>_. Some []),
      dw_triggers = demo_triggers, dw_metadata_len = (\<lambda>_. None), dw_audit_seed = replicate 32 1, dw_session_rnd = replicate 16 1,
      dw_session_key = sample_key, dw_secret_rnd = (replicate 16 5, replicate 16 6), dw_rotate_ms = 0, dw_genesis_ms = 0,
      dw_genesis_fault = None, dw_remove_ok = True, dw_bound = Some 0, dw_chmod_ok = True \<rparr>"

lemma demo_paths:
  "default_allowlist \<noteq> default_operator_pub" "''/t'' \<noteq> default_allowlist" "''/t'' \<noteq> default_operator_pub"
  "default_audit_key \<noteq> default_allowlist" "default_audit_key \<noteq> default_operator_pub" "default_audit_key \<noteq> ''/t''"
  "default_audit_key \<noteq> ''/cfg''" "''/cfg'' \<noteq> default_allowlist" "''/cfg'' \<noteq> default_operator_pub" "default_audit_key \<noteq> ''/l''"
  "''/l'' \<noteq> default_allowlist" "''/l'' \<noteq> default_operator_pub"
  by (simp_all add: default_allowlist_def default_operator_pub_def default_audit_key_def)

lemma demo_reads:
  "read_to_string (fs_read quiet_files demo_disk) ''/cfg'' = Some []"
  "read_to_string (fs_read quiet_files demo_disk) ''/t'' = Some []"
  "read_to_string (fs_read quiet_files demo_disk) default_allowlist = Some []"
  "operator_key sample_crypto (fs_read quiet_files demo_disk) default_operator_pub = Inr (verifying_key sample_crypto sample_key)"
proof -
  have "from_utf8 [] = Some []" by (simp add: from_utf8_def utf8_valid.simps str_of_bytes_def)
  then show "read_to_string (fs_read quiet_files demo_disk) ''/cfg'' = Some []"
      "read_to_string (fs_read quiet_files demo_disk) ''/t'' = Some []"
      "read_to_string (fs_read quiet_files demo_disk) default_allowlist = Some []"
    using demo_paths by (simp_all add: read_to_string_def fs_read_def quiet_files_def demo_disk_def)
  let ?b = "vk_bytes (verifying_key sample_crypto sample_key)"
  have "length ?b = 32" "vk_from_bytes sample_crypto ?b = Some (verifying_key sample_crypto sample_key)"
    using sample_crypto_ok by (simp_all add: crypto_ok_def)
  then show "operator_key sample_crypto (fs_read quiet_files demo_disk) default_operator_pub = Inr (verifying_key sample_crypto sample_key)"
    using daemon_hex.decode_encode [of ?b]
    by (simp add: operator_key_def read_to_string_def fs_read_def quiet_files_def demo_disk_def daemon_encode_hex_def hex_text_utf8 to_array_def)
qed

lemma demo_start:
  "\<exists>o1. orch_start sample_orch_env o0 = (o1, Inr ())"
  by (simp add: orch_start_def lax_audited Let_def)

lemma demo_config: "config_load (read_to_string (fs_read quiet_files demo_disk)) (\<lambda>_. Inr sample_config) ''/cfg'' = Inr sample_config"
proof -
  have "config_validate sample_config = Inr ()"
    using sample_deny_ok
    by (simp add: config_validate_iff sample_config_def abs_paths_def is_absolute_def starts_with_def to_policy_def
        default_ctl_mode_def modes_cfg_default_def llm_cfg_default_def monitor_cfg_default_def default_audit_key_def
        default_operator_pub_def default_allowlist_def default_bundle_dir_def default_session_pub_def)
  then show ?thesis by (simp add: config_load_def demo_reads config_from_toml_def)
qed

lemma bind_io_ex: "m d = (d1, Inr x) \<Longrightarrow> \<exists>d2 y. k x d1 = (d2, Inr y) \<Longrightarrow> \<exists>d2 y. bind_io m k d = (d2, Inr y)"
  by (auto simp: bind_io_def)

lemma bind_io_any:
  "\<exists>d1 x. m d = (d1, Inr x) \<Longrightarrow> (\<And>d1 x. \<exists>d2 y. k x d1 = (d2, Inr y)) \<Longrightarrow> \<exists>d2 y. bind_io m k d = (d2, Inr y)"
  by (fastforce simp: bind_io_def)

lemma demo_backend: "\<exists>b. build_backend (\<lambda>_. None) (Inr ()) sample_config = Inr b"
  by (simp add: build_backend_def sample_config_def llm_cfg_default_def ollama_new_def OLLAMA_BASE_URL_def trim_end_slashes_def
      starts_with_def build_client_def unwrap_or_def Let_def)

lemma demo_backend_ollama:
  assumes "daemon_main demo_daemon ''/cfg'' demo_disk = (d', Inr dr)"
  obtains ob where "dr_backend dr = Ollama ob" "ob_max_response_bytes ob = 8 * 1024 * 1024"
proof -
  from assms obtain cfg where cfg: "config_load (read_to_string (fs_read quiet_files demo_disk)) (\<lambda>_. Inr sample_config) ''/cfg'' = Inr cfg"
      "build_backend (\<lambda>_. None) (Inr ()) cfg = Inr (dr_backend dr)"
    by (rule daemon_main_ok) (simp add: demo_daemon_def)
  then have "build_backend (\<lambda>_. None) (Inr ()) sample_config = Inr (dr_backend dr)" by (simp add: demo_config)
  from build_backend_hardened(1) [OF this] show thesis
    using that by (auto simp: hardened_backend_def split: AnyBackend.splits)
qed

lemma demo_trust: "trust_load sample_crypto (read_to_string (fs_read quiet_files demo_disk)) ''/t'' = Inr \<lparr> trust_keys = [] \<rparr>"
  by (simp add: trust_load_def demo_reads trust_from_str_def str_lines_def Let_def)

lemma demo_audit:
  "\<exists>log. audit_open sample_crypto lax_json ms None quiet_files path kp d = (d(path \<mapsto> (al_sink log, snd (case d path of Some f \<Rightarrow> f | None \<Rightarrow> ([], 0x1A0)))), Inr log)"
  by (simp add: audit_open_def quiet_files_def audit_append_def seal_def canonical_bytes_def lax_json_def commit_line_def split_beta Let_def)

lemma demo_daemon_starts: "\<exists>d' dr. daemon_main demo_daemon ''/cfg'' demo_disk = (d', Inr dr)"
proof -
  obtain b where b: "build_backend (\<lambda>_. None) (Inr ()) sample_config = Inr b" using demo_backend by blast
  obtain d1 kp where key: "load_or_create_audit_key quiet_files (replicate 32 1) default_audit_key demo_disk = (d1, Inr kp)"
      "d1 ''/l'' = None"
    using demo_paths
    by (simp add: load_or_create_audit_key_def fs_exists_def fs_create_new_def fs_put_def quiet_files_def demo_disk_def Let_def)
  then have rot: "rotate_existing_log quiet_files 0 ''/l'' d1 = (d1, Inr ())" by (simp add: rotate_existing_log_def fs_exists_def)
  obtain d2 log where log: "audit_open sample_crypto lax_json 0 None quiet_files ''/l'' kp d1 = (d2, Inr log)" using demo_audit by blast
  have pub: "\<exists>d3. map_err_io PublishSessionPub (publish_session_pub quiet_files path hex) d = (d3, Inr ())" for path hex d
    by (simp add: map_err_io_def publish_session_pub_def bind_io_def fs_overwrite_def fs_put_def fs_rename_def quiet_files_def Let_def)
  have st: "\<exists>d3 o1. start_orchestrator sample_orch_env path o0 d = (d3, Inr o1)" for path o0 d
    using demo_start [of o0] by (auto simp: start_orchestrator_def)
  have ctl: "\<exists>d3. bind_control True (Some 0) True cfg d = (d3, Inr ())" for cfg d by (simp add: bind_control_def fs_exists_def Let_def)
  have mon: "spawn_monitor_if_enabled L ml (cfg_monitor sample_config) = Inr None" for L :: "string list TriggerLib" and ml
    by (simp add: spawn_monitor_if_enabled_def sample_config_def monitor_cfg_default_def)
  have D: "cfg_daemon sample_config = \<lparr> d_trust_store = ''/t'', d_audit_log = ''/l'', d_audit_key = default_audit_key,
        d_operator_pubkey = default_operator_pub, d_allowlist = default_allowlist,
        d_bundle_dir = default_bundle_dir, d_session_pub = default_session_pub \<rparr>" by (simp add: sample_config_def)
  obtain d3 o1 where st': "start_orchestrator sample_orch_env ''/l''
      (orchestrator_new (replicate 16 5) (replicate 16 6) \<lparr> pe_allowlist = \<lparr> profiles = [] \<rparr> \<rparr> \<lparr> trust_keys = [] \<rparr> default_bundle_dir log
        (session_new (replicate 16 1) sample_key (mode_default (cfg_modes sample_config)) ''default'')
        (model_of b (cfg_llm sample_config)) (max_tokens (cfg_llm sample_config)) []) d2 = (d3, Inr o1)"
    using st by blast
  show ?thesis
    unfolding daemon_main_def Let_def
    apply (rule bind_io_ex [of _ _ demo_disk sample_config])
     apply (simp add: look_io_def demo_daemon_def demo_config)
    apply (rule bind_io_ex [of _ _ demo_disk b])
     apply (simp add: lift_io_def demo_daemon_def b)
    apply (rule bind_io_ex [of _ _ demo_disk "\<lparr> trust_keys = [] \<rparr>"])
     apply (simp add: look_io_def demo_daemon_def demo_trust D)
    apply (rule bind_io_ex [of _ _ demo_disk "\<lparr> profiles = [] \<rparr>"])
     apply (simp add: look_io_def demo_daemon_def demo_reads D allowlist_load_def allowlist_from_toml_def)
    apply (rule bind_io_ex [of _ _ demo_disk "verifying_key sample_crypto sample_key"])
     apply (simp add: look_io_def demo_daemon_def demo_reads D)
    apply (rule bind_io_ex [of _ _ d1 kp])
     apply (simp add: demo_daemon_def key D)
    apply (rule bind_io_ex [of _ _ d1 "()"])
     apply (simp add: demo_daemon_def rot D map_err_io_def)
    apply (rule bind_io_ex [of _ _ d2 log])
     apply (simp add: demo_daemon_def log D map_err_io_def)
    apply (rule bind_io_ex [of _ _ d2 "[]"])
     apply (simp add: look_io_def demo_daemon_def discover_tools_def)
    apply (rule bind_io_ex [of _ _ d3 o1])
     apply (simp add: demo_daemon_def D st')
    apply (rule bind_io_any)
    using pub apply (simp add: demo_daemon_def)
    apply (rule bind_io_any)
    using ctl apply (simp add: demo_daemon_def)
    by (simp add: demo_daemon_def mon bind_io_def lift_io_def)
qed

theorem daemon_starts_safely_witness:
  "\<exists>d' dr. daemon_main demo_daemon ''/cfg'' demo_disk = (d', Inr dr) \<and> o_pending (dr_orch dr) = []
    \<and> read_key_file sample_crypto (fs_read quiet_files d') default_session_pub
      = Inr (session_verifying_key sample_crypto (o_session (dr_orch dr)))"
proof -
  obtain d' and dr :: "string list DaemonRun" where start: "daemon_main demo_daemon ''/cfg'' demo_disk = (d', Inr dr)"
    using demo_daemon_starts by blast
  have W: "dw_env demo_daemon = sample_orch_env" "dw_files demo_daemon = quiet_files" "dw_toml_config demo_daemon = (\<lambda>_. Inr sample_config)"
    by (simp_all add: demo_daemon_def)
  have "crypto_ok (oe_crypto (dw_env demo_daemon))" using sample_crypto_ok by (simp add: W)
  from daemon_starts_safely [OF this start] obtain cfg where cfg:
      "config_load (read_to_string (fs_read quiet_files demo_disk)) (\<lambda>_. Inr sample_config) ''/cfg'' = Inr cfg"
      "o_pending (dr_orch dr) = []" "d_session_pub (cfg_daemon cfg) \<noteq> s_control (cfg_sockets cfg) \<longrightarrow>
        (\<forall>F. \<not> fe_read_fails F (d_session_pub (cfg_daemon cfg)) \<longrightarrow>
          read_key_file sample_crypto (fs_read F d') (d_session_pub (cfg_daemon cfg))
            = Inr (session_verifying_key sample_crypto (o_session (dr_orch dr))))"
    by (auto simp: W)
  have "cfg = sample_config" using cfg(1) by (simp add: demo_config)
  then have "read_key_file sample_crypto (fs_read quiet_files d') default_session_pub
      = Inr (session_verifying_key sample_crypto (o_session (dr_orch dr)))"
    using cfg(3) by (simp add: sample_config_def default_session_pub_def quiet_files_def)
  then show ?thesis using start cfg(2) by blast
qed

section \<open>The running daemon\<close>

lemma step_turned:
  assumes "orch_step Env a b"
  shows "turned a b"
  using assms
proof cases
  case (starts E r)
  then show ?thesis using logs_only_grew [OF start_effect] by (auto simp: grew_def)
next
  case (runs E task untrusted q)
  from runs(2) show ?thesis by (cases rule: run_task_effect) (auto simp: grew_def grew_sending_def)
next
  case (approves E approval_id digest q)
  from approves(2) show ?thesis
  proof (cases rule: approve_cases)
    case (approved p)
    then show ?thesis by (auto simp: sends_def turned_def same_setup_def)
  qed (auto simp: grew_def)
next
  case (rejects approval_id t)
  then show ?thesis using reject_effect [of a approval_id b t] unfolding grew_def by blast
qed

lemma reaches_same_identity:
  assumes "orch_reaches Env a b"
  shows "same_setup a b \<and> ses_id (o_session b) = ses_id (o_session a) \<and> ses_signing_key (o_session b) = ses_signing_key (o_session a)
    \<and> ses_mode (o_session b) = ses_mode (o_session a) \<and> ses_profile (o_session b) = ses_profile (o_session a)"
  using assms
proof (induction rule: rtranclp_induct)
  case (step b c)
  then show ?case using step_turned [OF step(2)] same_setup_trans by (auto simp: turned_def next_session_def)
qed (simp add: same_setup_def)

lemma daemon_step_orch:
  assumes "daemon_step K uid pub L Env s s2"
  shows "orch_reaches Env (ds_orch s) (ds_orch s2)"
  using assms
proof cases
  case (control accepted o2 out)
  show ?thesis
  proof (cases "o2 = ds_orch s")
    case True
    then show ?thesis using control(1) by simp
  next
    case False
    with control(3) obtain conn and cb :: CtlBody where "accepted = Some conn"
        "o2 = fst (serve_request (cc_env conn) (ds_orch s) (cb_request cb))"
      by (rule serve_ctl_accepted_step) blast
    then have "orch_step Env (ds_orch s) o2"
      using serve_request_step [of Env "cc_env conn" "ds_orch s" "cb_request cb" o2] control(2) False by (metis prod.collapse)
    then show ?thesis using control(1) by auto
  qed
next
  case (tick d ios now d2 alerts)
  then show ?thesis by simp
next
  case (assess a as E o2 r)
  then have "orch_step Env (ds_orch s) o2" unfolding assess_alert_def by (intro orch_step.runs)
  then show ?thesis using assess(1) by auto
qed

lemma daemon_reaches_orch:
  assumes "(daemon_step K uid pub L Env)\<^sup>*\<^sup>* s s2"
  shows "orch_reaches Env (ds_orch s) (ds_orch s2)"
  using assms
proof (induction rule: rtranclp_induct)
  case (step b c)
  then show ?case using daemon_step_orch by (metis (no_types, lifting) rtranclp_trans)
qed simp

text \<open>C3: the running daemon refines its orchestrator.  From a successful start, under every interleaving
  of accepted control connections, monitor ticks and assessments of alerts, and whatever the
  files, the model, the executor and the peers do: the state is one the orchestrator's own calls
  reach; the session keeps its identity, its mode and the published key; at most 64 approvals
  are pending; and every frame that left is directly preceded in the record by the log entry of
  the request it carries, signed with the published session key in the configured mode, and not
  critical; while the sequence counter has not saturated, none left twice.\<close>

theorem running_daemon_refines_orchestrator:
  fixes W :: "('g, 's, 'r, 'f, 't) DaemonWorld"
  assumes codecs: "codec_ok (oe_request_codec (dw_env W))" "codec_ok (oe_envelope_codec (dw_env W))"
    and start: "daemon_main W config d = (d', Inr dr)"
    and runs: "(daemon_step K (dr_operator_uid dr) (dr_operator_pub dr) (dw_triggers W) (same_libs (dw_env W)))\<^sup>*\<^sup>* (daemon_init dr) s"
  shows "orch_reaches (same_libs (dw_env W)) (dr_orch dr) (ds_orch s)
    \<and> ses_signing_key (o_session (ds_orch s)) = dw_session_key W
    \<and> ses_mode (o_session (ds_orch s)) = ses_mode (o_session (dr_orch dr))
    \<and> length (o_pending (ds_orch s)) \<le> 64
    \<and> (\<forall>pre frame post. o_trace (ds_orch s) = pre @ SentFrame frame # post \<longrightarrow>
        (\<exists>pre' request. pre = pre' @ [Logged (requested_event (dw_env W) request)]
          \<and> sealed_frame (oe_crypto (dw_env W)) (oe_request_codec (dw_env W)) (oe_envelope_codec (dw_env W)) (dw_session_key W) request frame
          \<and> rq_mode request = ses_mode (o_session (dr_orch dr)) \<and> rq_declared_risk request \<noteq> Critical))
    \<and> (ses_seq (o_session (ds_orch s)) \<noteq> - 1 \<longrightarrow> distinct (sent_frames (o_trace (ds_orch s))))"
proof -
  let ?E = "dw_env W"
  from start obtain cfg :: Config and trust al audit tools where st: "orch_start ?E (orchestrator_new (fst (dw_secret_rnd W)) (snd (dw_secret_rnd W))
        \<lparr> pe_allowlist = al \<rparr> trust (d_bundle_dir (cfg_daemon cfg)) audit
        (session_new (dw_session_rnd W) (dw_session_key W) (mode_default (cfg_modes cfg)) ''default'')
        (model_of (dr_backend dr) (cfg_llm cfg)) (max_tokens (cfg_llm cfg)) tools) = (dr_orch dr, Inr ())"
    by (rule daemon_main_ok) blast
  have reach: "orch_reaches (same_libs ?E) (dr_orch dr) (ds_orch s)"
    using daemon_reaches_orch [OF runs] by (simp add: daemon_init_def)
  have key: "ses_signing_key (o_session (dr_orch dr)) = dw_session_key W" using start_fresh(3) [OF st] by (simp add: session_new_def)
  have inv: "orch_inv ?E (ds_orch s)" using inv_reaches [OF codecs _ reach started_inv [OF codecs st]] by blast
  have id: "ses_signing_key (o_session (ds_orch s)) = dw_session_key W" "ses_mode (o_session (ds_orch s)) = ses_mode (o_session (dr_orch dr))"
    using reaches_same_identity [OF reach] key by simp_all
  have "\<exists>pre' request. pre = pre' @ [Logged (requested_event ?E request)]
      \<and> sealed_frame (oe_crypto ?E) (oe_request_codec ?E) (oe_envelope_codec ?E) (dw_session_key W) request frame
      \<and> rq_mode request = ses_mode (o_session (dr_orch dr)) \<and> rq_declared_risk request \<noteq> Critical"
    if "o_trace (ds_orch s) = pre @ SentFrame frame # post" for pre frame post
    using trace_ok_split [OF _ that, of "sent_ok ?E (o_session (ds_orch s))"] inv id
    unfolding sent_ok_def signed_by_def orch_inv_def by fastforce
  then show ?thesis using reach id inv unfolding orch_inv_def MAX_PENDING_def by simp
qed

theorem running_daemon_refines_orchestrator_witness:
  "\<exists>d' dr o2 out. daemon_main demo_daemon ''/cfg'' demo_disk = (d', Inr dr)
    \<and> serve_ctl_accepted sample_codecs (dr_operator_uid dr) (dr_operator_pub dr) (Some sample_ctl_conn) (dr_orch dr) = (o2, out)
    \<and> ses_signing_key (o_session o2) = sample_key \<and> length (o_pending o2) \<le> 64"
proof -
  obtain d' and dr :: "string list DaemonRun" where start: "daemon_main demo_daemon ''/cfg'' demo_disk = (d', Inr dr)"
    using demo_daemon_starts by blast
  obtain o2 out where served: "serve_ctl_accepted sample_codecs (dr_operator_uid dr) (dr_operator_pub dr) (Some sample_ctl_conn) (dr_orch dr) = (o2, out)"
    by (metis surj_pair)
  have E: "dw_env demo_daemon = sample_orch_env" "cc_env sample_ctl_conn = sample_orch_env" "dw_session_key demo_daemon = sample_key"
    by (simp_all add: demo_daemon_def sample_ctl_conn_def)
  let ?s = "(daemon_init dr)\<lparr> ds_orch := o2 \<rparr>"
  have "daemon_step sample_codecs (dr_operator_uid dr) (dr_operator_pub dr) (dw_triggers demo_daemon) (same_libs (dw_env demo_daemon))
      (daemon_init dr) ?s"
    by (rule daemon_step.control [of "Some sample_ctl_conn" _ _ _ _ _ _ out]) (simp_all add: E same_libs_def daemon_init_def served)
  note reach = r_into_rtranclp [of "daemon_step sample_codecs (dr_operator_uid dr) (dr_operator_pub dr) (dw_triggers demo_daemon)
      (same_libs (dw_env demo_daemon))", OF this]
  have "codec_ok (oe_request_codec (dw_env demo_daemon))" "codec_ok (oe_envelope_codec (dw_env demo_daemon))"
    by (simp_all add: E sample_orch_env_def point_codec_ok)
  from running_daemon_refines_orchestrator [OF this start reach] show ?thesis using start served by (auto simp: E)
qed

section \<open>The channel to the model\<close>

text \<open>The request as a backend puts it on the wire: model, token limit, system prompt and turns are those of the completion
  request.\<close>

definition wire_carries :: "'f LlmLib \<Rightarrow> AnyBackend \<Rightarrow> HttpRequest \<Rightarrow> 'f CompletionRequest \<Rightarrow> bool" where
  "wire_carries L b q request \<longleftrightarrow>
    (let turns = map (\<lambda>m. (case msg_role m of User \<Rightarrow> ''user'' | Assistant \<Rightarrow> ''assistant'', msg_content m)) (cr_messages request) in
     case b of
       Anthropic _ \<Rightarrow> \<exists>w. hq_body q = wj_to_vec (ll_anthropic L) w \<and> aw_model w = cr_model request \<and> aw_max_tokens w = cr_max_tokens request
         \<and> aw_system w = cr_system request \<and> map (\<lambda>m. (wm_role m, wm_content m)) (aw_messages w) = turns
     | Ollama _ \<Rightarrow> \<exists>w. hq_body q = wj_to_vec (ll_ollama L) w \<and> ow_model w = cr_model request \<and> \<not> ow_stream w
         \<and> wo_num_predict (ow_options w) = cr_max_tokens request
         \<and> map (\<lambda>m. (wm_role m, wm_content m)) (ow_messages w) = (case cr_system request of Some s \<Rightarrow> [(''system'', s)] | None \<Rightarrow> []) @ turns)"

lemma wire_request_carries: "wire_carries L b (snd (wire_request L b request)) request"
  by (auto simp: wire_carries_def wire_request_def anthropic_request_def ollama_request_def ollama_messages_def wire_message_def
      role_str_def comp_def Let_def split: AnyBackend.splits option.splits)

definition hardened_send :: "(string \<Rightarrow> string option) \<Rightarrow> AnyBackend \<Rightarrow> HttpClient \<Rightarrow> HttpRequest \<Rightarrow> bool" where
  "hardened_send var b client q \<longleftrightarrow>
    \<not> hc_follow_redirects client \<and> \<not> hc_env_proxy client \<and> hc_timeout client \<le> 300 * 1000000000
    \<and> (if backend_name b = ''anthropic'' then hc_https_only client \<and> hq_url q = ''https://api.anthropic.com/v1/messages''
         \<and> (\<exists>token. var ''ARCHANGEL_LLM_TOKEN'' = Some token \<and> hq_headers q = [(''x-api-key'', token), (''anthropic-version'', ''2023-06-01'')])
       else hq_headers q = [] \<and> hq_url q = trim_end_slashes (unwrap_or ''http://127.0.0.1:11434'' (var ''ARCHANGEL_OLLAMA_URL'')) @ ''/api/chat'')"

lemma wire_request_hardened:
  assumes "hardened_backend var b" and "wire_request L b request = (client, q)"
  shows "hardened_send var b client q"
  using assms
  by (auto simp: hardened_send_def hardened_backend_def wire_request_def anthropic_request_def ollama_request_def backend_name_def
      ANTHROPIC_VERSION_def split: AnyBackend.splits)

lemma hardened_cap: "hardened_backend var b \<Longrightarrow> wire_cap b \<le> 8 * 1024 * 1024"
  by (auto simp: hardened_backend_def wire_cap_def split: AnyBackend.splits)

text \<open>A task that ends in an outcome had an answer of the model.\<close>

lemma run_task_answered:
  assumes "run_task E o' task untrusted = (o2, Inr out)"
  shows "is_ok (oe_complete E (prompt_build (builder o') (o_model o') (o_max_tokens o') task untrusted (o_tools o')))"
proof (rule ccontr)
  assume n: "\<not> ?thesis"
  then obtain e where "oe_complete E (prompt_build (builder o') (o_model o') (o_max_tokens o') task untrusted (o_tools o')) = Inl e"
    by (metis is_ok_iff old.sum.exhaust)
  with assms show False
    unfolding run_task_def Let_def by (elim audited_cases) auto
qed

text \<open>C33: the channel to the model is a hardened pipe.  Whatever a model call of a started daemon is asked and however it
  ends, it puts at most one request on the wire, through a client that follows no redirect, uses no proxy of the environment
  and gives up after at most five minutes; that request carries exactly the model, the token limit and the conversation of the
  call.  With the Anthropic backend it goes over TLS to the fixed endpoint, and the token of the environment is its only
  credential; with Ollama it goes to the configured address and carries no credential.  An answer is accepted only from that one
  request, with a success status and whole within 8 MiB.  And a task of the orchestrator on that backend ends in an outcome only
  if the call with the prompt of the task was answered in this way.\<close>

theorem model_channel_hardened:
  fixes W :: "('g, 's, 'r, 'f, 't) DaemonWorld" and E :: "('g, 's, 'r, 'f) OrchEnv"
  assumes "daemon_main W config d = (d', Inr dr)" and "any_complete L (dr_backend dr) request = (sent, r)"
  shows "length sent \<le> 1
    \<and> (\<forall>client q. (client, q) \<in> set sent \<longrightarrow>
        wire_carries L (dr_backend dr) q request \<and> hardened_send (dw_var W) (dr_backend dr) client q)
    \<and> (\<forall>resp. r = Inr resp \<longrightarrow> (\<exists>client q reply bss. sent = [(client, q)] \<and> ll_send L client q = Inr reply
        \<and> is_success (hr_status reply) \<and> hr_chunks reply = map Chunk bss \<and> length (concat bss) \<le> 8 * 1024 * 1024))
    \<and> (\<forall>o' task untrusted o2 out. run_task (with_backend L (dr_backend dr) E) o' task untrusted = (o2, Inr out)
        \<and> request = prompt_build (builder o') (o_model o') (o_max_tokens o') task untrusted (o_tools o') \<longrightarrow> is_ok r)"
proof (intro conjI allI impI)
  obtain cfg where "build_backend (dw_var W) (dw_http_built W) cfg = Inr (dr_backend dr)" using assms(1) by (rule daemon_main_ok)
  note hard = build_backend_hardened(1) [OF this]
  have sent: "sent = [] \<or> sent = [wire_request L (dr_backend dr) request]"
    using any_complete_sends [of sent L "dr_backend dr" request] assms(2) by simp
  then show "length sent \<le> 1" by auto
  fix client q
  assume "(client, q) \<in> set sent"
  then have w: "wire_request L (dr_backend dr) request = (client, q)" using sent by auto
  show "hardened_send (dw_var W) (dr_backend dr) client q" by (rule wire_request_hardened [OF hard w])
  show "wire_carries L (dr_backend dr) q request" using wire_request_carries [of L "dr_backend dr" request] w by simp
next
  fix resp
  assume r: "r = Inr resp"
  obtain cfg where "build_backend (dw_var W) (dw_http_built W) cfg = Inr (dr_backend dr)" using assms(1) by (rule daemon_main_ok)
  note cap = hardened_cap [OF build_backend_hardened(1) [OF this]]
  then have "wire_cap (dr_backend dr) < usize_max" by (simp add: usize_max_def)
  with assms(2) [unfolded r] obtain reply bss where "sent = [wire_request L (dr_backend dr) request]"
      "ll_send L (fst (wire_request L (dr_backend dr) request)) (snd (wire_request L (dr_backend dr) request)) = Inr reply"
      "is_success (hr_status reply)" "hr_chunks reply = map Chunk bss" "length (concat bss) \<le> wire_cap (dr_backend dr)"
    by (rule any_complete_ok)
  then show "\<exists>client q reply bss. sent = [(client, q)] \<and> ll_send L client q = Inr reply
      \<and> is_success (hr_status reply) \<and> hr_chunks reply = map Chunk bss \<and> length (concat bss) \<le> 8 * 1024 * 1024"
    by (intro exI [of _ "fst (wire_request L (dr_backend dr) request)"] exI [of _ "snd (wire_request L (dr_backend dr) request)"]
        exI [of _ reply] exI [of _ bss] conjI order_trans [OF _ cap]) (simp_all only: prod.collapse)
next
  fix o' task untrusted o2 out
  assume "run_task (with_backend L (dr_backend dr) E) o' task untrusted = (o2, Inr out)
      \<and> request = prompt_build (builder o') (o_model o') (o_max_tokens o') task untrusted (o_tools o')"
  then show "is_ok r" using run_task_answered [of "with_backend L (dr_backend dr) E" o' task untrusted o2 out] assms(2)
    by (simp add: with_backend_def)
qed

definition demo_llm :: "unit LlmLib" where
  "demo_llm =
    \<lparr> ll_send = (\<lambda>_ _. Inr \<lparr> hr_status = 200, hr_content_length = None, hr_chunks = [Chunk [1], Chunk [2]] \<rparr>),
      ll_anthropic = \<lparr> wj_to_vec = (\<lambda>_. Inr []), wj_from_slice = (\<lambda>_. Inl ''shape'') \<rparr>,
      ll_ollama = \<lparr> wj_to_vec = (\<lambda>_. Inr []), wj_from_slice = (\<lambda>_. Inr \<lparr> or_model = ''m'', or_message = Some ''hi'', or_prompt_eval_count = 1,
        or_eval_count = 1 \<rparr>) \<rparr> \<rparr>"

theorem model_channel_hardened_witness:
  "\<exists>d' dr client q resp. daemon_main demo_daemon ''/cfg'' demo_disk = (d', Inr dr)
    \<and> any_complete demo_llm (dr_backend dr) (completion_request_new ''m'' [message_user ''hello''] 16) = ([(client, q)], Inr resp) \<and> cp_text resp = ''hi''
    \<and> \<not> hc_follow_redirects client \<and> hq_headers q = [] \<and> hq_url q = ''http://127.0.0.1:11434/api/chat''"
proof -
  let ?req = "completion_request_new ''m'' [message_user ''hello''] 16 :: unit CompletionRequest"
  obtain d' and dr :: "string list DaemonRun" where start: "daemon_main demo_daemon ''/cfg'' demo_disk = (d', Inr dr)"
    using demo_daemon_starts by blast
  obtain ob where ob: "dr_backend dr = Ollama ob" "ob_max_response_bytes ob = 8 * 1024 * 1024" using demo_backend_ollama [OF start] by blast
  have cap: "ob_max_response_bytes ob < usize_max" by (simp add: ob usize_max_def)
  have "send_capped (ll_send demo_llm) (ob_client ob) (ollama_request (ll_ollama demo_llm) ob ?req) (ob_max_response_bytes ob)
      = ([(ob_client ob, ollama_request (ll_ollama demo_llm) ob ?req)], Inr [1, 2])"
    unfolding send_capped_ok [OF cap]
    by (simp add: demo_llm_def ollama_request_def is_success_def ob exI [of _ "[[1], [2]]"])
  then obtain client q resp where call: "any_complete demo_llm (dr_backend dr) ?req = ([(client, q)], Inr resp)" "cp_text resp = ''hi''"
    by (auto simp: ob any_complete_def ollama_complete_def demo_llm_def unwrap_or_def)
  have "backend_name (dr_backend dr) \<noteq> ''anthropic''" by (simp add: ob backend_name_def)
  moreover have "trim_end_slashes (unwrap_or ''http://127.0.0.1:11434'' (dw_var demo_daemon ''ARCHANGEL_OLLAMA_URL'')) = ''http://127.0.0.1:11434''"
    by (simp add: demo_daemon_def unwrap_or_def trim_end_slashes_def)
  ultimately have "\<not> hc_follow_redirects client \<and> hq_headers q = [] \<and> hq_url q = ''http://127.0.0.1:11434/api/chat''"
    using model_channel_hardened [OF start call(1), of sample_orch_env] by (simp add: hardened_send_def)
  then show ?thesis using start call by blast
qed

end
