(* ===== verification/Agreement.thy ===== *)
theory Agreement
  imports Orchestrator_Safety "HOL-Library.Multiset"
begin

text \<open>
  Daemon and executor together: whatever the executor's accept loop runs was requested and logged
  by the daemon, one log entry for each run.
\<close>

section \<open>What the executor accepts\<close>

text \<open>The channel may drop, reorder and repeat frames, and may carry anything else.  It cannot carry a
  body that verifies under the session key unless the session signed it: such a body is that of a
  frame the daemon sent.\<close>

definition unforged ::
  "('g, 's, 'r, 'f) OrchEnv \<Rightarrow> VerifyingKey \<Rightarrow> byte list list \<Rightarrow> ('a, 'b, 'c, 'd, 'e, 'h, 'i) Conn option list \<Rightarrow> bool"
where
  "unforged E0 vk frames as \<longleftrightarrow>
    (\<forall>conn. Some conn \<in> set as \<longrightarrow>
      e_crypto (c_env conn) = oe_crypto E0 \<and> e_request_codec (c_env conn) = oe_request_codec E0
      \<and> e_envelope_codec (c_env conn) = oe_envelope_codec E0
      \<and> (\<forall>body env. read_body frame_len (c_incoming conn) = Inr body \<longrightarrow> from_reader (oe_envelope_codec E0) body = Inr env
          \<longrightarrow> verify_strict (oe_crypto E0) vk (se_request env) (Signature (se_signature env))
          \<longrightarrow> body \<in> drop 4 ` set frames))"

definition trusts :: "VerifyingKey \<Rightarrow> SessionSource \<Rightarrow> ('a, 'b, 'c, 'd, 'e, 'h, 'i) Conn option list \<Rightarrow> bool" where
  "trusts vk session as \<longleftrightarrow>
    (case session of
       Static k \<Rightarrow> k = vk
     | KeyFile p \<Rightarrow> \<forall>conn k. Some conn \<in> set as \<longrightarrow>
         read_key_file (e_crypto (c_env conn)) (e_read (c_env conn)) p = Inr k \<longrightarrow> k = vk)"

lemma trusts_Cons: "trusts vk session (a # as) \<Longrightarrow> trusts vk session as"
  and unforged_Cons: "unforged E0 vk frames (a # as) \<Longrightarrow> unforged E0 vk frames as"
  by (auto simp: trusts_def unforged_def split: SessionSource.splits)

lemma key_in_force_trusted:
  assumes "trusts vk session as" and "Some conn \<in> set as" and "x_session_key ex = vk" and "key_in_force session conn ex = Some key"
  shows "key = vk"
  using assms by (auto simp: trusts_def key_in_force_def split: SessionSource.splits sum.splits)

text \<open>With one trusted key, serving a connection leaves the executor's configuration as it was.\<close>

lemma serve_accepted_config:
  assumes "trusts vk session (accepted # as)" and "x_session_key (fst s) = vk"
  shows "same_config (fst (fst (serve_accepted rc uid session accepted s))) (fst s)"
  using assms
  by (auto simp: serve_accepted_def serve_one_def set_session_key_def trusts_def split_beta Let_def same_config_def
      handle_config [unfolded same_config_def] split: option.splits SessionSource.splits sum.splits)

lemma serve_accepted_key:
  assumes "trusts vk session (accepted # as)" and "x_session_key (fst s) = vk"
  shows "x_session_key (fst (fst (serve_accepted rc uid session accepted s))) = vk"
  using serve_accepted_config [OF assms, of rc uid] assms(2) by (simp add: same_config_def)

text \<open>The request is read from one of these frames.\<close>

definition carried :: "('g, 's, 'r, 'f) OrchEnv \<Rightarrow> byte list list \<Rightarrow> ExecRequest \<Rightarrow> bool" where
  "carried E0 frames request \<longleftrightarrow> (\<exists>env f. f \<in> set frames \<and> from_reader (oe_envelope_codec E0) (drop 4 f) = Inr env
    \<and> from_reader (oe_request_codec E0) (se_request env) = Inr request)"

lemma carried_mono: "carried E0 frames request \<Longrightarrow> set frames \<subseteq> set later \<Longrightarrow> carried E0 later request"
  unfolding carried_def by blast

text \<open>Serving a connection runs nothing, or one request that a sent frame carries and the gates have cleared.\<close>

lemma run_sent:
  assumes trust: "trusts vk session (accepted # as)" and un: "unforged E0 vk frames (accepted # as)"
    and key: "x_session_key ex = vk"
    and srv: "serve_accepted rc uid session accepted (ex, w) = ((ex', w'), out)"
  obtains (quiet) "run_of session accepted (ex, w) (ex', w') = []" "filter is_run (w_log w') = filter is_run (w_log w)"
  | (ran) conn request vb where "accepted = Some conn" "run_of session accepted (ex, w) (ex', w') = [(c_now conn, replay_msg request)]"
      "carried E0 frames request" "cleared (c_env conn) ex request vb"
      "filter is_run (w_log w') = filter is_run (w_log w) @ [RanAction (p_inline (payload (vb_manifest vb))) (rq_args request)]"
proof (cases rule: serve_accepted_cases [OF srv])
  case 1
  then show thesis using quiet by (simp add: run_of_def)
next
  case (2 conn k body response)
  let ?ex = "ex\<lparr> x_session_key := k \<rparr>"
  show thesis
  proof (cases "is_rejected response")
    case True
    then show thesis using handle_runs [OF 2(5)] quiet by (simp add: run_of_def)
  next
    case False
    obtain request vb where auth: "authenticate (c_env conn) ?ex body = Inr request"
        and clear: "cleared (c_env conn) ?ex request vb"
        and log: "filter is_run (w_log w') = filter is_run (w_log w) @ [RanAction (p_inline (payload (vb_manifest vb))) (rq_args request)]" by (rule ran_cleared [OF 2(5) False])
    have "k = vk" by (rule key_in_force_trusted [OF trust _ key 2(3)]) (simp add: 2(1))
    moreover from auth obtain env where "from_reader (e_envelope_codec (c_env conn)) body = Inr env"
        "verify_strict (e_crypto (c_env conn)) k (se_request env) (Signature (se_signature env))"
        "from_reader (e_request_codec (c_env conn)) (se_request env) = Inr request"
      by (rule authenticate_ok) simp
    ultimately have "carried E0 frames request" using un 2(1,4) unfolding unforged_def carried_def by fastforce
    moreover have "cleared (c_env conn) ex request vb" using clear cleared_config(1) [of ?ex ex "c_env conn" request vb] by simp
    moreover have "run_of session accepted (ex, w) (ex', w') = [(c_now conn, replay_msg request)]"
      using log auth 2(1,3,4) by (simp add: run_of_def msg_of_def)
    ultimately show thesis using ran [OF 2(1)] log by blast
  qed
qed

lemma runs_sent:
  assumes "trusts vk session as" and "unforged E0 vk frames as" and "x_session_key (fst s) = vk"
  shows "\<exists>requests. map snd (loop_runs rc uid session as s) = map replay_msg requests \<and> list_all (carried E0 frames) requests"
  using assms
proof (induction as arbitrary: s)
  case (Cons a as)
  obtain ex w ex' w' out where s: "s = (ex, w)" and srv: "serve_accepted rc uid session a (ex, w) = ((ex', w'), out)"
    by (metis surj_pair)
  have "x_session_key (fst (ex', w')) = vk"
    using serve_accepted_key [OF Cons.prems(1,3)] srv s by (metis fst_conv)
  from Cons.IH [OF trusts_Cons unforged_Cons this, OF Cons.prems(1,2)] obtain requests where
    rest: "map snd (loop_runs rc uid session as (ex', w')) = map replay_msg requests" "list_all (carried E0 frames) requests" by blast
  have key: "x_session_key ex = vk" using Cons.prems(3) s by simp
  have loop: "loop_runs rc uid session (a # as) s = run_of session a (ex, w) (ex', w') @ loop_runs rc uid session as (ex', w')"
    using s srv by (simp add: Let_def)
  show ?case
  proof (cases rule: run_sent [OF Cons.prems(1,2) key srv])
    case 1
    then show ?thesis unfolding loop using rest by auto
  next
    case (2 conn request vb)
    then show ?thesis unfolding loop using rest by (intro exI [of _ "request # requests"]) simp
  qed
qed simp

text \<open>An executor with the session's key authenticates what the session signed.\<close>

lemma signed_authenticates:
  assumes "crypto_ok (oe_crypto E0)" "codec_ok (oe_request_codec E0)" "codec_ok (oe_envelope_codec E0)" and "signed_by E0 s r f"
    and "e_crypto E = oe_crypto E0" "e_request_codec E = oe_request_codec E0" "e_envelope_codec E = oe_envelope_codec E0"
    and "x_session_key ex = session_verifying_key (oe_crypto E0) s"
  shows "authenticate E ex (drop 4 f) = Inr r"
proof -
  from assms(4) obtain env where env: "envelope_seal (oe_crypto E0) (oe_request_codec E0) r (ses_signing_key s) = Inr env"
      "to_frame (oe_envelope_codec E0) env = Inr f" by (auto simp: signed_by_def sealed_frame_def)
  have "from_reader (oe_envelope_codec E0) (drop 4 f) = Inr env"
    using env(2) assms(3) by (auto simp: frame_defs bind_res_eq_Inr cbor_to_vec_def map_err_eq_Inr codec_ok_def split: if_splits)
  then show ?thesis
    using ipc_env.seal_unseal [OF assms(1,2) env(1)] assms(5-8)
    by (simp add: authenticate_def from_frame_body_def cbor_from_slice_def session_verifying_key_def)
qed

section \<open>One log entry for each run\<close>

lemma trace_ok_events:
  assumes "trace_ok Q tr" and "\<And>ev f. Q ev f \<Longrightarrow> ev = g f"
  shows "image_mset g (mset (sent_frames tr)) \<subseteq># mset (logged_events tr)"
  using assms(1)
proof (induction rule: trace_ok.induct)
  case (trace_ok_Logged tr ev)
  moreover have "mset (logged_events tr) \<subseteq># mset (logged_events (tr @ [Logged ev]))" by simp
  ultimately show ?case by (metis append_Nil2 sent_frames_simps(1,2,4) subset_mset.order_trans)
next
  case (trace_ok_Sent tr ev f)
  then show ?case using assms(2) [of ev f] by simp
qed simp

lemma mset_distinct_subset: "distinct xs \<Longrightarrow> set xs \<subseteq> set ys \<Longrightarrow> mset xs \<subseteq># mset ys"
  using subset_imp_msubset_mset_set [of "set xs" "set ys"] mset_set_set_mset_msubset [of "mset ys"]
  by (metis finite_set mset_set_set set_mset_mset subset_mset.order_trans)

text \<open>Different requests that sent frames carry were signed by the daemon, in frames of their own, each with its log entry.\<close>

lemma carried_requests:
  assumes codecs: "codec_ok (oe_request_codec E0)" "codec_ok (oe_envelope_codec E0)" and inv: "orch_inv E0 o'" and dist: "distinct requests"
    and sent: "list_all (carried E0 (sent_frames (o_trace o'))) requests"
  obtains frames where "list_all2 (signed_by E0 (o_session o')) requests frames" "distinct frames"
    "set frames \<subseteq> set (sent_frames (o_trace o'))" "\<And>request. request \<in> set requests \<Longrightarrow> rq_declared_risk request \<noteq> Critical"
    "image_mset (requested_event E0) (mset requests) \<subseteq># mset (logged_events (o_trace o'))"
proof -
  let ?s = "o_session o'" and ?frames = "sent_frames (o_trace o')"
  have tr: "trace_ok (sent_ok E0 ?s) (o_trace o')" using inv by (simp add: orch_inv_def)
  have one: "r = r'" if "signed_by E0 ?s r f" "signed_by E0 ?s r' f" for r r' f
    using that sealed_frame_inj [OF codecs] by (auto simp: signed_by_def)
  have "\<exists>f. f \<in> set ?frames \<and> signed_by E0 ?s r f \<and> rq_declared_risk r \<noteq> Critical" if "r \<in> set requests" for r
  proof -
    from sent that obtain env f where f: "f \<in> set ?frames" "from_reader (oe_envelope_codec E0) (drop 4 f) = Inr env"
        "from_reader (oe_request_codec E0) (se_request env) = Inr r" by (auto simp: list_all_iff carried_def)
    from trace_ok_sent [OF tr f(1)] obtain r' where "signed_by E0 ?s r' f" "rq_declared_risk r' \<noteq> Critical" by (auto simp: sent_ok_def)
    moreover from this(1) sealed_frame_reads_back [OF codecs] f(2,3) have "r' = r" by (fastforce simp: signed_by_def)
    ultimately show ?thesis using f(1) by blast
  qed
  then obtain F where F: "\<And>r. r \<in> set requests \<Longrightarrow> F r \<in> set ?frames \<and> signed_by E0 ?s r (F r) \<and> rq_declared_risk r \<noteq> Critical" by metis
  define req where "req f = (THE r. signed_by E0 ?s r f)" for f
  have req: "req f = r" if "signed_by E0 ?s r f" for r f unfolding req_def using that one by blast
  have "inj_on F (set requests)" using F one by (intro inj_onI) metis
  then have d: "distinct (map F requests)" "set (map F requests) \<subseteq> set ?frames" using dist F by (auto simp: distinct_map)
  have "image_mset (requested_event E0) (mset requests) = image_mset (requested_event E0 \<circ> req) (mset (map F requests))"
    using req [OF F [THEN conjunct2, THEN conjunct1]] by (auto simp: multiset.map_comp intro!: image_mset_cong)
  also have "\<dots> \<subseteq># image_mset (requested_event E0 \<circ> req) (mset ?frames)"
    by (intro image_mset_subseteq_mono mset_distinct_subset d)
  also have "\<dots> \<subseteq># mset (logged_events (o_trace o'))"
    by (rule trace_ok_events [OF tr]) (use req in \<open>auto simp: sent_ok_def\<close>)
  finally have "image_mset (requested_event E0) (mset requests) \<subseteq># mset (logged_events (o_trace o'))" .
  moreover have "list_all2 (signed_by E0 ?s) requests (map F requests)" using F by (simp add: list_all2_conv_all_nth)
  ultimately show thesis using that d F by blast
qed

lemma signed_list: "list_all2 (signed_by E s) requests frames \<Longrightarrow> request \<in> set requests \<Longrightarrow> \<exists>f. signed_by E s request f"
  by (auto simp: list_all2_conv_all_nth in_set_conv_nth)

lemma loop_runs_distinct: "x_replay (fst s) = replay_new \<Longrightarrow> distinct (map snd (loop_runs rc uid source as s))"
  using loop_replay [of rc uid source as s] distinct_subseq exec_replay.admitted_distinct by metis

text \<open>One log entry for each run.  Let the daemon be in any state its calls can reach, and
  let the executor start with an empty replay guard and the session's public key.
  Whatever connections the executor then accepts, if only frames the session signed verify under
  its key, the requests that ran are pairwise different requests of this session, none of
  critical risk, and the log entries announcing them, counted with multiplicity, are among those
  the daemon wrote.\<close>

theorem every_run_was_logged:
  assumes codecs: "codec_ok (oe_request_codec E0)" "codec_ok (oe_envelope_codec E0)"
    and reach: "orch_reaches (same_libs E0)
      (orchestrator_new rnd1 rnd2 policy trust bundle_dir log0 session model max_tokens' tools) o'"
    and vk: "vk = session_verifying_key (oe_crypto E0) (o_session o')" "x_session_key ex = vk" "trusts vk source as"
    and guard: "x_replay ex = replay_new" and un: "unforged E0 vk (sent_frames (o_trace o')) as"
  shows "\<exists>requests. map snd (loop_runs rc uid source as (ex, w)) = map replay_msg requests \<and> distinct requests
    \<and> (\<forall>request \<in> set requests. rq_session_id request = ses_id (o_session o') \<and> rq_declared_risk request \<noteq> Critical)
    \<and> image_mset (requested_event E0) (mset requests) \<subseteq># mset (logged_events (o_trace o'))"
proof -
  let ?s = "o_session o'"
  have inv: "orch_inv E0 o'" by (rule inv_reaches [OF codecs _ reach inv_new])
  from runs_sent [OF vk(3) un, of "(ex, w)" rc uid] vk(2) obtain requests where
      ran: "map snd (loop_runs rc uid source as (ex, w)) = map replay_msg requests" "list_all (carried E0 (sent_frames (o_trace o'))) requests"
    by auto
  have dist: "distinct requests"
    using loop_runs_distinct [of "(ex, w)" rc uid source as] guard unfolding ran(1) by (simp add: distinct_map)
  from carried_requests [OF codecs inv dist ran(2)] obtain frames where "list_all2 (signed_by E0 ?s) requests frames"
      "\<And>request. request \<in> set requests \<Longrightarrow> rq_declared_risk request \<noteq> Critical"
      "image_mset (requested_event E0) (mset requests) \<subseteq># mset (logged_events (o_trace o'))" by metis
  moreover then have "rq_session_id request = ses_id ?s" if "request \<in> set requests" for request
    using signed_list that by (fastforce simp: signed_by_def)
  ultimately show ?thesis using ran(1) dist by blast
qed

text \<open>The gates behind authentication do not look at the codecs.\<close>

lemma run_task_signing_key:
  "run_task E o' task untrusted = (o2, r) \<Longrightarrow> ses_signing_key (o_session o2) = ses_signing_key (o_session o')"
  by (cases rule: run_task_effect) (auto simp: grew_def turned_def)

lemma wire_gates:
  "resolve_bundle sample_wire_env = resolve_bundle (sample_env sample_manifest)"
  "check_args_and_mutation sample_wire_env = check_args_and_mutation (sample_env sample_manifest)"
  "handler_policy_gate sample_wire_env = handler_policy_gate (sample_env sample_manifest)"
  "sandbox_gate sample_wire_env = sandbox_gate (sample_env sample_manifest)"
  "cgroup_gate sample_wire_env = cgroup_gate (sample_env sample_manifest)"
  "execute sample_wire_env = execute (sample_env sample_manifest)"
  "e_kernel sample_wire_env = e_kernel (sample_env sample_manifest)"
  by (simp_all add: fun_eq_iff sample_wire_env_def resolve_bundle_def check_args_and_mutation_def handler_policy_gate_def
      sandbox_gate_def cgroup_gate_def execute_def)

lemma wire_completes: "\<not> is_rejected (snd (handle sample_wire_env 0 sample_executor sample_world [2]))"
proof -
  let ?E = "sample_env sample_manifest"
  have "authenticate sample_wire_env sample_executor [2] = Inr sample_request"
    using ipc_env.seal_unseal [OF sample_crypto_ok point_codec_ok sample_seal]
    by (simp add: authenticate_def sample_wire_env_def from_frame_body_def cbor_from_slice_def point_codec_def sample_env_def
        sample_executor_def executor_new_def)
  moreover have "authenticate ?E sample_executor [] = Inr sample_request" by (rule sample_authenticate)
  ultimately have "dispatch sample_wire_env 0 sample_executor sample_world [2] = dispatch ?E 0 sample_executor sample_world []"
    unfolding dispatch_def wire_gates by simp
  then show ?thesis using sample_completes by (simp add: handle_def)
qed

theorem every_run_was_logged_witness:
  "\<exists>o' requests. orch_reaches (same_libs sample_orch_env) (sample_orch ReadOnly) o'
    \<and> map snd (loop_runs (const_codec (rejected unknown_action ExecFailure ResponseEncodingFailed)) 7
      (Static (x_session_key sample_executor)) [Some (sample_conn 7 (be32 1 @ [2]) 0)]
      (sample_executor, sample_world)) = map replay_msg requests
    \<and> length requests = 1
    \<and> image_mset (requested_event sample_orch_env) (mset requests) \<subseteq># mset (logged_events (o_trace o'))"
proof -
  let ?rc = "const_codec (rejected unknown_action ExecFailure ResponseEncodingFailed) :: exec_response Codec"
  let ?frame = "be32 1 @ [2 :: byte]" and ?src = "Static (x_session_key sample_executor)"
  let ?c = "\<lambda>t. sample_conn 7 ?frame t" and ?w = sample_world
  let ?as = "[Some (?c 0)]"
  define runs where "runs = loop_runs ?rc 7 ?src ?as (sample_executor, ?w)"
  obtain o2 where run: "run_task sample_orch_env (sample_orch ReadOnly) ''status?'' [] = (o2, Inl (OTransport ConnectExecSocket))"
      and fr: "sent_frames (o_trace o2) = [?frame]" by (rule sample_run)
  have step: "orch_reaches (same_libs sample_orch_env) (sample_orch ReadOnly) o2"
    by (rule r_into_rtranclp, rule orch_step.runs [OF _ run]) (simp add: same_libs_def)
  have ok: "codec_ok (oe_request_codec sample_orch_env)" "codec_ok (oe_envelope_codec sample_orch_env)"
    by (simp_all add: sample_orch_env_def point_codec_ok)
  have key: "x_session_key sample_executor = session_verifying_key (oe_crypto sample_orch_env) (o_session o2)"
    using run run_task_signing_key [OF run]
    by (simp add: session_verifying_key_def sample_executor_def executor_new_def sample_orch_def orchestrator_new_def
        sample_session_def session_new_def)
  have conn: "c_env (?c t) = sample_wire_env" "c_incoming (?c t) = ?frame" for t
    by (auto simp: sample_conn_def dest: arg_cong [where f = length])
  have body: "read_body frame_len ?frame = Inr [2]"
    by (simp add: read_body_def read_exact_def frame_len_def of_be32_be32 MAX_FRAME_LEN_def Let_def)
  have un: "unforged sample_orch_env (x_session_key sample_executor) (sent_frames (o_trace o2)) ?as"
    unfolding unforged_def fr
    by (auto simp: conn body simp del: One_nat_def) (simp_all add: sample_wire_env_def sample_env_def sample_orch_env_def)
  have fresh: "x_replay sample_executor = replay_new" by (simp add: sample_executor_def executor_new_def)
  obtain requests where req: "map snd runs = map replay_msg requests" "distinct requests"
      "image_mset (requested_event sample_orch_env) (mset requests) \<subseteq># mset (logged_events (o_trace o2))"
    using every_run_was_logged [OF ok step [unfolded sample_orch_def] key refl _ fresh un, of ?src ?rc 7 ?w]
    by (auto simp: trusts_def runs_def)
  obtain ex' w' resp where h: "handle sample_wire_env 0 sample_executor ?w [2] = ((ex', w'), resp)" by (metis surj_pair)
  have "fst (serve_accepted ?rc 7 ?src (Some (?c 0)) (sample_executor, ?w)) = (ex', w')"
    using h body conn
    by (simp add: serve_accepted_def split_beta Let_def) (simp add: sample_conn_def serve_one_def split_beta Let_def)
  moreover have "filter is_run (w_log w') \<noteq> filter is_run (w_log ?w)"
    using h wire_completes handle_runs [OF h] by simp
  ultimately have "length runs = 1"
    using conn body by (simp add: runs_def run_of_def key_in_force_def Let_def)
  then have "length requests = 1" using arg_cong [OF req(1), of length] by simp
  then show ?thesis using req step unfolding runs_def by blast
qed

section \<open>Approving out of order\<close>

text \<open>The sequence number is taken when an action is proposed, not when it is approved.  Once the
  executor has run an action, it refuses every frame of the session that was signed earlier: an
  approval granted after a later action has run is consumed, logged and refused as a replay.\<close>

lemma earlier_signed_refused:
  assumes ran: "handle E t ex w later = ((ex', w'), resp)" "\<not> is_rejected resp"
    and auth: "authenticate E ex later = Inr r2" "authenticate E' ex' earlier = Inr r1"
    and order: "rq_session_id r1 = rq_session_id r2" "rq_seq r1 < rq_seq r2"
  shows "snd (handle E' t' ex' w' earlier) = rejected (rq_action_id r1) Replay (ReplayReason NonMonotonicSeq)"
proof -
  have "snd (exec_step (x_replay ex) (replay_msg r2))"
    using ran_admitted(2) [OF ran] auth(1) by (simp add: msg_of_def)
  then have "last_seq (fst (exec_step (x_replay ex) (replay_msg r2))) (fst (replay_msg r2)) = Some ((fst \<circ> snd) (replay_msg r2))"
    by (rule exec_replay.admit_marks)
  moreover have "x_replay ex' = fst (exec_step (x_replay ex) (replay_msg r2))"
    using handle_replay [of E t ex w later] ran(1) auth(1) by simp
  ultimately have "last_seq (x_replay ex') (rq_session_id r1) = Some (rq_seq r2)"
    using order(1) by (simp add: replay_msg_def)
  then have "anti_replay ex' r1 = (ex', Inl (rejected (rq_action_id r1) Replay (ReplayReason NonMonotonicSeq)))"
    using less_imp_le [OF order(2)] by (simp add: anti_replay_def admit_def)
  then show ?thesis using auth(2) by (simp add: handle_def dispatch_def)
qed

lemma later_proposal_later_seq:
  assumes "o_session o2 = next_session (o_session o1)" and "saturating_add (ses_seq (o_session o2)) 1 \<noteq> - 1"
  shows "rq_seq (next_request E1 o1 exec1 args1 vb1) < rq_seq (next_request E2 o2 exec2 args2 vb2)
    \<and> rq_session_id (next_request E1 o1 exec1 args1 vb1) = rq_session_id (next_request E2 o2 exec2 args2 vb2)"
  using assms next_seq(2) [OF assms(2)] by (simp add: next_request_def)

end
