(* ===== verification/Whole_System.thy ===== *)
theory Whole_System
  imports Daemon_Safety Agreement
begin

text \<open>
  The running system: the daemon of \<open>archangeld/src/main.rs\<close> with its two loops, the executor's accept loop of
  \<open>archangel-execd/src/main.rs\<close>, and whoever connects to either.  The state carries two histories that no program
  reads: the operator's commands that the daemon served, and the requests that the executor ran.
\<close>

section \<open>Steps of the system\<close>

record 't SystemState =
  sy_daemon :: "'t DaemonState"
  sy_executor :: "Executor \<times> World"
  sy_commands :: "CtlBody list"
  sy_ran :: "(SessionId \<times> u64 \<times> nonce) list"

definition system_init :: "'t DaemonRun \<Rightarrow> Executor \<times> World \<Rightarrow> 't SystemState" where
  "system_init dr x = \<lparr> sy_daemon = daemon_init dr, sy_executor = x, sy_commands = [], sy_ran = [] \<rparr>"

text \<open>The command in a connection that the daemon serves: the peer has the operator's uid, the frame is
  complete and within bounds, and the operator's signature is on its body.\<close>

definition served_command :: "CtlCodecs \<Rightarrow> u32 \<Rightarrow> VerifyingKey \<Rightarrow> ('g, 's, 'r, 'f) CtlConn option \<Rightarrow> CtlBody option" where
  "served_command K uid pub accepted =
    (case accepted of
       None \<Rightarrow> None
     | Some conn \<Rightarrow>
        if cc_peer_uid conn \<noteq> Some uid then None
        else
        (case read_body ctl_frame_len (cc_incoming conn) of
           Inl _ \<Rightarrow> None
         | Inr body \<Rightarrow>
        (case ctl_from_frame_body (k_envelope K) body of
           Inl _ \<Rightarrow> None
         | Inr env \<Rightarrow>
        (case ctl_open (oe_crypto (cc_env conn)) (k_body K) env pub of
           Inl _ \<Rightarrow> None
         | Inr cb \<Rightarrow> Some cb))))"

definition log_command :: "CtlBody option \<Rightarrow> CtlBody list \<Rightarrow> CtlBody list" where
  "log_command c cmds = (case c of None \<Rightarrow> cmds | Some cb \<Rightarrow> cmds @ [cb])"

text \<open>The executor may be handed anything, except that a body which verifies under the session key is one of
  the frames that have left the daemon by then.  \<open>Peer\<close> are the connections that can occur.\<close>

inductive system_step ::
  "CtlCodecs \<Rightarrow> u32 \<Rightarrow> VerifyingKey \<Rightarrow> 't TriggerLib \<Rightarrow> ('g, 's, 'r, 'f) OrchEnv \<Rightarrow> VerifyingKey
    \<Rightarrow> (('a, 'b, 'c, 'd, 'e, 'h, 'i) Conn option \<Rightarrow> bool) \<Rightarrow> exec_response Codec \<Rightarrow> u32 \<Rightarrow> SessionSource \<Rightarrow> 't SystemState \<Rightarrow> 't SystemState \<Rightarrow> bool"
  for K uid pub L E0 vk Peer rc peer_uid source
where
  control: "(\<And>conn. accepted = Some conn \<Longrightarrow> same_libs E0 (cc_env conn)) \<Longrightarrow>
    serve_ctl_accepted K uid pub accepted (ds_orch (sy_daemon s)) = (o2, out) \<Longrightarrow>
    system_step K uid pub L E0 vk Peer rc peer_uid source s
      (s\<lparr> sy_daemon := (sy_daemon s)\<lparr> ds_orch := o2 \<rparr>, sy_commands := log_command (served_command K uid pub accepted) (sy_commands s) \<rparr>)"
| tick: "ds_alerts (sy_daemon s) = [] \<Longrightarrow> ds_driver (sy_daemon s) = Some d \<Longrightarrow> poll_actionable L ios now d = (d2, alerts) \<Longrightarrow>
    system_step K uid pub L E0 vk Peer rc peer_uid source s (s\<lparr> sy_daemon := (sy_daemon s)\<lparr> ds_driver := Some d2, ds_alerts := alerts \<rparr> \<rparr>)"
| assess: "ds_alerts (sy_daemon s) = a # as \<Longrightarrow> same_libs E0 E \<Longrightarrow> assess_alert E a (ds_orch (sy_daemon s)) = (o2, r) \<Longrightarrow>
    system_step K uid pub L E0 vk Peer rc peer_uid source s (s\<lparr> sy_daemon := (sy_daemon s)\<lparr> ds_orch := o2, ds_alerts := as \<rparr> \<rparr>)"
| executes: "Peer conn \<Longrightarrow>
    unforged E0 vk (sent_frames (o_trace (ds_orch (sy_daemon s)))) [conn] \<Longrightarrow>
    serve_accepted rc peer_uid source conn (sy_executor s) = (x2, served) \<Longrightarrow>
    system_step K uid pub L E0 vk Peer rc peer_uid source s
      (s\<lparr> sy_executor := x2, sy_ran := sy_ran s @ map snd (run_of source conn (sy_executor s) x2) \<rparr>)"

inductive_cases system_stepE: "system_step K uid pub L E0 vk Peer rc peer_uid source s s2"

section \<open>Refinement\<close>

lemma serve_ctl_accepted_served:
  assumes "serve_ctl_accepted K uid pub accepted o' = (o2, out)"
  shows "o2 = (case served_command K uid pub accepted of
      None \<Rightarrow> o' | Some cb \<Rightarrow> fst (serve_request (cc_env (the accepted)) o' (cb_request cb)))"
proof -
  have "snd (ctl_admit ctl_replay_new q n) = Inr ()" for q n using fresh_guard_admits [of q n] by auto
  then show ?thesis using assms
    by (auto simp: serve_ctl_accepted_def served_command_def serve_connection_def handle_ctl_frame_def Let_def split_beta
        split: option.splits if_splits sum.splits prod.splits)
qed

text \<open>Each step of the system is one of the daemon, or leaves the daemon alone.\<close>

lemma system_step_daemon:
  assumes "system_step K uid pub L E0 vk Peer rc peer_uid source s s2"
  shows "sy_daemon s2 = sy_daemon s \<or> daemon_step K uid pub L (same_libs E0) (sy_daemon s) (sy_daemon s2)"
  using assms
proof cases
  case (control accepted o2 out)
  then show ?thesis using daemon_step.control [of accepted "same_libs E0" K uid pub "sy_daemon s" o2 out L] by simp
next
  case (tick d ios now d2 alerts)
  then show ?thesis using daemon_step.tick [of "sy_daemon s" d L ios now d2 alerts K uid pub "same_libs E0"] by simp
next
  case (assess a as E o2 r)
  then show ?thesis using daemon_step.assess [of "sy_daemon s" a as "same_libs E0" E o2 r K uid pub L] by simp
qed simp

lemma system_reaches_daemon:
  assumes "(system_step K uid pub L E0 vk Peer rc peer_uid source)\<^sup>*\<^sup>* s s2"
  shows "(daemon_step K uid pub L (same_libs E0))\<^sup>*\<^sup>* (sy_daemon s) (sy_daemon s2)"
  using assms
proof (induction rule: rtranclp_induct)
  case (step b c)
  then show ?case using system_step_daemon [OF step(2)] by (metis (no_types, lifting) rtranclp.rtrancl_into_rtrancl)
qed simp

lemma step_trace:
  assumes "orch_step Env a b"
  shows "\<exists>more. o_trace b = o_trace a @ more"
  using assms
proof cases
  case (starts E r)
  then show ?thesis using logs_only_grew [OF start_effect [OF starts(2)]] by (auto simp: grew_def)
next
  case (runs E task untrusted q)
  from runs(2) show ?thesis by (cases rule: run_task_effect) (auto simp: grew_def grew_sending_def)
next
  case (approves E approval_id digest q)
  from approves(2) show ?thesis by (cases rule: approve_cases) (auto simp: grew_def)
next
  case (rejects approval_id t)
  then show ?thesis using reject_effect [of a approval_id b t] unfolding grew_def by blast
qed

lemma reaches_sent: "orch_reaches Env a b \<Longrightarrow> \<exists>more. sent_frames (o_trace b) = sent_frames (o_trace a) @ more"
proof (induction rule: rtranclp_induct)
  case (step b c)
  then show ?case using step_trace [OF step(2)] by auto
qed simp

section \<open>No frame without an approval\<close>

text \<open>The command approves the request: it names the digest of the request's action.\<close>

definition approves_request :: "('g, 's, 'r, 'f) OrchEnv \<Rightarrow> CtlBody \<Rightarrow> ExecRequest \<Rightarrow> bool" where
  "approves_request E cb request \<longleftrightarrow>
    (\<exists>approval_id payload_sha256. cb_request cb = Approve approval_id (action_digest E (rq_exec_name request) (rq_args request) payload_sha256))"

definition releases :: "('g, 's, 'r, 'f) OrchEnv \<Rightarrow> Session \<Rightarrow> CtlBody \<Rightarrow> byte list \<Rightarrow> bool" where
  "releases E session cb frame \<longleftrightarrow> (\<exists>request. signed_by E session request frame \<and> approves_request E cb request)"

lemma interactive_task_quiet:
  assumes "run_task E o' task untrusted = (o2, r)" and "ses_mode (o_session o') = Interactive"
  shows "sent_frames (o_trace o2) = sent_frames (o_trace o')"
  using assms(1)
proof (cases rule: run_task_effect)
  case (sent exec args' vb frame)
  have "decided E o' exec vb \<noteq> Allow" using assms(2) by (simp add: decided_def evaluate_policy_def Let_def engine.allow_iff)
  then show ?thesis using sent(5) by simp
qed (auto simp: grew_def)

lemma command_sends:
  assumes inv: "orch_inv E0 o'" and mode: "ses_mode (o_session o') = Interactive" and libs: "same_libs E0 E"
    and served: "serve_request E o' (cb_request cb) = (o2, response)"
  shows "sent_frames (o_trace o2) = sent_frames (o_trace o')
    \<or> (\<exists>frame. sent_frames (o_trace o2) = sent_frames (o_trace o') @ [frame] \<and> releases E0 (o_session o') cb frame)"
proof (cases "cb_request cb")
  case (RunTask task context')
  then obtain q where "run_task E o' task context' = (o2, q)"
    using served by (auto simp: serve_request_def service_run_task_def Let_def split: prod.splits)
  then show ?thesis using interactive_task_quiet mode by blast
next
  case (Approve i d)
  then obtain q where "approve E o' i d = (o2, q)"
    using served by (auto simp: serve_request_def service_approve_def Let_def split: prod.splits)
  then show ?thesis
  proof (cases rule: approve_cases)
    case (approved p)
    from approved(1) inv obtain request sha where "signed_by E0 (o_session o') request (pd_frame p)"
        "pd_digest p = action_digest E0 (rq_exec_name request) (rq_args request) sha"
      by (force simp: orch_inv_def pending_ok_def)
    then have "releases E0 (o_session o') cb (pd_frame p)"
      using approved(2) Approve by (auto simp: releases_def approves_request_def)
    then show ?thesis using approved(6) by auto
  qed (auto simp: grew_def)
next
  case (Reject i)
  then obtain t where "reject o' i = (o2, t)"
    using served by (auto simp: serve_request_def service_reject_def Let_def split: prod.splits)
  then obtain evs where "o_trace o2 = o_trace o' @ map Logged evs" using reject_effect [of o' i o2 t] unfolding grew_def by blast
  then show ?thesis by simp
qed (use served in \<open>simp_all add: serve_request_def\<close>)

lemma releases_turned: "turned a b \<Longrightarrow> releases E (o_session a) cb frame \<Longrightarrow> releases E (o_session b) cb frame"
  unfolding releases_def turned_def by (meson turned_mono(1))

text \<open>In interactive mode each frame that left has a command of its own that released it, in order.\<close>

definition released_by :: "('g, 's, 'r, 'f) OrchEnv \<Rightarrow> Orchestrator \<Rightarrow> CtlBody list \<Rightarrow> bool" where
  "released_by E o' cmds \<longleftrightarrow> (\<exists>cbs. subseq cbs cmds \<and> list_all2 (releases E (o_session o')) cbs (sent_frames (o_trace o')))"

lemma released_by_turned:
  assumes "turned a b" and "sent_frames (o_trace b) = sent_frames (o_trace a)" and "released_by E a cmds"
  shows "released_by E b cmds" "released_by E b (cmds @ later)"
proof -
  from assms obtain cbs where "subseq cbs cmds" "list_all2 (releases E (o_session b)) cbs (sent_frames (o_trace b))"
    unfolding released_by_def using releases_turned list_all2_mono by (metis (mono_tags, lifting))
  then show "released_by E b cmds" "released_by E b (cmds @ later)"
    unfolding released_by_def by (auto intro: list_emb_append2 subseq_order.trans simp: list_emb_append_mono subseq_append')
qed

lemma released_by_command:
  assumes "turned a b" and "sent_frames (o_trace b) = sent_frames (o_trace a) @ [frame]" and "releases E (o_session a) cb frame"
    and "released_by E a cmds"
  shows "released_by E b (cmds @ [cb])"
proof -
  from assms(4) obtain cbs where "subseq cbs cmds" "list_all2 (releases E (o_session a)) cbs (sent_frames (o_trace a))"
    unfolding released_by_def by blast
  then have "subseq (cbs @ [cb]) (cmds @ [cb])" "list_all2 (releases E (o_session b)) (cbs @ [cb]) (sent_frames (o_trace b))"
    using assms(2,3) releases_turned [OF assms(1)]
    by (auto simp: list_emb_append_mono intro!: list_all2_appendI elim: list_all2_mono)
  then show ?thesis unfolding released_by_def by blast
qed

lemma served_command_conn: "served_command K uid pub accepted = Some cb \<Longrightarrow> \<exists>conn. accepted = Some conn"
  by (auto simp: served_command_def split: option.splits)

lemma step_released:
  assumes step: "system_step K uid pub L E0 vk Peer rc peer_uid source s s2"
    and inv: "orch_inv E0 (ds_orch (sy_daemon s))" and mode: "ses_mode (o_session (ds_orch (sy_daemon s))) = Interactive"
    and rel: "released_by E0 (ds_orch (sy_daemon s)) (sy_commands s)"
  shows "released_by E0 (ds_orch (sy_daemon s2)) (sy_commands s2)"
  using step
proof cases
  case (control accepted o2 out)
  let ?o = "ds_orch (sy_daemon s)"
  show ?thesis
  proof (cases "served_command K uid pub accepted")
    case None
    then show ?thesis using control rel serve_ctl_accepted_served [OF control(3)] by (simp add: log_command_def)
  next
    case (Some cb)
    then obtain conn where conn: "accepted = Some conn" using served_command_conn by blast
    obtain response where served: "serve_request (cc_env conn) ?o (cb_request cb) = (o2, response)"
      using serve_ctl_accepted_served [OF control(3)] Some conn by (metis option.sel option.simps(5) prod.collapse)
    have libs: "same_libs E0 (cc_env conn)" using control(2) conn by blast
    have "turned ?o o2"
      using serve_request_step [of "\<lambda>_. True" "cc_env conn", OF _ served] step_turned turned_same [of ?o ?o]
      by (auto simp: same_setup_def)
    then show ?thesis
      using command_sends [OF inv mode libs served] released_by_turned(2) [OF _ _ rel] released_by_command [OF _ _ _ rel] control(1) Some
      by (auto simp: log_command_def)
  qed
next
  case (tick d ios now d2 alerts)
  then show ?thesis using rel by simp
next
  case (assess a as E o2 r)
  have "orch_step (same_libs E0) (ds_orch (sy_daemon s)) o2"
    using orch_step.runs [of "same_libs E0" E] assess(3,4) unfolding assess_alert_def by blast
  moreover have "sent_frames (o_trace o2) = sent_frames (o_trace (ds_orch (sy_daemon s)))"
    using interactive_task_quiet assess(4) mode unfolding assess_alert_def by blast
  ultimately show ?thesis using assess(1) released_by_turned(1) [OF step_turned _ rel] by simp
next
  case (executes conn x2 served)
  then show ?thesis using rel by simp
qed

section \<open>What the executor ran\<close>

lemma serve_loop_snoc:
  "serve_loop rc uid source (as @ [a]) x = fst (serve_accepted rc uid source a (serve_loop rc uid source as x))"
  "loop_runs rc uid source (as @ [a]) x = loop_runs rc uid source as x
    @ run_of source a (serve_loop rc uid source as x) (fst (serve_accepted rc uid source a (serve_loop rc uid source as x)))"
  by (induction as arbitrary: x) (simp_all add: Let_def)

text \<open>The effect is the run of this request: the gates of the executor, consulted on a connection, cleared the request
  with the bundle whose script ran, on the request's own arguments.\<close>

definition performed ::
  "(('a, 'b, 'c, 'd, 'e, 'h, 'i) Conn option \<Rightarrow> bool) \<Rightarrow> Executor \<Rightarrow> ExecRequest \<Rightarrow> Effect \<Rightarrow> bool"
where
  "performed Peer ex request eff \<longleftrightarrow>
    (\<exists>conn vb. Peer (Some conn) \<and> cleared (c_env conn) ex request vb
      \<and> eff = RanAction (p_inline (payload (vb_manifest vb))) (rq_args request))"

text \<open>The requests that ran, in order: each is carried by a frame that has left, and its run is in the world's log.\<close>

definition ran_sent ::
  "('g, 's, 'r, 'f) OrchEnv \<Rightarrow> (('a, 'b, 'c, 'd, 'e, 'h, 'i) Conn option \<Rightarrow> bool) \<Rightarrow> Executor \<times> World \<Rightarrow> 't SystemState \<Rightarrow> ExecRequest list \<Rightarrow> bool"
where
  "ran_sent E0 Peer x s requests \<longleftrightarrow>
    sy_ran s = map replay_msg requests \<and> list_all (carried E0 (sent_frames (o_trace (ds_orch (sy_daemon s))))) requests
    \<and> (\<exists>effects. filter is_run (w_log (snd (sy_executor s))) = filter is_run (w_log (snd x)) @ effects
        \<and> list_all2 (performed Peer (fst x)) requests effects)"

lemma ran_sent_mono:
  assumes "ran_sent E0 Peer x s requests" and "sy_ran s2 = sy_ran s" and "sy_executor s2 = sy_executor s"
    and "sent_frames (o_trace (ds_orch (sy_daemon s2))) = sent_frames (o_trace (ds_orch (sy_daemon s))) @ later"
  shows "ran_sent E0 Peer x s2 requests"
  using assms(1) carried_mono [of E0 "sent_frames (o_trace (ds_orch (sy_daemon s)))" _ "sent_frames (o_trace (ds_orch (sy_daemon s))) @ later"]
  unfolding ran_sent_def assms(2-4) by (auto elim: list.pred_mono_strong)

lemma executes_ran:
  assumes peer: "Peer conn" "trusts vk source [conn]" and un: "unforged E0 vk (sent_frames (o_trace (ds_orch (sy_daemon s)))) [conn]"
    and srv: "serve_accepted rc peer_uid source conn (sy_executor s) = (x2, served)"
    and cfg: "same_config (fst (sy_executor s)) (fst x)" "x_session_key (fst x) = vk" and ran: "ran_sent E0 Peer x s requests"
  defines "s2 \<equiv> s\<lparr> sy_executor := x2, sy_ran := sy_ran s @ map snd (run_of source conn (sy_executor s) x2) \<rparr>"
  shows "\<exists>requests'. ran_sent E0 Peer x s2 requests'"
proof -
  obtain ex w ex' w' where x: "sy_executor s = (ex, w)" "x2 = (ex', w')" by (metis surj_pair)
  have key: "x_session_key ex = vk" using cfg x by (simp add: same_config_def)
  from ran obtain effects where e: "filter is_run (w_log w) = filter is_run (w_log (snd x)) @ effects"
      "list_all2 (performed Peer (fst x)) requests effects" by (auto simp: ran_sent_def x)
  show ?thesis
  proof (cases rule: run_sent [OF peer(2) un key srv [unfolded x]])
    case 1
    then have "ran_sent E0 Peer x s2 requests" using ran by (simp add: ran_sent_def s2_def x)
    then show ?thesis by blast
  next
    case (2 c request vb)
    have "cleared (c_env c) (fst x) request vb" using 2(4) cfg(1) cleared_config(1) [of ex "fst x" "c_env c" request vb] by (simp add: same_config_def x)
    then have "performed Peer (fst x) request (RanAction (p_inline (payload (vb_manifest vb))) (rq_args request))"
      using peer(1) 2(1) unfolding performed_def by blast
    then have "list_all2 (performed Peer (fst x)) (requests @ [request]) (effects @ [RanAction (p_inline (payload (vb_manifest vb))) (rq_args request)])"
      using e(2) by (auto intro: list_all2_appendI)
    then have "ran_sent E0 Peer x s2 (requests @ [request])"
      using ran 2 e(1) by (auto simp: ran_sent_def s2_def x)
    then show ?thesis by blast
  qed
qed

lemma step_ran:
  fixes Peer :: "('a, 'b, 'c, 'd, 'e, 'h, 'i) Conn option \<Rightarrow> bool" and as :: "('a, 'b, 'c, 'd, 'e, 'h, 'i) Conn option list"
  assumes step: "system_step K uid pub L E0 vk Peer rc peer_uid source s s2"
    and trust: "\<And>conn. Peer conn \<Longrightarrow> trusts vk source [conn]"
    and cfg: "same_config (fst (sy_executor s)) (fst x)" "x_session_key (fst x) = vk" and ran: "ran_sent E0 Peer x s requests"
    and loop: "sy_executor s = serve_loop rc peer_uid source as x" "sy_ran s = map snd (loop_runs rc peer_uid source as x)"
  shows "same_config (fst (sy_executor s2)) (fst x) \<and> (\<exists>requests. ran_sent E0 Peer x s2 requests)
    \<and> (\<exists>as' :: ('a, 'b, 'c, 'd, 'e, 'h, 'i) Conn option list. sy_executor s2 = serve_loop rc peer_uid source as' x \<and> sy_ran s2 = map snd (loop_runs rc peer_uid source as' x))"
proof -
  obtain later where later: "sent_frames (o_trace (ds_orch (sy_daemon s2))) = sent_frames (o_trace (ds_orch (sy_daemon s))) @ later"
    using system_step_daemon [OF step] daemon_step_orch reaches_sent by (metis append_Nil2)
  show ?thesis
    using step
  proof cases
    case (executes conn x2 served)
    have key: "x_session_key (fst (sy_executor s)) = vk" using cfg by (simp add: same_config_def)
    have "same_config (fst x2) (fst (sy_executor s))"
      using serve_accepted_config [OF trust [OF executes(2)] key, of rc peer_uid] executes(4) by simp
    then have "same_config (fst (sy_executor s2)) (fst x)" using executes(1) cfg(1) same_config_trans by simp
    moreover have "\<exists>requests. ran_sent E0 Peer x s2 requests"
      using executes_ran [OF executes(2) trust [OF executes(2)] executes(3,4) cfg ran] executes(1) by simp
    moreover have "sy_executor s2 = serve_loop rc peer_uid source (as @ [conn]) x
        \<and> sy_ran s2 = map snd (loop_runs rc peer_uid source (as @ [conn]) x)"
      using executes(1,4) loop by (simp add: serve_loop_snoc)
    ultimately show ?thesis by blast
  qed (use cfg loop ran_sent_mono [OF ran _ _ later] in auto)
qed

section \<open>The system as a whole\<close>

text \<open>Every state of the running system, whatever the interleaving.\<close>

lemma system_invariant:
  fixes Peer :: "('a, 'b, 'c, 'd, 'e, 'h, 'i) Conn option \<Rightarrow> bool"
  assumes codecs: "codec_ok (oe_request_codec E0)" "codec_ok (oe_envelope_codec E0)"
    and inv: "orch_inv E0 (dr_orch dr)" and quiet: "sent_frames (o_trace (dr_orch dr)) = []"
    and key: "x_session_key (fst x) = vk" and trust: "\<And>conn. Peer conn \<Longrightarrow> trusts vk source [conn]"
    and runs: "(system_step K uid pub L E0 vk Peer rc peer_uid source)\<^sup>*\<^sup>* (system_init dr x) s"
  shows "orch_inv E0 (ds_orch (sy_daemon s)) \<and> orch_reaches (same_libs E0) (dr_orch dr) (ds_orch (sy_daemon s))
    \<and> (\<exists>requests. ran_sent E0 Peer x s requests) \<and> same_config (fst (sy_executor s)) (fst x)
    \<and> (\<exists>as :: ('a, 'b, 'c, 'd, 'e, 'h, 'i) Conn option list. sy_executor s = serve_loop rc peer_uid source as x
        \<and> sy_ran s = map snd (loop_runs rc peer_uid source as x))
    \<and> (ses_mode (o_session (dr_orch dr)) = Interactive \<longrightarrow> released_by E0 (ds_orch (sy_daemon s)) (sy_commands s))"
  using runs
proof (induction rule: rtranclp_induct)
  case base
  have "released_by E0 (dr_orch dr) []" using quiet by (simp add: released_by_def)
  moreover have "ran_sent E0 Peer x (system_init dr x) []" by (simp add: ran_sent_def system_init_def)
  ultimately show ?case
    using inv by (auto simp: system_init_def daemon_init_def same_config_def intro!: exI [of _ "[]"])
next
  case (step s s2)
  have "orch_reaches (same_libs E0) (ds_orch (sy_daemon s)) (ds_orch (sy_daemon s2))"
    using daemon_reaches_orch [OF system_reaches_daemon [OF r_into_rtranclp, of K uid pub L E0 vk Peer rc peer_uid source s s2, OF step(2)]] .
  then have reach: "orch_reaches (same_libs E0) (dr_orch dr) (ds_orch (sy_daemon s2))" using step(3) by (meson rtranclp_trans)
  have "orch_inv E0 (ds_orch (sy_daemon s2))" by (rule inv_reaches [OF codecs _ reach inv])
  moreover have "ses_mode (o_session (ds_orch (sy_daemon s))) = ses_mode (o_session (dr_orch dr))"
    using step(3) reaches_same_identity by blast
  moreover from step(3) obtain requests and as :: "('a, 'b, 'c, 'd, 'e, 'h, 'i) Conn option list" where
      "same_config (fst (sy_executor s)) (fst x)" "ran_sent E0 Peer x s requests" "sy_executor s = serve_loop rc peer_uid source as x"
      "sy_ran s = map snd (loop_runs rc peer_uid source as x)" by blast
  note ran = step_ran [OF step(2) _ this(1) key this(2-4)]
  have "same_config (fst (sy_executor s2)) (fst x) \<and> (\<exists>requests. ran_sent E0 Peer x s2 requests)
      \<and> (\<exists>as' :: ('a, 'b, 'c, 'd, 'e, 'h, 'i) Conn option list. sy_executor s2 = serve_loop rc peer_uid source as' x
          \<and> sy_ran s2 = map snd (loop_runs rc peer_uid source as' x))"
    by (rule ran) (rule trust)
  ultimately show ?case using step_released [OF step(2)] step(3) reach by simp
qed

text \<open>Distinct frames have distinct places, so the commands that released them are different ones.\<close>

lemma pick_released:
  assumes "list_all2 P cs frames" and "distinct fs" and "set fs \<subseteq> set frames"
  shows "\<exists>ds. mset ds \<subseteq># mset cs \<and> list_all2 P ds fs"
proof -
  have "\<forall>f \<in> set fs. \<exists>i. i < length frames \<and> frames ! i = f" using assms(3) by (auto simp: in_set_conv_nth subset_iff)
  from bchoice [OF this] obtain idx where idx: "\<And>f. f \<in> set fs \<Longrightarrow> idx f < length frames \<and> frames ! idx f = f" by blast
  let ?ds = "map (\<lambda>f. cs ! idx f) fs"
  have len: "length cs = length frames" using assms(1) by (rule list_all2_lengthD)
  have "inj_on idx (set fs)" by (rule inj_onI) (metis idx)
  then have "distinct (map idx fs)" using assms(2) by (simp add: distinct_map)
  then have "mset (map idx fs) \<subseteq># mset [0..<length cs]" using idx len by (intro mset_distinct_subset) auto
  then have "image_mset ((!) cs) (mset (map idx fs)) \<subseteq># image_mset ((!) cs) (mset [0..<length cs])"
    by (rule image_mset_subseteq_mono)
  moreover have "image_mset ((!) cs) (mset [0..<length cs]) = mset cs" by (metis map_nth mset_map)
  ultimately have "mset ?ds \<subseteq># mset cs" by (simp add: multiset.map_comp comp_def)
  moreover have "list_all2 P ?ds fs"
    unfolding list_all2_conv_all_nth using assms(1) idx len by (metis length_map list_all2_conv_all_nth nth_map nth_mem)
  ultimately show ?thesis by blast
qed

lemma subseq_mset: "subseq xs ys \<Longrightarrow> mset xs \<subseteq># mset ys"
  by (induction rule: list_emb.induct) (auto intro: subset_mset.order_trans)

lemma released_requests:
  assumes codecs: "codec_ok (oe_request_codec E0)" "codec_ok (oe_envelope_codec E0)" and rel: "released_by E0 o' cmds"
    and fs: "list_all2 (signed_by E0 (o_session o')) requests fs" "distinct fs" "set fs \<subseteq> set (sent_frames (o_trace o'))"
  shows "\<exists>cbs. mset cbs \<subseteq># mset cmds \<and> list_all2 (approves_request E0) cbs requests"
proof -
  from rel obtain cs where cs: "subseq cs cmds" "list_all2 (releases E0 (o_session o')) cs (sent_frames (o_trace o'))"
    unfolding released_by_def by blast
  from pick_released [OF cs(2) fs(2,3)] obtain ds where ds: "mset ds \<subseteq># mset cs" "list_all2 (releases E0 (o_session o')) ds fs" by blast
  have one: "approves_request E0 cb request" if "releases E0 (o_session o') cb f" "signed_by E0 (o_session o') request f" for cb request f
    using that sealed_frame_inj [OF codecs] unfolding releases_def signed_by_def by blast
  have "list_all2 (approves_request E0) ds requests"
    using ds(2) fs(1) one unfolding list_all2_conv_all_nth by metis
  then show ?thesis using ds(1) subseq_mset [OF cs(1)] subset_mset.order_trans by blast
qed

section \<open>A sample run\<close>

text \<open>An interactive session: the operator asks for a task, approves what the model proposes, and the executor runs it.\<close>

definition held_request :: ExecRequest where
  "held_request = sample_request\<lparr> rq_mode := Interactive \<rparr>"

definition held_env :: "(string, string list, string list, unit) OrchEnv" where
  "held_env = sample_orch_env\<lparr> oe_request_codec := point_codec held_request [1] \<rparr>"

definition held_wire_env ::
  "(string, string list, string list, nat \<times> u64, sample_rule, sample_program, sample_program) ExecEnv"
where
  "held_wire_env = sample_wire_env\<lparr> e_request_codec := point_codec held_request [1] \<rparr>"

definition held_command :: "byte list \<Rightarrow> CtlBody" where
  "held_command bs =
    \<lparr> cb_seq = 1, cb_nonce = replicate 16 0, cb_issued_ms = 0,
      cb_request = (if bs = [1] then RunTask ''status?'' []
        else Approve (random_id (replicate 16 4))
          (action_digest held_env ''unit-status'' [(''unit'', ''sshd'')] (p_sha256 (payload sample_manifest)))) \<rparr>"

definition held_codecs :: CtlCodecs where
  "held_codecs =
    \<lparr> k_envelope = \<lparr> into_writer = (\<lambda>_. Inl ''unsupported''),
        from_reader = (\<lambda>bs. Inr \<lparr> ce_version = CTL_PROTOCOL_VERSION, ce_body = bs, ce_signature = sig_bytes (sign sample_crypto sample_key bs) \<rparr>) \<rparr>,
      k_body = \<lparr> into_writer = (\<lambda>_. Inl ''unsupported''), from_reader = (\<lambda>bs. Inr (held_command bs)) \<rparr>,
      k_response = point_codec ctl_sample_response [3] \<rparr>"

definition held_ctl :: "byte \<Rightarrow> (string, string list, string list, unit) CtlConn" where
  "held_ctl b = \<lparr> cc_env = held_env, cc_peer_uid = Some 1000, cc_incoming = be32 1 @ [b], cc_writable = True \<rparr>"

definition held_conn :: "(string, string list, string list, nat \<times> u64, sample_rule, sample_program, sample_program) Conn" where
  "held_conn = \<lparr> c_env = held_wire_env, c_peer_uid = Some 7, c_incoming = be32 1 @ [2], c_writable = True, c_now = 0 \<rparr>"

definition held_policy :: PolicyEngine where
  "held_policy =
    \<lparr> pe_allowlist = \<lparr> profiles = [\<lparr> pa_name = ''default'', pa_mode = Interactive, allowed_exec = [''unit-status''] \<rparr>] \<rparr> \<rparr>"

definition held_orch :: Orchestrator where
  "held_orch =
    orchestrator_new (replicate 16 5) (replicate 16 6) held_policy (x_trust sample_executor) ''/b'' sample_log
      (sample_session Interactive) ''m'' 100 []"

definition held_executor :: Executor where
  "held_executor = sample_executor\<lparr> x_policy := held_policy \<rparr>"

definition held_run :: "string list DaemonRun" where
  "held_run =
    \<lparr> dr_orch = fst (orch_start held_env held_orch),
      dr_backend = Ollama \<lparr> ob_client = \<lparr> hc_follow_redirects = False, hc_env_proxy = False, hc_connect_timeout = CONNECT_TIMEOUT,
        hc_timeout = OLLAMA_TIMEOUT, hc_https_only = False \<rparr>, ob_base_url = OLLAMA_BASE_URL, ob_max_response_bytes = OLLAMA_MAX_BYTES \<rparr>,
      dr_operator_uid = 1000, dr_operator_pub = verifying_key sample_crypto sample_key, dr_monitor = None \<rparr>"

lemma held_env_simps [simp]:
  "oe_crypto held_env = sample_crypto" "oe_request_codec held_env = point_codec held_request [1]"
  "oe_envelope_codec held_env = point_codec sample_envelope [2]" "audited held_env = audited sample_orch_env"
  "oe_complete held_env q = Inr sample_reply" "oe_send held_env f = Inl ConnectExecSocket"
  by (simp_all add: held_env_def fun_eq_iff audited_def audit_event_def) (simp_all add: sample_orch_env_def)

lemma held_served:
  "served_command held_codecs 1000 (verifying_key sample_crypto sample_key) (Some (held_ctl b)) = Some (held_command [b])"
proof -
  have "read_body ctl_frame_len (be32 1 @ [b]) = Inr [b]"
    by (simp add: read_body_def read_exact_def ctl_frame_len_def of_be32_be32 CTL_MAX_FRAME_LEN_def Let_def)
  moreover have "ctl_open sample_crypto (k_body held_codecs) \<lparr> ce_version = CTL_PROTOCOL_VERSION, ce_body = [b],
      ce_signature = sig_bytes (sign sample_crypto sample_key [b]) \<rparr> (verifying_key sample_crypto sample_key) = Inr (held_command [b])"
    by (simp add: ctl_open_ok held_codecs_def) (simp add: sample_crypto_def)
  ultimately show ?thesis
    by (simp add: served_command_def held_ctl_def ctl_from_frame_body_def ctl_cbor_from_slice_def held_codecs_def)
qed

lemma held_start: "orch_start held_env held_orch = (dr_orch held_run, Inr ())"
  and held_fresh: "o_pending (dr_orch held_run) = []" "o_session (dr_orch held_run) = sample_session Interactive"
    "same_setup held_orch (dr_orch held_run)" "sent_frames (o_trace (dr_orch held_run)) = []"
  by (auto simp: held_run_def orch_start_def lax_audited Let_def held_orch_def orchestrator_new_def same_setup_def)
    (simp_all add: lax_logged_def)

lemma held_decided:
  "\<exists>why. evaluate_policy literal_lib held_policy ''default'' Interactive ''unit-status'' \<lparr> vb_manifest = sample_manifest \<rparr>
    = RequireApproval why False"
  unfolding evaluate_policy_def Let_def engine.single_approval_suffices_iff
  using sample_command_free
  by (simp add: request_denied_def sample_manifest_def engine_lists_def held_policy_def allowlist_is_allowed_iff profile_def)

definition held_pending :: Pending where
  "held_pending =
    \<lparr> pd_frame = be32 1 @ [2], pd_action_id = ActionId (replicate 16 2), pd_exec = ''unit-status'',
      pd_digest = action_digest held_env ''unit-status'' [(''unit'', ''sshd'')] (p_sha256 (payload sample_manifest)),
      pd_args_sha256 = sha256_hex sample_crypto (args_bytes held_env [(''unit'', ''sshd'')]), pd_two_person = False, pd_created_ms = 0 \<rparr>"

lemma held_fields:
  "oe_toml held_env = oe_toml sample_orch_env" "oe_read held_env = oe_read sample_orch_env" "oe_regex held_env = sample_regex"
  "oe_match held_env = literal_lib" "oe_json_action held_env = oe_json_action sample_orch_env" "oe_action_rnd held_env = replicate 16 2"
  "oe_nonce_rnd held_env = replicate 16 3" "oe_approval_rnd held_env = replicate 16 4" "oe_issued_ms held_env = 0"
  "oe_prune_ms held_env = 0" "oe_created_ms held_env = 0"
  by (simp_all add: held_env_def sample_orch_env_def)

lemma held_signed:
  "sign_exec_request sample_crypto (point_codec held_request [1]) (replicate 16 3) 0 (sample_session Interactive) (ActionId (replicate 16 2))
      ''unit-status'' [(''unit'', ''sshd'')] (m_risk (meta sample_manifest)) (m_read_only (meta sample_manifest))
    = (next_session (sample_session Interactive), Inr sample_envelope)"
  by (simp add: sign_exec_request_def next_session_def sample_session_def session_new_def fill_bytes_def saturating_add_def
      envelope_seal_def cbor_to_vec_def point_codec_def held_request_def sample_request_def sample_manifest_def sample_envelope_def Let_def)

lemma held_invoke:
  assumes "o_session o' = sample_session Interactive" "same_setup held_orch o'" "o_pending o' = []"
  shows "\<exists>o2 q. invoke held_env o' ''unit-status'' [(''unit'', ''sshd'')] [] = (o2, q) \<and> o_pending o2 = [(random_id (replicate 16 4), held_pending)]
    \<and> sent_frames (o_trace o2) = sent_frames (o_trace o')"
proof -
  have st: "o_policy o' = held_policy" "o_trust o' = x_trust sample_executor" "o_bundle_dir o' = ''/b''"
    using assms(2) by (auto simp: same_setup_def held_orch_def orchestrator_new_def)
  have v: "validate_args sample_regex sample_manifest [(''unit'', ''sshd'')] = Inr ()"
    using sample_args [of sample_manifest] by (simp add: sample_request_def)
  have ses: "ses_profile (sample_session Interactive) = ''default''" "ses_mode (sample_session Interactive) = Interactive"
    by (simp_all add: sample_session_def session_new_def)
  obtain why where d: "evaluate_policy literal_lib held_policy ''default'' Interactive ''unit-status'' \<lparr> vb_manifest = sample_manifest \<rparr>
      = RequireApproval why False" using held_decided by blast
  show ?thesis
    using assms st sample_load v d held_signed sample_frame
    by (simp add: invoke_def path_join_def starts_with_def lax_audited sign_and_route_def held_fields ses fill_bytes_def
        await_approval_def prune_pending_def MAX_PENDING_def held_pending_def Let_def)
qed

lemma held_task:
  "\<exists>o2 q. run_task held_env (dr_orch held_run) ''status?'' [] = (o2, q) \<and> o_pending o2 = [(random_id (replicate 16 4), held_pending)]
    \<and> sent_frames (o_trace o2) = []"
proof -
  let ?o = "dr_orch held_run"
  have b: "builder ?o = builder (sample_orch Interactive)"
    using held_fresh(2,3) by (simp add: builder_def same_setup_def held_orch_def sample_orch_def orchestrator_new_def)
  have c: "\<not> response_is_compromised (builder ?o) (cp_text sample_reply)"
    using sample_canary [of Interactive] unfolding b by (simp add: response_is_compromised_def builder_def)
  have "\<exists>e1 e2. run_task held_env ?o ''status?'' [] = invoke held_env (lax_logged (lax_logged ?o e1) e2) ''unit-status'' [(''unit'', ''sshd'')] []"
    using c sample_parse [of Interactive] unfolding b by (simp add: run_task_def lax_audited held_fields b Let_def) blast
  then obtain e1 e2 where run: "run_task held_env ?o ''status?'' []
      = invoke held_env (lax_logged (lax_logged ?o e1) e2) ''unit-status'' [(''unit'', ''sshd'')] []" by blast
  have "same_setup held_orch (lax_logged (lax_logged ?o e1) e2)" using held_fresh(3) by (simp add: same_setup_def lax_logged_def)
  from held_invoke [OF _ this] show ?thesis unfolding run using held_fresh by simp
qed

lemma held_approve:
  assumes "o_pending o' = [(random_id (replicate 16 4), held_pending)]" "sent_frames (o_trace o') = []"
  shows "sent_frames (o_trace (fst (approve held_env o' (random_id (replicate 16 4)) (pd_digest held_pending)))) = [be32 1 @ [2]]"
    "snd (approve held_env o' (random_id (replicate 16 4)) (pd_digest held_pending)) = Inl (OTransport ConnectExecSocket)"
  using assms
  by (simp_all add: approve_def prune_pending_def saturating_sub_def APPROVAL_TTL_MS_def held_fields lax_audited orch_dispatch_def Let_def)
    (simp_all add: held_pending_def saturating_sub_def lax_audited)

text \<open>The executor's gates do not look at the mode, the allowlist apart.\<close>

lemma held_gates:
  "resolve_bundle held_wire_env ex held_request = resolve_bundle (sample_env sample_manifest) ex sample_request"
  "check_args_and_mutation held_wire_env ex held_request = check_args_and_mutation (sample_env sample_manifest) ex sample_request"
  "rate_gate ex now held_request vb = rate_gate ex now sample_request vb"
  "snapshot_gate ex w held_request vb = snapshot_gate ex w sample_request vb"
  "sandbox_gate held_wire_env held_request vb = sandbox_gate (sample_env sample_manifest) sample_request vb"
  "cgroup_gate held_wire_env w held_request pl = cgroup_gate (sample_env sample_manifest) w sample_request pl"
  by (simp_all add: fun_eq_iff held_wire_env_def sample_wire_env_def held_request_def resolve_bundle_def check_args_and_mutation_def
      rate_gate_def snapshot_gate_def sandbox_gate_def cgroup_gate_def)

lemma held_authenticated: "authenticate held_wire_env held_executor [2] = Inr held_request"
  by (simp add: authenticate_def held_wire_env_def sample_wire_env_def from_frame_body_def cbor_from_slice_def point_codec_def envelope_open_def
      sample_env_def sample_envelope_def held_executor_def sample_executor_def executor_new_def sample_crypto_def to_array_def)

lemma held_completes: "\<not> is_rejected (snd (handle held_wire_env 0 held_executor sample_world [2]))"
proof -
  let ?ex = "held_executor\<lparr> x_replay := replay_commit replay_new (SessionId (replicate 16 1)) 1 (replicate 16 3) \<rparr>"
  let ?E = "sample_env sample_manifest" and ?vb = "\<lparr> vb_manifest = sample_manifest \<rparr>"
  have rep: "anti_replay held_executor held_request = (?ex, Inr ())"
    by (simp add: anti_replay_def admit_def held_executor_def sample_executor_def executor_new_def replay_new_def held_request_def sample_request_def)
  have r: "resolve_bundle ?E ?ex sample_request = Inr ?vb"
    by (rule sample_resolve) (simp_all add: sample_payload_bound held_executor_def, simp add: sample_executor_def executor_new_def)
  have a: "check_args_and_mutation ?E ?ex sample_request ?vb = Inr ()"
    using sample_args [of sample_manifest] by (simp add: check_args_and_mutation_def sample_env_def) (simp add: sample_manifest_def)
  have p: "handler_policy_gate held_wire_env ?ex held_request ?vb = Inr ()"
    unfolding policy_gate_ok using sample_command_free
    by (simp add: policy_request_def request_denied_def sample_manifest_def held_wire_env_def sample_wire_env_def sample_env_def engine_lists_def
        held_executor_def held_policy_def held_request_def sample_request_def allowlist_is_allowed_iff profile_def)
  have "x_rate ?ex = limiter_new rate_limits_default" by (simp add: held_executor_def sample_executor_def executor_new_def)
  then have q: "snd (rate_gate ?ex 0 sample_request ?vb) = Inr ()" using sample_rate by (simp add: rate_gate_ok)
  have s: "snapshot_gate e w sample_request ?vb = (w, Inr None)" for e w by (simp add: snapshot_gate_def sample_manifest_def)
  obtain pl where pl: "sandbox_gate ?E sample_request ?vb = Inr pl" "\<And>w. snd (cgroup_gate ?E w sample_request pl) = Inr None"
    by (rule sample_sandboxed) blast
  show ?thesis
    using r a p q s pl
    by (simp add: handle_def dispatch_def held_authenticated rep held_gates split_beta Let_def execute_completed)
qed

text \<open>The approved digest covers the payload that the operator was shown, and a request carries its risk.  The executor
  compares neither with the bundle: it reads the file anew.  A bundle that was signed again in the meantime, as critical,
  runs on a request that was approved as one of low risk.\<close>

lemma bundle_read_anew:
  defines "mf \<equiv> sample_manifest\<lparr> meta := (meta sample_manifest)\<lparr> m_risk := Critical \<rparr> \<rparr>"
  shows "authenticate (sample_env mf) sample_executor [] = Inr sample_request" "rq_declared_risk sample_request = Low"
    "\<not> is_rejected (snd (handle (sample_env mf) 0 sample_executor sample_world []))"
proof -
  let ?E = "sample_env mf" and ?vb = "\<lparr> vb_manifest = mf \<rparr>"
  let ?ex = "sample_executor\<lparr> x_replay := replay_commit replay_new (SessionId (replicate 16 1)) 1 (replicate 16 3) \<rparr>"
  have mf: "payload mf = payload sample_manifest" "sandbox mf = sandbox sample_manifest" "args mf = args sample_manifest"
    by (simp_all add: mf_def)
  have r: "resolve_bundle ?E ?ex sample_request = Inr ?vb"
    by (rule sample_resolve) (simp_all add: sample_payload_bound mf, simp add: sample_executor_def executor_new_def)
  have a: "check_args_and_mutation ?E ?ex sample_request ?vb = Inr ()"
    using sample_args [OF mf(3)] by (simp add: check_args_and_mutation_def sample_env_def) (simp add: mf_def sample_manifest_def)
  have p: "handler_policy_gate ?E ?ex sample_request ?vb = Inr ()" by (rule sample_policy) (simp_all add: mf)
  have "x_rate ?ex = limiter_new rate_limits_default" by (simp add: sample_executor_def executor_new_def)
  then have q: "snd (rate_gate ?ex 0 sample_request ?vb) = Inr ()" using sample_rate by (simp add: rate_gate_ok)
  have s: "snapshot_gate e w sample_request ?vb = (w, Inr None)" for e w by (simp add: snapshot_gate_def mf_def sample_manifest_def)
  have "sandbox_gate ?E sample_request ?vb = sandbox_gate (sample_env sample_manifest) sample_request \<lparr> vb_manifest = sample_manifest \<rparr>"
      "cgroup_gate ?E = cgroup_gate (sample_env sample_manifest)"
    by (simp_all add: fun_eq_iff sandbox_gate_def cgroup_gate_def sample_env_def mf sandbox_policy_def)
  then obtain pl where pl: "sandbox_gate ?E sample_request ?vb = Inr pl" "\<And>w. snd (cgroup_gate ?E w sample_request pl) = Inr None"
    by (metis sample_sandboxed)
  show "\<not> is_rejected (snd (handle (sample_env mf) 0 sample_executor sample_world []))"
    using r a p q s pl
    by (simp add: handle_def dispatch_def sample_authenticate sample_replay split_beta Let_def execute_completed)
qed (simp_all add: sample_authenticate, simp add: sample_request_def)

text \<open>C1: end to end, nothing runs that was not authorised.  A daemon whose orchestrator was started, and an
  executor that knows the session's public key and has an empty replay guard, run side by side.
  In any order, operators or others may connect to the daemon, the monitor may hand it alerts, and anyone may
  hand the executor any bytes, so long as bodies that verify under the session key are ones the daemon has sent.
  Then the runs that the executor adds to the machine's log are, in order, those of pairwise different requests of
  this session, in its mode and none declared critical: each executed, on the request's own arguments,
  the script of a bundle of that name that a trusted operator signed, past the denylist, the allowlist and the
  executor's own ceiling.  Their announcements are entries of the audit log, counted with multiplicity.  In
  interactive mode, moreover, each of them has a command of its own among those that carried the operator's
  signature, and that command approves the digest of this very tool and these very arguments.\<close>

theorem system_runs_authorised:
  fixes Peer :: "('a, 'b, 'c, 'd, 'e, 'h, 'i) Conn option \<Rightarrow> bool"
  assumes codecs: "codec_ok (oe_request_codec E0)" "codec_ok (oe_envelope_codec E0)"
    and start: "orch_start E0 (orchestrator_new r1 r2 policy trust dir audit session model n tools) = (dr_orch dr, Inr ())"
    and key: "vk = session_verifying_key (oe_crypto E0) (o_session (dr_orch dr))" "x_session_key ex = vk" "x_replay ex = replay_new"
    and peers: "\<And>conn. Peer conn \<Longrightarrow> trusts vk source [conn]"
    and runs: "(system_step K (dr_operator_uid dr) (dr_operator_pub dr) L E0 vk Peer rc peer_uid source)\<^sup>*\<^sup>* (system_init dr (ex, w)) s"
  shows "\<exists>requests effects. distinct requests
    \<and> filter is_run (w_log (snd (sy_executor s))) = filter is_run (w_log w) @ effects \<and> list_all2 (performed Peer ex) requests effects
    \<and> (\<forall>request \<in> set requests. rq_session_id request = ses_id session \<and> rq_mode request = ses_mode session
        \<and> rq_declared_risk request \<noteq> Critical)
    \<and> image_mset (requested_event E0) (mset requests) \<subseteq># mset (logged_events (o_trace (ds_orch (sy_daemon s))))
    \<and> (ses_mode session = Interactive \<longrightarrow>
        (\<exists>cbs. mset cbs \<subseteq># mset (sy_commands s) \<and> list_all2 (approves_request E0) cbs requests))"
proof -
  let ?o = "ds_orch (sy_daemon s)"
  from system_invariant [OF codecs started_inv [OF codecs start] start_fresh(2) [OF start] _ peers runs] key(2)
  obtain requests and as :: "('a, 'b, 'c, 'd, 'e, 'h, 'i) Conn option list" where inv: "orch_inv E0 ?o"
    and reach: "orch_reaches (same_libs E0) (dr_orch dr) ?o"
    and ran: "ran_sent E0 Peer (ex, w) s requests" and loop: "sy_ran s = map snd (loop_runs rc peer_uid source as (ex, w))"
    and rel: "ses_mode (o_session (dr_orch dr)) = Interactive \<longrightarrow> released_by E0 ?o (sy_commands s)" by auto
  have "distinct (sy_ran s)" unfolding loop by (rule loop_runs_distinct) (simp add: key(3))
  then have dist: "distinct requests" using ran by (simp add: ran_sent_def distinct_map)
  from carried_requests [OF codecs inv dist] ran obtain fs where
      1: "list_all2 (signed_by E0 (o_session ?o)) requests fs" "distinct fs" "set fs \<subseteq> set (sent_frames (o_trace ?o))"
        "\<And>request. request \<in> set requests \<Longrightarrow> rq_declared_risk request \<noteq> Critical"
        "image_mset (requested_event E0) (mset requests) \<subseteq># mset (logged_events (o_trace ?o))" unfolding ran_sent_def by metis
  have ses: "o_session (dr_orch dr) = session" by (rule start_fresh(3) [OF start])
  have "rq_session_id request = ses_id session \<and> rq_mode request = ses_mode session" if "request \<in> set requests" for request
    using signed_list [OF 1(1) that] reaches_same_identity [OF reach] unfolding ses signed_by_def by auto
  moreover have "\<exists>cbs. mset cbs \<subseteq># mset (sy_commands s) \<and> list_all2 (approves_request E0) cbs requests" if "ses_mode session = Interactive"
    using released_requests [OF codecs _ 1(1-3)] rel that unfolding ses by blast
  moreover obtain effects where "filter is_run (w_log (snd (sy_executor s))) = filter is_run (w_log w) @ effects"
      "list_all2 (performed Peer ex) requests effects" using ran by (auto simp: ran_sent_def)
  ultimately show ?thesis using dist 1(4,5) by blast
qed

text \<open>The three steps of the sample: the task is proposed and held, the operator approves it, the executor runs it.\<close>

lemma held_control:
  assumes "fst (serve_request held_env (ds_orch (sy_daemon s)) (cb_request (held_command [b]))) = o2"
  shows "system_step held_codecs (dr_operator_uid held_run) (dr_operator_pub held_run) L held_env vk Peer rc peer_uid source s
    (s\<lparr> sy_daemon := (sy_daemon s)\<lparr> ds_orch := o2 \<rparr>, sy_commands := sy_commands s @ [held_command [b]] \<rparr>)"
proof -
  let ?pub = "verifying_key sample_crypto sample_key"
  obtain o3 out where srv: "serve_ctl_accepted held_codecs 1000 ?pub (Some (held_ctl b)) (ds_orch (sy_daemon s)) = (o3, out)" by (metis surj_pair)
  have "o3 = o2" using serve_ctl_accepted_served [OF srv] held_served [of b] assms by (simp add: held_ctl_def)
  with srv system_step.control [of "Some (held_ctl b)" held_env held_codecs 1000 ?pub s o2 out L vk Peer rc peer_uid source] show ?thesis
    by (simp add: held_run_def held_served log_command_def same_libs_def) (simp add: held_ctl_def)
qed

lemma held_executes:
  assumes "be32 1 @ [2] \<in> set (sent_frames (o_trace (ds_orch (sy_daemon s))))" and "sy_executor s = (held_executor, sample_world)"
  shows "\<exists>x2 ran. system_step K uid pub L held_env (x_session_key held_executor) (\<lambda>c. c = Some held_conn) rc 7 (Static (x_session_key held_executor)) s
    (s\<lparr> sy_executor := x2, sy_ran := ran \<rparr>) \<and> length (filter is_run (w_log (snd x2))) = 1"
proof -
  let ?vk = "x_session_key held_executor"
  have body: "read_body frame_len (be32 1 @ [2]) = Inr [2]"
    by (simp add: read_body_def read_exact_def frame_len_def of_be32_be32 MAX_FRAME_LEN_def Let_def)
  have un: "unforged held_env ?vk (sent_frames (o_trace (ds_orch (sy_daemon s)))) [Some held_conn]"
    using assms(1) body
    by (force simp: unforged_def held_conn_def held_wire_env_def sample_wire_env_def sample_env_def simp del: One_nat_def)
  obtain ex' w' resp where h: "handle held_wire_env 0 held_executor sample_world [2] = ((ex', w'), resp)" by (metis surj_pair)
  obtain out where srv: "serve_accepted rc 7 (Static ?vk) (Some held_conn) (held_executor, sample_world) = ((ex', w'), out)"
    using h body by (simp add: serve_accepted_def held_conn_def serve_one_def split_beta Let_def)
  have "\<not> is_rejected resp" using h held_completes by simp
  with h obtain e where "filter is_run (w_log w') = filter is_run (w_log sample_world) @ [e]" by (rule ran_cleared)
  then have "length (filter is_run (w_log (snd (ex', w')))) = 1" by (simp add: sample_world_def)
  moreover have "system_step K uid pub L held_env ?vk (\<lambda>c. c = Some held_conn) rc 7 (Static ?vk) s (s\<lparr> sy_executor := (ex', w'),
      sy_ran := sy_ran s @ map snd (run_of (Static ?vk) (Some held_conn) (sy_executor s) (ex', w')) \<rparr>)"
    by (rule system_step.executes [OF refl un]) (use srv assms(2) in simp)
  ultimately show ?thesis by blast
qed

theorem system_runs_authorised_witness:
  "\<exists>s requests effects cbs.
    (system_step held_codecs (dr_operator_uid held_run) (dr_operator_pub held_run) demo_triggers held_env (x_session_key held_executor)
      (\<lambda>c. c = Some held_conn) (const_codec (rejected unknown_action ExecFailure ResponseEncodingFailed)) 7
      (Static (x_session_key held_executor)))\<^sup>*\<^sup>* (system_init held_run (held_executor, sample_world)) s
    \<and> filter is_run (w_log (snd (sy_executor s))) = effects \<and> length effects = 1
    \<and> list_all2 (performed (\<lambda>c. c = Some held_conn) held_executor) requests effects
    \<and> mset cbs \<subseteq># mset (sy_commands s) \<and> list_all2 (approves_request held_env) cbs requests"
proof -
  let ?vk = "x_session_key held_executor" and ?P = "\<lambda>c. c = Some held_conn"
  let ?rc = "const_codec (rejected unknown_action ExecFailure ResponseEncodingFailed) :: exec_response Codec"
  let ?step = "system_step held_codecs (dr_operator_uid held_run) (dr_operator_pub held_run) demo_triggers held_env ?vk ?P ?rc 7 (Static ?vk)"
  let ?s0 = "system_init held_run (held_executor, sample_world)"
  obtain o2 q where task: "run_task held_env (dr_orch held_run) ''status?'' [] = (o2, q)"
      "o_pending o2 = [(random_id (replicate 16 4), held_pending)]" "sent_frames (o_trace o2) = []" using held_task by blast
  define o3 where "o3 = fst (approve held_env o2 (random_id (replicate 16 4)) (pd_digest held_pending))"
  define s1 where "s1 = ?s0\<lparr> sy_daemon := (sy_daemon ?s0)\<lparr> ds_orch := o2 \<rparr>, sy_commands := sy_commands ?s0 @ [held_command [1]] \<rparr>"
  define s2 where "s2 = s1\<lparr> sy_daemon := (sy_daemon s1)\<lparr> ds_orch := o3 \<rparr>, sy_commands := sy_commands s1 @ [held_command [2]] \<rparr>"
  have 1: "?step ?s0 s1" unfolding s1_def
    by (rule held_control) (simp add: held_command_def serve_request_def service_run_task_def task(1) system_init_def daemon_init_def)
  have 2: "?step s1 s2" unfolding s2_def
    by (rule held_control)
      (simp add: held_command_def serve_request_def service_approve_def s1_def o3_def held_pending_def split_beta)
  have "be32 1 @ [2] \<in> set (sent_frames (o_trace (ds_orch (sy_daemon s2))))" "sy_executor s2 = (held_executor, sample_world)"
    using held_approve [OF task(2,3)] by (simp_all add: s2_def s1_def o3_def system_init_def)
  from held_executes [OF this] obtain x2 ran where 3: "?step s2 (s2\<lparr> sy_executor := x2, sy_ran := ran \<rparr>)"
      "length (filter is_run (w_log (snd x2))) = 1"
    by blast
  define s3 where "s3 = s2\<lparr> sy_executor := x2, sy_ran := ran \<rparr>"
  have reach: "?step\<^sup>*\<^sup>* ?s0 s3" using 1 2 3(1) unfolding s3_def by (meson converse_rtranclp_into_rtranclp r_into_rtranclp)
  have ok: "codec_ok (oe_request_codec held_env)" "codec_ok (oe_envelope_codec held_env)" by (simp_all add: point_codec_ok)
  have ex: "x_replay held_executor = replay_new"
      "x_session_key held_executor = session_verifying_key (oe_crypto held_env) (o_session (dr_orch held_run))"
    by (simp_all add: held_executor_def sample_executor_def executor_new_def held_fresh session_verifying_key_def sample_session_def session_new_def)
  have mode: "ses_mode (sample_session Interactive) = Interactive" by (simp add: sample_session_def session_new_def)
  obtain requests effects cbs where "filter is_run (w_log (snd (sy_executor s3))) = filter is_run (w_log sample_world) @ effects"
      "list_all2 (performed ?P held_executor) requests effects" "mset cbs \<subseteq># mset (sy_commands s3)"
      "list_all2 (approves_request held_env) cbs requests"
    using system_runs_authorised [OF ok held_start [unfolded held_orch_def] ex(2) refl ex(1) _ reach] mode by (auto simp: trusts_def)
  moreover have "filter is_run (w_log sample_world) = []" by (simp add: sample_world_def)
  moreover have "length (filter is_run (w_log (snd (sy_executor s3)))) = 1" using 3(2) by (simp add: s3_def)
  ultimately show ?thesis using reach by (metis append_Nil)
qed

section \<open>What is approved, runs\<close>

lemma timely_approval_sends:
  assumes "approve E o' approval_id (pd_digest p) = (o2, r)" and "\<And>e. r \<noteq> Inl (OAudit e)"
    and "distinct (map fst (o_pending o'))" and "(approval_id, p) \<in> set (o_pending o')" and "\<not> pd_two_person p"
    and "saturating_sub (oe_prune_ms E) APPROVAL_TTL_MS \<le> pd_created_ms p"
  shows "sent_frames (o_trace o2) = sent_frames (o_trace o') @ [pd_frame p]"
proof -
  have "map_of (o_pending (prune_pending (oe_prune_ms E) o')) approval_id = Some p"
    using assms(3,4,6) by (auto simp: prune_pending_def Let_def distinct_map_filter)
  then obtain o3 where o3: "o_trace o3 = o_trace o'" and k: "audited E o3 (ApprovalGranted (ses_id (o_session o')) (pd_action_id p) ''operator'') (\<lambda>o4.
      orch_dispatch E o4 (ses_id (o_session o')) (pd_action_id p) (pd_exec p) (pd_args_sha256 p) (pd_frame p)) = (o2, r)"
    using assms(1,5) that [of "(prune_pending (oe_prune_ms E) o')\<lparr> o_pending := AList.delete approval_id (o_pending (prune_pending (oe_prune_ms E) o')) \<rparr>"]
    by (simp add: approve_def Let_def prune_pending_def)
  from k show ?thesis
  proof (cases rule: audited_cases)
    case (went_on o4)
    then show ?thesis using dispatch_effect [OF went_on(4)] assms(2) o3 by auto
  qed (use assms(2) in blast)
qed

text \<open>C2: what the operator approves in time, runs.  In any state that the daemon's calls can reach, let an action be
  pending that one operator may approve, not older than the time to live.  If the operator names its digest and
  the audit log accepts its entries, the stored frame goes out.  An executor that has the session's key and is handed that
  frame answers it with a rejection only if it cannot run it: the request is a replay, its bundle does not load or is not
  cleared by schema, policy and ceiling, the rate limiter is exhausted, or snapshot, sandbox or control group fail.
  Otherwise it runs the script of the bundle on the arguments that the approved digest covers.\<close>

theorem approved_action_runs:
  assumes libs: "crypto_ok (oe_crypto E0)" "codec_ok (oe_request_codec E0)" "codec_ok (oe_envelope_codec E0)"
      "e_crypto E = oe_crypto E0" "e_request_codec E = oe_request_codec E0" "e_envelope_codec E = oe_envelope_codec E0"
    and reach: "orch_reaches (same_libs E0) (orchestrator_new r1 r2 policy trust dir audit session model n tools) o'"
    and held: "(approval_id, p) \<in> set (o_pending o')" "\<not> pd_two_person p" "saturating_sub (oe_prune_ms E1) APPROVAL_TTL_MS \<le> pd_created_ms p"
    and ap: "approve E1 o' approval_id (pd_digest p) = (o2, r)" "\<And>e. r \<noteq> Inl (OAudit e)"
    and ex: "x_session_key ex = session_verifying_key (oe_crypto E0) (o_session o')"
      "handle E now ex w (drop 4 (pd_frame p)) = ((ex', w'), resp)"
  shows "\<exists>request payload_sha256. sent_frames (o_trace o2) = sent_frames (o_trace o') @ [pd_frame p]
    \<and> pd_digest p = action_digest E0 (rq_exec_name request) (rq_args request) payload_sha256
    \<and> (is_rejected resp \<longleftrightarrow> (\<forall>vb. \<not> runnable E now ex w request vb))
    \<and> (\<forall>vb. runnable E now ex w request vb \<longrightarrow>
        filter is_run (w_log w') = filter is_run (w_log w) @ [RanAction (p_inline (payload (vb_manifest vb))) (rq_args request)])"
proof -
  have inv: "orch_inv E0 o'" by (rule inv_reaches [OF libs(2,3) _ reach inv_new])
  then have "distinct (map fst (o_pending o'))" and ok: "pending_ok E0 (o_session o') p" using held(1) by (force simp: orch_inv_def)+
  from timely_approval_sends [OF ap this(1) held] have sent: "sent_frames (o_trace o2) = sent_frames (o_trace o') @ [pd_frame p]" .
  from ok obtain request sha where r: "signed_by E0 (o_session o') request (pd_frame p)"
      "pd_digest p = action_digest E0 (rq_exec_name request) (rq_args request) sha" unfolding pending_ok_def by blast
  have auth: "authenticate E ex (drop 4 (pd_frame p)) = Inr request" by (rule signed_authenticates [OF libs(1-3) r(1) libs(4-6) ex(1)])
  show ?thesis using sent r(2) runs_iff_runnable [OF auth ex(2)] runnable_runs [OF auth ex(2)] by blast
qed

theorem approved_action_runs_witness:
  "\<exists>o' o2 r ex' w' resp. orch_reaches (same_libs held_env) held_orch o'
    \<and> approve held_env o' (random_id (replicate 16 4)) (pd_digest held_pending) = (o2, r)
    \<and> handle held_wire_env 0 held_executor sample_world (drop 4 (pd_frame held_pending)) = ((ex', w'), resp)
    \<and> sent_frames (o_trace o2) = [pd_frame held_pending] \<and> (\<exists>e. filter is_run (w_log w') = [e])"
proof -
  obtain o1 q where task: "run_task held_env (dr_orch held_run) ''status?'' [] = (o1, q)"
      "o_pending o1 = [(random_id (replicate 16 4), held_pending)]" "sent_frames (o_trace o1) = []" using held_task by blast
  have "orch_step (same_libs held_env) held_orch (dr_orch held_run)" "orch_step (same_libs held_env) (dr_orch held_run) o1"
    using orch_step.starts [of "same_libs held_env" held_env, OF _ held_start] orch_step.runs [of "same_libs held_env" held_env, OF _ task(1)]
    by (simp_all add: same_libs_def)
  then have reach: "orch_reaches (same_libs held_env) held_orch o1" by (meson converse_rtranclp_into_rtranclp r_into_rtranclp)
  have frame: "pd_frame held_pending = be32 1 @ [2]" by (simp add: held_pending_def)
  obtain o2 r where ap: "approve held_env o1 (random_id (replicate 16 4)) (pd_digest held_pending) = (o2, r)" by (metis surj_pair)
  have r: "\<And>e. r \<noteq> Inl (OAudit e)" using held_approve(2) [OF task(2,3)] ap by simp
  have libs: "crypto_ok (oe_crypto held_env)" "codec_ok (oe_request_codec held_env)" "codec_ok (oe_envelope_codec held_env)"
      "e_crypto held_wire_env = oe_crypto held_env" "e_request_codec held_wire_env = oe_request_codec held_env"
      "e_envelope_codec held_wire_env = oe_envelope_codec held_env"
    using sample_crypto_ok by (simp_all add: point_codec_ok) (simp_all add: held_wire_env_def sample_wire_env_def sample_env_def)
  have "ses_signing_key (o_session o1) = ses_signing_key (sample_session Interactive)"
    using run_task_signing_key [OF task(1)] held_fresh(2) by simp
  then have key: "x_session_key held_executor = session_verifying_key (oe_crypto held_env) (o_session o1)"
    by (simp add: held_executor_def sample_executor_def executor_new_def session_verifying_key_def sample_session_def session_new_def)
  have held: "(random_id (replicate 16 4), held_pending) \<in> set (o_pending o1)" "\<not> pd_two_person held_pending"
      "saturating_sub (oe_prune_ms held_env) APPROVAL_TTL_MS \<le> pd_created_ms held_pending"
    by (simp_all add: task(2)) (simp_all add: held_pending_def held_fields saturating_sub_def APPROVAL_TTL_MS_def)
  obtain ex' w' resp where h: "handle held_wire_env 0 held_executor sample_world (drop 4 (pd_frame held_pending)) = ((ex', w'), resp)"
    by (metis surj_pair)
  then have "\<not> is_rejected resp" using held_completes by (simp add: frame)
  with approved_action_runs [OF libs reach [unfolded held_orch_def] held ap r key h]
  have "sent_frames (o_trace o2) = [pd_frame held_pending] \<and> (\<exists>e. filter is_run (w_log w') = filter is_run (w_log sample_world) @ [e])"
    using task(3) by auto
  then show ?thesis using reach ap h by (auto simp: sample_world_def)
qed

end
