(* ===== verification/In_Order.thy ===== *)
theory In_Order
  imports Agreement Daemon_Safety
begin

text \<open>
  Delivery in order: outside interactive mode the daemon sends its frames with increasing sequence numbers, and
  an executor that gets them in that order refuses none of them as forged or replayed.
\<close>

section \<open>Sequence numbers of sent frames\<close>

definition orderly :: "('g, 's, 'r, 'f) OrchEnv \<Rightarrow> Orchestrator \<Rightarrow> bool" where
  "orderly E o' \<longleftrightarrow>
    (\<exists>requests. list_all2 (signed_by E (o_session o')) requests (sent_frames (o_trace o')) \<and> sorted_wrt (<) (map rq_seq requests))"

definition only_two_person :: "Orchestrator \<Rightarrow> bool" where
  "only_two_person o' \<longleftrightarrow> (\<forall>p \<in> snd ` set (o_pending o'). pd_two_person p)"

lemma only_two_person_subseq: "only_two_person a \<Longrightarrow> subseq (o_pending b) (o_pending a) \<Longrightarrow> only_two_person b"
  unfolding only_two_person_def by (auto dest: list_emb_set)

lemma orderly_turned:
  assumes "orderly E a" and "turned a b" and "sent_frames (o_trace b) = sent_frames (o_trace a)"
  shows "orderly E b"
proof -
  from assms(1) obtain rs where "list_all2 (signed_by E (o_session a)) rs (sent_frames (o_trace a))" "sorted_wrt (<) (map rq_seq rs)"
    unfolding orderly_def by blast
  moreover have "signed_by E (o_session a) r f \<Longrightarrow> signed_by E (o_session b) r f" for r f
    using assms(2) turned_mono(1) unfolding turned_def by blast
  ultimately show ?thesis unfolding orderly_def assms(3) by (meson list_all2_mono)
qed

lemma orderly_sends:
  assumes "orderly E a" and ses: "o_session b = next_session (o_session a)" and fr: "sent_frames (o_trace b) = sent_frames (o_trace a) @ [f]"
    and req: "signed_by E (o_session b) r f" "rq_seq r = ses_seq (o_session b)" and sat: "ses_seq (o_session b) \<noteq> - 1"
  shows "orderly E b"
proof -
  from assms(1) obtain rs where rs: "list_all2 (signed_by E (o_session a)) rs (sent_frames (o_trace a))" "sorted_wrt (<) (map rq_seq rs)"
    unfolding orderly_def by blast
  have "signed_by E (o_session a) q g \<Longrightarrow> signed_by E (o_session b) q g" for q g using turned_mono(1) [of b a] ses by blast
  then have "list_all2 (signed_by E (o_session b)) (rs @ [r]) (sent_frames (o_trace b))"
    using rs(1) req(1) unfolding fr by (intro list_all2_appendI) (auto elim: list_all2_mono)
  moreover have "rq_seq q < rq_seq r" if "q \<in> set rs" for q
    using signed_list [OF rs(1) that] next_seq(2) [of "ses_seq (o_session a)"] sat req(2) unfolding signed_by_def ses by auto
  then have "sorted_wrt (<) (map rq_seq (rs @ [r]))" using rs(2) by (auto simp: sorted_wrt_append)
  ultimately show ?thesis unfolding orderly_def by blast
qed

text \<open>Outside interactive mode only critical actions wait, and those are never sent.\<close>

lemma stored_two_person:
  assumes "ses_mode (o_session o') \<noteq> Interactive" and "stores E exec args' vb (decided E o' exec vb) frame o1 o2"
  shows "m_risk (meta (vb_manifest vb)) = Critical"
proof (rule ccontr)
  assume "m_risk (meta (vb_manifest vb)) \<noteq> Critical"
  with assms(2) obtain why where "decided E o' exec vb = RequireApproval why False" by (auto simp: stores_def)
  then have "\<exists>why. decided E o' exec vb = RequireApproval why False" ..
  then show False
    using assms(1) unfolding decided_def evaluate_policy_def Let_def engine.single_approval_suffices_iff by simp
qed

lemma step_orderly:
  assumes step: "orch_step (same_libs E0) a b" and mode: "ses_mode (o_session a) \<noteq> Interactive" and two: "only_two_person a"
    and ord: "ses_seq (o_session a) \<noteq> - 1 \<Longrightarrow> orderly E0 a"
  shows "only_two_person b \<and> (ses_seq (o_session b) \<noteq> - 1 \<longrightarrow> orderly E0 b)"
proof -
  have quiet: ?thesis if "turned a b" "subseq (o_pending b) (o_pending a)" "sent_frames (o_trace b) = sent_frames (o_trace a)"
    using only_two_person_subseq [OF two that(2)] orderly_turned [OF ord that(1,3)] that(1) turned_mono(4) unfolding turned_def by blast
  from step show ?thesis
  proof cases
    case (starts E r)
    then show ?thesis using logs_only_grew [OF start_effect [OF starts(2)]] by (intro quiet) (auto simp: grew_def)
  next
    case (runs E task untrusted q)
    from runs(2) show ?thesis
    proof (cases rule: run_task_effect)
      case quiet': quiet
      then show ?thesis by (intro quiet) (auto simp: grew_def)
    next
      case (stored exec args' vb frame o1)
      have "m_risk (meta (vb_manifest vb)) = Critical" using stored_two_person [OF mode stored(5)] .
      then obtain k p where "o_pending b = AList.update k p (o_pending o1)" "pd_two_person p" using stored(5) by (auto simp: stores_def)
      then have "only_two_person b"
        using only_two_person_subseq [OF two stored(3)] update_entries(3) [of k p "o_pending o1"] unfolding only_two_person_def by fastforce
      moreover have "turned a b" "sent_frames (o_trace b) = sent_frames (o_trace a)" using stored(1) by (auto simp: grew_def)
      ultimately show ?thesis using orderly_turned [OF ord] turned_mono(4) unfolding turned_def by blast
    next
      case (sent exec args' vb frame)
      let ?r = "next_request E a exec args' vb"
      have "signed_by E0 (o_session b) ?r frame" unfolding sent(1) by (rule env_seals_signed [OF runs(1) sent(6)])
      moreover have "rq_seq ?r = ses_seq (o_session b)" by (simp add: sent(1) next_request_def)
      moreover have "sent_frames (o_trace b) = sent_frames (o_trace a) @ [frame]" using sent(7) by (auto simp: grew_sending_def)
      ultimately have "orderly E0 b" if "ses_seq (o_session b) \<noteq> - 1"
        using orderly_sends [OF ord sent(1)] that turned_mono(4) [of b a] sent(1) by blast
      moreover have "only_two_person b" using two sent(2) by (simp add: only_two_person_def)
      ultimately show ?thesis by blast
    qed
  next
    case (approves E approval_id digest q)
    from approves(2) show ?thesis
    proof (cases rule: approve_cases)
      case quiet': quiet
      then show ?thesis by (intro quiet) (auto simp: grew_def)
    next
      case (approved p)
      then show ?thesis using two by (force simp: only_two_person_def)
    qed
  next
    case (rejects approval_id t)
    then show ?thesis using reject_effect [where E = E0, of a approval_id b t] by (intro quiet) (auto simp: grew_def)
  qed
qed

section \<open>The executor's side\<close>

lemma commit_simps:
  "last_seq (replay_commit g s q n) = (last_seq g)(s \<mapsto> q)" "seen_nonces (replay_commit g s q n) \<subseteq> insert n (seen_nonces g)"
  by (auto simp: replay_commit_def Let_def split: list.splits)

lemma increasing_admitted:
  assumes "\<And>m. m \<in> set ms \<Longrightarrow> fst m = c" and "sorted_wrt (<) (map (fst \<circ> snd) ms)" and "distinct (map (snd \<circ> snd) ms)"
    and "\<And>m l. m \<in> set ms \<Longrightarrow> last_seq g c = Some l \<Longrightarrow> l < fst (snd m)" and "seen_nonces g \<inter> snd ` snd ` set ms = {}"
  shows "admitted exec_step g ms = ms"
  using assms
proof (induction ms arbitrary: g)
  case (Cons m ms)
  obtain q n where m: "m = (c, q, n)" using Cons.prems(1) [of m] by (cases m) auto
  have "admit g c q n = (replay_commit g c q n, Inr ())"
    using Cons.prems(4) [of m] Cons.prems(5) by (auto simp: admit_def m split: option.splits)
  then have step: "exec_step g m = (replay_commit g c q n, True)" by (simp add: exec_step_def m)
  have "admitted exec_step (replay_commit g c q n) ms = ms"
  proof (rule Cons.IH)
    show "l < fst (snd m')" if "m' \<in> set ms" "last_seq (replay_commit g c q n) c = Some l" for m' l
      using that Cons.prems(2) by (auto simp: commit_simps m)
    show "seen_nonces (replay_commit g c q n) \<inter> snd ` snd ` set ms = {}"
    proof -
      define S where "S = snd ` snd ` set ms"
      have "n \<notin> S" "seen_nonces g \<inter> S = {}" using Cons.prems(3,5) by (auto simp: S_def m image_comp)
      then show ?thesis using commit_simps(2) [of g c q n] unfolding S_def [symmetric] by blast
    qed
  qed (use Cons.prems in auto)
  then show ?case by (simp add: step)
qed simp

text \<open>The stages of refusal: only the replay gate answers \<open>Replay\<close>, only authentication answers \<open>SignatureInvalid\<close>.\<close>

definition refused_at :: "RejectStage \<Rightarrow> exec_response \<Rightarrow> bool" where
  "refused_at st r \<longleftrightarrow> (\<exists>why. rs_outcome r = Rejected st why)"

lemma later_gates:
  assumes "st \<in> {StageSignatureInvalid, Replay}"
  shows "resolve_bundle E ex request = Inl r \<Longrightarrow> \<not> refused_at st r"
    "check_args_and_mutation E ex request vb = Inl r \<Longrightarrow> \<not> refused_at st r"
    "handler_policy_gate E ex request vb = Inl r \<Longrightarrow> \<not> refused_at st r"
    "snd (rate_gate ex now request vb) = Inl r \<Longrightarrow> \<not> refused_at st r"
    "snd (snapshot_gate ex w request vb) = Inl r \<Longrightarrow> \<not> refused_at st r"
    "sandbox_gate E request vb = Inl r \<Longrightarrow> \<not> refused_at st r"
    "snd (cgroup_gate E w request pl) = Inl r \<Longrightarrow> \<not> refused_at st r"
    "\<not> refused_at st (snd (execute E w limits request vb a snap pl cg))"
  apply (insert assms)
         apply (auto simp: refused_at_def rejected_def resolve_bundle_def Let_def res_eq split: if_splits) [1]
        apply (auto simp: refused_at_def rejected_def check_args_and_mutation_def res_eq split: if_splits) [1]
       apply (auto simp: refused_at_def rejected_def handler_policy_gate_def split: PolicyDecision.splits) [1]
      apply (auto simp: refused_at_def rejected_def rate_gate_def split_beta res_eq) [1]
     apply (auto simp: refused_at_def rejected_def snapshot_gate_def Let_def split: if_splits option.splits sum.splits) [1]
    apply (auto simp: refused_at_def rejected_def sandbox_gate_def res_eq) [1]
   apply (auto simp: refused_at_def rejected_def cgroup_gate_def split_beta Let_def res_eq) [1]
  apply (simp add: refused_at_def execute_def Let_def)
  done

lemma admitted_not_refused:
  assumes "authenticate E ex body = Inr request" and "snd (exec_step (x_replay ex) (replay_msg request))"
    and "st \<in> {StageSignatureInvalid, Replay}"
  shows "\<not> refused_at st (snd (handle E now ex w body))"
proof -
  have "snd (anti_replay ex request) = Inr ()"
    using assms(2) by (auto simp: anti_replay_ok exec_step_def replay_msg_def split_beta is_ok_iff)
  then show ?thesis
    using assms(1)
    by (auto simp: handle_def dispatch_def split_beta Let_def later_gates(8) [OF assms(3)] split: sum.splits dest: later_gates(1-7) [OF assms(3)])
qed

lemma handle_all_admitted:
  assumes "\<And>x. x \<in> set xs \<Longrightarrow> is_ok (authenticate E ex (snd x))"
    and "admitted exec_step (x_replay ex) (map (msg_of E ex \<circ> snd) xs) = map (msg_of E ex \<circ> snd) xs"
    and "(t, body, resp) \<in> set (handle_all E ex w xs)" and "st \<in> {StageSignatureInvalid, Replay}"
  shows "\<not> refused_at st resp"
  using assms(1-3)
proof (induction xs arbitrary: ex w)
  case (Cons x xs)
  obtain ex1 w1 r where h: "handle E (fst x) ex w (snd x) = ((ex1, w1), r)" by (metis surj_pair)
  obtain request where auth: "authenticate E ex (snd x) = Inr request" using Cons.prems(1) [of x] by (auto simp: is_ok_iff)
  let ?m = "msg_of E ex (snd x)"
  have m: "?m = replay_msg request" by (simp add: msg_of_def auth)
  have ok: "snd (exec_step (x_replay ex) ?m)"
  proof (rule ccontr)
    assume "\<not> ?thesis"
    moreover have "length (admitted exec_step g ms) \<le> length ms" for g ms by (induction ms arbitrary: g) (auto intro: le_SucI)
    from this [of "fst (exec_step (x_replay ex) ?m)" "map (msg_of E ex \<circ> snd) xs"]
    have "length (admitted exec_step (fst (exec_step (x_replay ex) ?m)) (map (msg_of E ex \<circ> snd) xs)) < Suc (length xs)" by simp
    ultimately show False using arg_cong [OF Cons.prems(2), of length] by (simp add: comp_def)
  qed
  have cfg: "same_config ex1 ex" using handle_config [of E "fst x" ex w "snd x"] h by simp
  have "x_replay ex1 = fst (exec_step (x_replay ex) ?m)" using handle_replay [of E "fst x" ex w "snd x"] h auth m by simp
  then have "admitted exec_step (x_replay ex1) (map (msg_of E ex1 \<circ> snd) xs) = map (msg_of E ex1 \<circ> snd) xs"
    using Cons.prems(2) ok by (simp add: msg_of_config [OF cfg] comp_def)
  note IH = Cons.IH [OF _ this]
  have "r = resp \<or> (t, body, resp) \<in> set (handle_all E ex1 w1 xs)" using Cons.prems(3) h by auto
  then show ?case
  proof
    assume "r = resp"
    then show ?thesis using admitted_not_refused [OF auth _ assms(4), of "fst x" w] ok m h by simp
  next
    assume "(t, body, resp) \<in> set (handle_all E ex1 w1 xs)"
    then show ?thesis using IH Cons.prems(1) by (simp add: authenticate_config [OF cfg])
  qed
qed simp

section \<open>Properties\<close>

lemma reaches_orderly:
  assumes "orch_reaches (same_libs E0) (orchestrator_new r1 r2 policy trust dir audit session model n tools) o'"
    and "ses_mode session \<noteq> Interactive"
  shows "ses_mode (o_session o') = ses_mode session \<and> only_two_person o' \<and> (ses_seq (o_session o') \<noteq> - 1 \<longrightarrow> orderly E0 o')"
  using assms(1)
proof (induction rule: rtranclp_induct)
  case base
  then show ?case by (simp add: orchestrator_new_def only_two_person_def orderly_def)
next
  case (step a b)
  have "ses_mode (o_session b) = ses_mode (o_session a)"
    using reaches_same_identity [OF r_into_rtranclp [of "orch_step (same_libs E0)", OF step(2)]] by simp
  then show ?case using step_orderly [OF step(2)] step(3) assms(2) by metis
qed

text \<open>C8: frames delivered in order are never refused as forged or replayed.  Outside interactive mode, in every state
  that the daemon's calls can reach before the sequence counter saturates, the sent frames carry requests of the session with increasing sequence numbers.
  If the nonces drawn for them differ, an executor with the session's key and an empty guard that handles
  these frames in the order they were sent, at whatever times, answers none of them with a signature or a replay rejection.\<close>

theorem delivered_in_order_accepted:
  assumes libs: "crypto_ok (oe_crypto E0)" "codec_ok (oe_request_codec E0)" "codec_ok (oe_envelope_codec E0)"
      "e_crypto E = oe_crypto E0" "e_request_codec E = oe_request_codec E0" "e_envelope_codec E = oe_envelope_codec E0"
    and reach: "orch_reaches (same_libs E0) (orchestrator_new r1 r2 policy trust dir audit session model n tools) o'"
    and mode: "ses_mode session \<noteq> Interactive" and sat: "ses_seq (o_session o') \<noteq> - 1"
    and nonces: "\<And>requests. list_all2 (signed_by E0 (o_session o')) requests (sent_frames (o_trace o')) \<Longrightarrow> distinct (map rq_nonce requests)"
    and ex: "x_session_key ex = session_verifying_key (oe_crypto E0) (o_session o')" "x_replay ex = replay_new"
    and order: "map snd xs = map (drop 4) (sent_frames (o_trace o'))"
  shows "\<exists>requests. list_all2 (signed_by E0 (o_session o')) requests (sent_frames (o_trace o')) \<and> sorted_wrt (<) (map rq_seq requests)
    \<and> map (\<lambda>(_, body, _). authenticate E ex body) (handle_all E ex w xs) = map Inr requests
    \<and> (\<forall>(t, body, resp) \<in> set (handle_all E ex w xs). \<not> refused_at StageSignatureInvalid resp \<and> \<not> refused_at Replay resp)"
proof -
  let ?frames = "sent_frames (o_trace o')"
  from reaches_orderly [OF reach mode] sat obtain rs where rs: "list_all2 (signed_by E0 (o_session o')) rs ?frames" "sorted_wrt (<) (map rq_seq rs)"
    unfolding orderly_def by blast
  have "map (authenticate E ex) (map (drop 4) ?frames) = map Inr rs"
    using rs(1) signed_authenticates [OF libs(1-3) _ libs(4-6) ex(1)] by (auto simp: list_all2_conv_all_nth intro!: nth_equalityI)
  then have auth: "map (authenticate E ex) (map snd xs) = map Inr rs" unfolding order .
  have handled: "map (\<lambda>(_, body, _). authenticate E ex body) (handle_all E ex' w' ys) = map (authenticate E ex) (map snd ys)" for ex' w' ys
    by (induction ys arbitrary: ex' w') (auto simp: split_beta Let_def)
  have ok: "is_ok (authenticate E ex (snd x))" if "x \<in> set xs" for x
  proof -
    have "authenticate E ex (snd x) \<in> set (map Inr rs)" unfolding auth [symmetric] using that by simp
    then show ?thesis by (auto simp: is_ok_iff)
  qed
  have msgs: "map (msg_of E ex \<circ> snd) xs = map replay_msg rs"
    using arg_cong [OF auth, of "map (\<lambda>a. case a of Inr r \<Rightarrow> replay_msg r | Inl _ \<Rightarrow> (SessionId [], 0, []))"] by (simp add: comp_def msg_of_def)
  have "admitted exec_step replay_new (map replay_msg rs) = map replay_msg rs"
  proof (rule increasing_admitted)
    show "fst m = ses_id (o_session o')" if "m \<in> set (map replay_msg rs)" for m
      using that signed_list [OF rs(1)] by (auto simp: replay_msg_def signed_by_def)
  qed (use rs(2) nonces [OF rs(1)] in \<open>simp_all add: comp_def replay_msg_def replay_new_def\<close>)
  then have adm: "admitted exec_step (x_replay ex) (map (msg_of E ex \<circ> snd) xs) = map (msg_of E ex \<circ> snd) xs" unfolding ex(2) msgs .
  have "\<not> refused_at st resp" if "(t, body, resp) \<in> set (handle_all E ex w xs)" "st \<in> {StageSignatureInvalid, Replay}" for t body resp st
    by (rule handle_all_admitted [OF ok adm that])
  then show ?thesis using rs auth handled [of ex w xs] by (intro exI [of _ rs]) auto
qed

theorem delivered_in_order_accepted_witness:
  "\<exists>o'. orch_reaches (same_libs sample_orch_env) (sample_orch ReadOnly) o' \<and> sent_frames (o_trace o') = [be32 1 @ [2]]
    \<and> (\<forall>(t, body, resp) \<in> set (handle_all sample_wire_env sample_executor sample_world [(0, [2])]).
        \<not> refused_at StageSignatureInvalid resp \<and> \<not> refused_at Replay resp)"
proof -
  obtain o2 where run: "run_task sample_orch_env (sample_orch ReadOnly) ''status?'' [] = (o2, Inl (OTransport ConnectExecSocket))"
      and fr: "sent_frames (o_trace o2) = [be32 1 @ [2]]" by (rule sample_run)
  have step: "orch_step (same_libs sample_orch_env) (sample_orch ReadOnly) o2"
    by (rule orch_step.runs [OF _ run]) (simp add: same_libs_def)
  note reach = r_into_rtranclp [of "orch_step (same_libs sample_orch_env)", OF step]
  have ses: "o_session o2 \<in> {sample_session ReadOnly, next_session (sample_session ReadOnly)}"
    using step_turned [OF step] by (simp add: turned_def sample_orch_def orchestrator_new_def)
  have key: "x_session_key sample_executor = session_verifying_key (oe_crypto sample_orch_env) (o_session o2)"
    using ses by (auto simp: session_verifying_key_def sample_executor_def executor_new_def sample_session_def session_new_def)
  have seq: "ses_seq (o_session o2) \<noteq> - 1" using ses by (auto simp: sample_session_def session_new_def saturating_add_def)
  have libs: "crypto_ok (oe_crypto sample_orch_env)" "codec_ok (oe_request_codec sample_orch_env)" "codec_ok (oe_envelope_codec sample_orch_env)"
      "e_crypto sample_wire_env = oe_crypto sample_orch_env" "e_request_codec sample_wire_env = oe_request_codec sample_orch_env"
      "e_envelope_codec sample_wire_env = oe_envelope_codec sample_orch_env"
    using sample_crypto_ok by (simp_all add: sample_wire_env_def) (simp_all add: sample_orch_env_def sample_env_def point_codec_ok)
  have mode: "ses_mode (sample_session ReadOnly) \<noteq> Interactive" by (simp add: sample_session_def session_new_def)
  have fresh: "x_replay sample_executor = replay_new" by (simp add: sample_executor_def executor_new_def)
  have order: "map snd [(0, [2])] = map (drop 4) (sent_frames (o_trace o2))" by (simp add: fr)
  have nonces: "distinct (map rq_nonce requests)" if "list_all2 (signed_by sample_orch_env (o_session o2)) requests (sent_frames (o_trace o2))"
    for requests using that by (auto simp: fr list_all2_Cons2)
  show ?thesis
    using delivered_in_order_accepted [OF libs reach [unfolded sample_orch_def] mode seq nonces key fresh order, of sample_world] reach fr by blast
qed

end
