(* ===== verification/Execd_Main.thy ===== *)
theory Execd_Main
  imports Daemon_Safety
begin

text \<open>
  \<open>main\<close> of \<open>archangel-execd/src/main.rs\<close>: settings, start-up, and the executor's socket; and what a daemon and
  an executor that were started from one configuration have in common.
\<close>

section \<open>Start-up with its socket\<close>

datatype ExecdMainError = StartFailed ExecdError | RemovingStaleSocket | BindExecSocket | ChmodExecSocket

record ExecdWorld =
  xw_files :: FileEnv
  xw_crypto :: Crypto
  xw_toml_config :: "string \<Rightarrow> (string, Config) result"
  xw_toml_allow :: "string \<Rightarrow> (string, Allowlist) result"
  xw_snapshotter :: "(string \<Rightarrow> (SnapshotError, SnapshotId) result) option"
  xw_remove_ok :: bool
  xw_bound :: "u32 option"
  xw_chmod_ok :: bool

text \<open>\<open>bound\<close> is the outcome of \<open>bind\<close>: the mode bits that the process mask leaves on the new socket.  Making the parent
  directory is best effort.\<close>

definition bind_exec :: "bool \<Rightarrow> u32 option \<Rightarrow> bool \<Rightarrow> string \<Rightarrow> (ExecdMainError, unit) io" where
  "bind_exec remove_ok bound chmod_ok socket d =
    (if fs_exists d socket \<and> \<not> remove_ok then (d, Inl RemovingStaleSocket)
     else
     let d1 = d(socket := None) in
     case bound of
       None \<Rightarrow> (d1, Inl BindExecSocket)
     | Some mode \<Rightarrow>
        if \<not> chmod_ok then (d1(socket \<mapsto> ([], mode)), Inl ChmodExecSocket)
        else (d1(socket \<mapsto> ([], 0x1B0)), Inr ()))"

record ExecdRun =
  xr_executor :: Executor
  xr_peer_uid :: u32
  xr_session :: SessionSource

definition execd_main :: "ExecdWorld \<Rightarrow> Args \<Rightarrow> (ExecdMainError, ExecdRun) io" where
  "execd_main X cli =
    (let C = xw_crypto X; F = xw_files X in
     bind_io (look_io (\<lambda>d. map_err StartFailed (resolve C (read_to_string (fs_read F d)) (xw_toml_config X) (fs_exists d) cli))) (\<lambda>s.
     bind_io (look_io (\<lambda>d. map_err StartFailed (execd_start C (fs_read F d) (xw_toml_allow X) (xw_snapshotter X) s))) (\<lambda>ex.
     bind_io (bind_exec (xw_remove_ok X) (xw_bound X) (xw_chmod_ok X) (st_socket s)) (\<lambda>_.
     lift_io (Inr \<lparr> xr_executor = ex, xr_peer_uid = st_peer_uid s, xr_session = st_session s \<rparr>)))))"

lemma execd_main_ok:
  assumes "execd_main X cli d = (d', Inr xr)"
  obtains s where "resolve (xw_crypto X) (read_to_string (fs_read (xw_files X) d)) (xw_toml_config X) (fs_exists d) cli = Inr s"
    "execd_start (xw_crypto X) (fs_read (xw_files X) d) (xw_toml_allow X) (xw_snapshotter X) s = Inr (xr_executor xr)"
    "xr_peer_uid xr = st_peer_uid s" "xr_session xr = st_session s" "d' = d(st_socket s \<mapsto> ([], 0x1B0))"
proof -
  from assms obtain s ex where "resolve (xw_crypto X) (read_to_string (fs_read (xw_files X) d)) (xw_toml_config X) (fs_exists d) cli = Inr s"
      "execd_start (xw_crypto X) (fs_read (xw_files X) d) (xw_toml_allow X) (xw_snapshotter X) s = Inr ex"
      "bind_exec (xw_remove_ok X) (xw_bound X) (xw_chmod_ok X) (st_socket s) d = (d', Inr ())"
      "xr = \<lparr> xr_executor = ex, xr_peer_uid = st_peer_uid s, xr_session = st_session s \<rparr>"
    unfolding execd_main_def Let_def io_Inr by (auto simp: map_err_eq_Inr)
  then show thesis
    by (intro that [of s]) (auto simp: bind_exec_def Let_def split: option.splits if_splits)
qed

text \<open>From a configuration file alone.\<close>

definition only_config :: "string \<Rightarrow> Args \<Rightarrow> bool" where
  "only_config config cli \<longleftrightarrow>
    a_config cli = Some config \<and> a_socket cli = None \<and> a_peer_uid cli = None \<and> a_session_pubkey_hex cli = None
    \<and> a_session_pub_file cli = None \<and> a_operators cli = None \<and> a_allowlist cli = None \<and> a_bundle_dir cli = None"

lemma resolve_only_config:
  assumes "only_config config cli" and "config_load read toml config = Inr cfg"
  shows "resolve C read toml exists cli = Inr \<lparr> st_socket = s_exec (cfg_sockets cfg), st_peer_uid = s_daemon_uid (cfg_sockets cfg),
    st_operators = d_trust_store (cfg_daemon cfg), st_allowlist = d_allowlist (cfg_daemon cfg), st_bundle_dir = d_bundle_dir (cfg_daemon cfg),
    st_session = KeyFile (d_session_pub (cfg_daemon cfg)), st_timeout = unat (a_timeout_secs cli) * 1000000000,
    st_mode_ceiling = mode_default (cfg_modes cfg), st_rate_limits = rate_limits_of (Some cfg) \<rparr>"
  using assms by (simp add: resolve_def only_config_def load_config_def need_def session_source_def)

section \<open>Two programs, one configuration\<close>

lemma daemon_main_loaded:
  assumes "daemon_main W config d = (d', Inr dr)" and "config_load (read_to_string (fs_read (dw_files W) d)) (dw_toml_config W) config = Inr cfg"
  obtains al where "trust_load (oe_crypto (dw_env W)) (read_to_string (fs_read (dw_files W) d)) (d_trust_store (cfg_daemon cfg)) = Inr (o_trust (dr_orch dr))"
    "allowlist_load (read_to_string (fs_read (dw_files W) d)) (dw_toml_allow W) (d_allowlist (cfg_daemon cfg)) = Inr al"
    "o_policy (dr_orch dr) = \<lparr> pe_allowlist = al \<rparr>" "o_bundle_dir (dr_orch dr) = d_bundle_dir (cfg_daemon cfg)"
    "o_session (dr_orch dr) = session_new (dw_session_rnd W) (dw_session_key W) (mode_default (cfg_modes cfg)) ''default''"
proof -
  note steps = assms(1) [unfolded daemon_main_def Let_def io_Inr]
  from steps assms(2) obtain backend trust al audit tools o1 d1 d2 where
      1: "trust_load (oe_crypto (dw_env W)) (read_to_string (fs_read (dw_files W) d)) (d_trust_store (cfg_daemon cfg)) = Inr trust"
        "allowlist_load (read_to_string (fs_read (dw_files W) d)) (dw_toml_allow W) (d_allowlist (cfg_daemon cfg)) = Inr al"
      and st: "start_orchestrator (dw_env W) (d_audit_log (cfg_daemon cfg)) (orchestrator_new (fst (dw_secret_rnd W)) (snd (dw_secret_rnd W))
        \<lparr> pe_allowlist = al \<rparr> trust (d_bundle_dir (cfg_daemon cfg)) audit
        (session_new (dw_session_rnd W) (dw_session_key W) (mode_default (cfg_modes cfg)) ''default'')
        (model_of backend (cfg_llm cfg)) (max_tokens (cfg_llm cfg)) tools) d1 = (d2, Inr (dr_orch dr))"
    by (clarsimp simp: map_err_eq_Inr)
  from st obtain r where "orch_start (dw_env W) (orchestrator_new (fst (dw_secret_rnd W)) (snd (dw_secret_rnd W))
        \<lparr> pe_allowlist = al \<rparr> trust (d_bundle_dir (cfg_daemon cfg)) audit
        (session_new (dw_session_rnd W) (dw_session_key W) (mode_default (cfg_modes cfg)) ''default'')
        (model_of backend (cfg_llm cfg)) (max_tokens (cfg_llm cfg)) tools) = (dr_orch dr, r)"
    by (auto simp: start_orchestrator_def split_beta map_ok_eq_Inr prod_eq_iff)
  from start_effect [OF this] show thesis
    using 1 by (intro that [of al]) (auto simp: logs_only_def same_setup_def orchestrator_new_def)
qed

text \<open>C24: a daemon and an executor that start from one configuration agree.  If the configuration, trust store and
  allowlist still read the same, and the published key file is as the daemon left it, then the executor that
  starts from that configuration verifies under the daemon's session key, trusts the same operators, applies the
  same allowlist to bundles of the same directory, and takes the daemon's mode as its ceiling; it accepts only the
  configured daemon's uid, starts with an empty replay guard and the configured rates, and its socket is closed to
  users outside its group.\<close>

theorem programs_start_in_agreement:
  assumes crypto: "crypto_ok (xw_crypto X)" and daemon: "daemon_main W config d = (d', Inr dr)"
    and cfg: "config_load (read_to_string (fs_read (dw_files W) d)) (dw_toml_config W) config = Inr cfg"
    and libs: "xw_crypto X = oe_crypto (dw_env W)" "xw_toml_config X = dw_toml_config W" "xw_toml_allow X = dw_toml_allow W"
    and same: "\<And>p. p \<in> {config, d_trust_store (cfg_daemon cfg), d_allowlist (cfg_daemon cfg)}
      \<Longrightarrow> fs_read (xw_files X) d2 p = fs_read (dw_files W) d p"
    and pub: "d2 (d_session_pub (cfg_daemon cfg)) = d' (d_session_pub (cfg_daemon cfg))"
      "d_session_pub (cfg_daemon cfg) \<noteq> s_control (cfg_sockets cfg)" "\<not> fe_read_fails (xw_files X) (d_session_pub (cfg_daemon cfg))"
    and executor: "only_config config cli" "execd_main X cli d2 = (d3, Inr xr)"
  shows "x_session_key (xr_executor xr) = session_verifying_key (xw_crypto X) (o_session (dr_orch dr))
    \<and> x_trust (xr_executor xr) = o_trust (dr_orch dr) \<and> x_policy (xr_executor xr) = o_policy (dr_orch dr)
    \<and> x_bundle_dir (xr_executor xr) = o_bundle_dir (dr_orch dr) \<and> x_mode_ceiling (xr_executor xr) = ses_mode (o_session (dr_orch dr))
    \<and> xr_peer_uid xr = s_daemon_uid (cfg_sockets cfg) \<and> xr_session xr = KeyFile (d_session_pub (cfg_daemon cfg))
    \<and> x_replay (xr_executor xr) = replay_new \<and> x_rate (xr_executor xr) = limiter_new (rate_limits_of (Some cfg))
    \<and> (\<exists>mode. d3 (s_exec (cfg_sockets cfg)) = Some ([], mode) \<and> mode AND 7 = 0)"
proof -
  have read: "read_to_string (fs_read (xw_files X) d2) p = read_to_string (fs_read (dw_files W) d) p"
    if "p \<in> {config, d_trust_store (cfg_daemon cfg), d_allowlist (cfg_daemon cfg)}" for p
    using same [OF that] by (simp add: read_to_string_def)
  have "config_load (read_to_string (fs_read (xw_files X) d2)) (xw_toml_config X) config = Inr cfg"
    using cfg read by (simp add: config_load_def libs)
  note res = resolve_only_config [OF executor(1) this]
  from daemon_main_loaded [OF daemon cfg] obtain al where
      t: "trust_load (oe_crypto (dw_env W)) (read_to_string (fs_read (dw_files W) d)) (d_trust_store (cfg_daemon cfg)) = Inr (o_trust (dr_orch dr))"
      and a: "allowlist_load (read_to_string (fs_read (dw_files W) d)) (dw_toml_allow W) (d_allowlist (cfg_daemon cfg)) = Inr al"
      and o1: "o_policy (dr_orch dr) = \<lparr> pe_allowlist = al \<rparr>" "o_bundle_dir (dr_orch dr) = d_bundle_dir (cfg_daemon cfg)"
        "o_session (dr_orch dr) = session_new (dw_session_rnd W) (dw_session_key W) (mode_default (cfg_modes cfg)) ''default''" by blast
  have key: "read_key_file (xw_crypto X) (fs_read (xw_files X) d2) (d_session_pub (cfg_daemon cfg))
      = Inr (verifying_key (xw_crypto X) (dw_session_key W))"
    unfolding libs(1) by (rule published_key [where ?d2.0 = d2 and d' = d', OF crypto [unfolded libs(1)] daemon cfg pub(2,3,1)])
  have load: "trust_load (xw_crypto X) (read_to_string (fs_read (xw_files X) d2)) (d_trust_store (cfg_daemon cfg)) = Inr (o_trust (dr_orch dr))"
      "allowlist_load (read_to_string (fs_read (xw_files X) d2)) (xw_toml_allow X) (d_allowlist (cfg_daemon cfg)) = Inr al"
    using t a read by (simp_all add: trust_load_def allowlist_load_def libs)
  from executor(2) show ?thesis
  proof (rule execd_main_ok)
    fix s assume s: "resolve (xw_crypto X) (read_to_string (fs_read (xw_files X) d2)) (xw_toml_config X) (fs_exists d2) cli = Inr s"
      and st: "execd_start (xw_crypto X) (fs_read (xw_files X) d2) (xw_toml_allow X) (xw_snapshotter X) s = Inr (xr_executor xr)"
      and xr: "xr_peer_uid xr = st_peer_uid s" "xr_session xr = st_session s" "d3 = d2(st_socket s \<mapsto> ([], 0x1B0))"
    from res s have s: "s = \<lparr> st_socket = s_exec (cfg_sockets cfg), st_peer_uid = s_daemon_uid (cfg_sockets cfg),
        st_operators = d_trust_store (cfg_daemon cfg), st_allowlist = d_allowlist (cfg_daemon cfg), st_bundle_dir = d_bundle_dir (cfg_daemon cfg),
        st_session = KeyFile (d_session_pub (cfg_daemon cfg)), st_timeout = unat (a_timeout_secs cli) * 1000000000,
        st_mode_ceiling = mode_default (cfg_modes cfg), st_rate_limits = rate_limits_of (Some cfg) \<rparr>" by simp
    then have "xr_executor xr = set_rate_limits (set_mode_ceiling (executor_new (verifying_key (xw_crypto X) (dw_session_key W))
        (o_trust (dr_orch dr)) \<lparr> pe_allowlist = al \<rparr> (d_bundle_dir (cfg_daemon cfg))
        \<lparr> el_timeout = unat (a_timeout_secs cli) * 1000000000, el_max_output = 1024 * 1024 \<rparr> (xw_snapshotter X))
        (mode_default (cfg_modes cfg))) (rate_limits_of (Some cfg))"
      using st by (simp add: execd_start_def load initial_key_def key Let_def)
    then show ?thesis
      using s xr o1 by (simp add: executor_new_def set_rate_limits_def set_mode_ceiling_def session_verifying_key_def session_new_def)
  qed
qed

definition demo_execd :: ExecdWorld where
  "demo_execd =
    \<lparr> xw_files = quiet_files, xw_crypto = sample_crypto, xw_toml_config = (\<lambda>_. Inr sample_config), xw_toml_allow = (\<lambda>_. Inr \<lparr> profiles = [] \<rparr>),
      xw_snapshotter = None, xw_remove_ok = True, xw_bound = Some 0, xw_chmod_ok = True \<rparr>"

definition demo_cli :: Args where
  "demo_cli =
    \<lparr> a_config = Some ''/cfg'', a_socket = None, a_peer_uid = None, a_session_pubkey_hex = None, a_session_pub_file = None,
      a_operators = None, a_allowlist = None, a_bundle_dir = None, a_timeout_secs = 30 \<rparr>"

lemma demo_execd_starts:
  assumes "\<And>p. p \<in> {''/cfg'', ''/t'', default_allowlist} \<Longrightarrow> fs_read quiet_files d p = fs_read quiet_files demo_disk p"
  shows "\<exists>d3 xr. execd_main demo_execd demo_cli d = (d3, Inr xr)"
proof -
  have read: "read_to_string (fs_read quiet_files d) p = read_to_string (fs_read quiet_files demo_disk) p"
    if "p \<in> {''/cfg'', ''/t'', default_allowlist}" for p using assms [OF that] by (simp add: read_to_string_def)
  have "config_load (read_to_string (fs_read quiet_files d)) (\<lambda>_. Inr sample_config) ''/cfg'' = Inr sample_config"
    using demo_config read by (simp add: config_load_def)
  note res = resolve_only_config [OF _ this, of demo_cli]
  have "trust_load sample_crypto (read_to_string (fs_read quiet_files d)) ''/t'' = Inr \<lparr> trust_keys = [] \<rparr>"
    using demo_trust read by (simp add: trust_load_def)
  moreover have "allowlist_load (read_to_string (fs_read quiet_files d)) (\<lambda>_. Inr \<lparr> profiles = [] \<rparr>) default_allowlist = Inr \<lparr> profiles = [] \<rparr>"
    using demo_reads(3) read by (simp add: allowlist_load_def allowlist_from_toml_def)
  moreover have "only_config ''/cfg'' demo_cli" by (simp add: only_config_def demo_cli_def)
  ultimately show ?thesis
    using res [of sample_crypto "fs_exists d"]
    by (simp add: execd_main_def demo_execd_def bind_io_def look_io_def lift_io_def execd_start_def bind_exec_def Let_def)
      (simp add: sample_config_def)
qed

theorem programs_start_in_agreement_witness:
  "\<exists>d' dr d3 xr. daemon_main demo_daemon ''/cfg'' demo_disk = (d', Inr dr)
    \<and> execd_main demo_execd demo_cli (demo_disk(default_session_pub := d' default_session_pub)) = (d3, Inr xr)
    \<and> x_session_key (xr_executor xr) = session_verifying_key sample_crypto (o_session (dr_orch dr))
    \<and> x_policy (xr_executor xr) = o_policy (dr_orch dr) \<and> x_replay (xr_executor xr) = replay_new"
proof -
  obtain d' and dr :: "string list DaemonRun" where start: "daemon_main demo_daemon ''/cfg'' demo_disk = (d', Inr dr)"
    using demo_daemon_starts by blast
  let ?d = "demo_disk(default_session_pub := d' default_session_pub)"
  have W: "oe_crypto (dw_env demo_daemon) = sample_crypto" "dw_files demo_daemon = quiet_files" "dw_toml_config demo_daemon = (\<lambda>_. Inr sample_config)"
      "dw_toml_allow demo_daemon = (\<lambda>_. Inr \<lparr> profiles = [] \<rparr>)" by (simp_all add: demo_daemon_def)
  have X: "xw_crypto demo_execd = sample_crypto" "xw_files demo_execd = quiet_files" "xw_toml_config demo_execd = (\<lambda>_. Inr sample_config)"
      "xw_toml_allow demo_execd = (\<lambda>_. Inr \<lparr> profiles = [] \<rparr>)" by (simp_all add: demo_execd_def)
  have P: "d_session_pub (cfg_daemon sample_config) = default_session_pub" "d_trust_store (cfg_daemon sample_config) = ''/t''"
      "d_allowlist (cfg_daemon sample_config) = default_allowlist" "default_session_pub \<noteq> s_control (cfg_sockets sample_config)"
    by (simp_all add: sample_config_def default_session_pub_def)
  have same: "fs_read quiet_files ?d p = fs_read quiet_files demo_disk p" if "p \<in> {''/cfg'', ''/t'', default_allowlist}" for p
    using that by (auto simp: fs_read_def default_session_pub_def default_allowlist_def)
  obtain d3 xr where ex: "execd_main demo_execd demo_cli ?d = (d3, Inr xr)" using demo_execd_starts [OF same] by blast
  have "x_session_key (xr_executor xr) = session_verifying_key sample_crypto (o_session (dr_orch dr))
      \<and> x_policy (xr_executor xr) = o_policy (dr_orch dr) \<and> x_replay (xr_executor xr) = replay_new"
    using programs_start_in_agreement [OF _ start _ _ _ _ _ _ _ _ _ ex, where cfg = sample_config] sample_crypto_ok demo_config same P
    by (simp add: W X only_config_def demo_cli_def quiet_files_def)
  then show ?thesis using start ex by blast
qed

end
