(* ===== verification/Operator_Tool.thy ===== *)
theory Operator_Tool
  imports Daemon_Safety
begin

text \<open>
  The operator's tool: key material (\<open>archangelctl/src/keys.rs\<close>), the set-up wizard
  (\<open>archangelctl/src/setup.rs\<close>) and the interactive session (\<open>run_repl\<close> in
  \<open>archangelctl/src/main.rs\<close>).  The report that the wizard prints is left out.
\<close>

section \<open>Keys\<close>

datatype ToolError =
    RefuseOverwrite string string
  | CreateSecret FileError
  | CreatePublic FileError
  | ReadSecret
  | SecretHex KeyHexMessage
  | SecretNot32
  | ReadManifest
  | WriteSignature FileError
  | Mkdir
  | ReadOperatorPubFile
  | UpdateOperators FileError
  | WriteNew string FileError
  | LoadTrust ExecFormatError
  | GeneratedConfigInvalid ConfigError
  | ConfigDoesNotValidate ConfigError

definition init_operator_key :: "Crypto \<Rightarrow> FileEnv \<Rightarrow> byte list \<Rightarrow> string \<Rightarrow> string \<Rightarrow> (ToolError, string) io" where
  "init_operator_key C F seed secret_path public_path d =
    (if fs_exists d secret_path \<or> fs_exists d public_path then (d, Inl (RefuseOverwrite secret_path public_path))
     else
     let signing = SigningKey (fill_bytes 32 seed);
         public_hex = keys_encode_hex (vk_bytes (verifying_key C signing));
         secret_hex = keys_encode_hex (sk_bytes signing) in
     bind_io (map_err_io CreateSecret (fs_create_new F secret_path 0x180 (as_bytes secret_hex @ [0x0A]))) (\<lambda>_.
     bind_io (map_err_io CreatePublic (fs_create_new F public_path 0x1A4 (as_bytes public_hex @ [0x0A]))) (\<lambda>_.
     lift_io (Inr public_hex))) d)"

definition load_operator_key :: "(string \<Rightarrow> byte list option) \<Rightarrow> string \<Rightarrow> (ToolError, SigningKey) result" where
  "load_operator_key read secret_path =
    bind_res (ok_or ReadSecret (read_to_string read secret_path)) (\<lambda>text'.
    bind_res (map_err SecretHex (keys_decode_hex text')) (\<lambda>bs.
    bind_res (ok_or SecretNot32 (to_array 32 bs)) (\<lambda>seed. Inr (SigningKey seed))))"

definition sign_bundle :: "Crypto \<Rightarrow> FileEnv \<Rightarrow> string \<Rightarrow> string \<Rightarrow> (ToolError, string) io" where
  "sign_bundle C F secret_path manifest_path =
    bind_io (look_io (\<lambda>d. load_operator_key (fs_read F d) secret_path)) (\<lambda>key.
    bind_io (look_io (\<lambda>d. ok_or ReadManifest (fs_read F d manifest_path))) (\<lambda>bs.
    let sig_path = manifest_path @ ''.sig'' in
    bind_io (map_err_io WriteSignature (fs_overwrite F sig_path 0x1B6 (as_bytes (keys_encode_hex (sig_bytes (sign C key bs)))))) (\<lambda>_.
    lift_io (Inr sig_path))))"

section \<open>Set-up\<close>

record SetupOptions =
  so_etc :: string
  so_backend :: string
  so_operator_uid :: u32
  so_daemon_uid :: u32
  so_ollama_url :: "string option"

definition parse_u32 :: "string \<Rightarrow> u32 option" where
  "parse_u32 s = map_option of_nat (parse_unsigned (2 ^ 32 - 1) s)"

fun uid_from_lines :: "string list \<Rightarrow> u32 option" where
  "uid_from_lines [] = None"
| "uid_from_lines (line # rest) =
    (case strip_prefix ''Uid:'' line of
       Some r \<Rightarrow> Option.bind (first (split_whitespace r)) parse_u32
     | None \<Rightarrow> uid_from_lines rest)"

definition uid_from_proc_status :: "string \<Rightarrow> u32 option" where
  "uid_from_proc_status status = uid_from_lines (str_lines status)"

definition uid_from_passwd :: "string \<Rightarrow> string \<Rightarrow> u32 option" where
  "uid_from_passwd passwd user =
    (case find (\<lambda>line. first (split_char CHR '':'' line) = Some user) (str_lines passwd) of
       None \<Rightarrow> None
     | Some line \<Rightarrow> Option.bind (get 2 (split_char CHR '':'' line)) parse_u32)"

definition detect_operator_uid :: "string option \<Rightarrow> string option \<Rightarrow> u32 option" where
  "detect_operator_uid sudo_uid proc_status =
    (case Option.bind sudo_uid (\<lambda>s. parse_u32 (trim s)) of
       Some n \<Rightarrow> Some n
     | None \<Rightarrow> Option.bind proc_status uid_from_proc_status)"

definition detect_daemon_uid :: "string option \<Rightarrow> u32 option" where
  "detect_daemon_uid passwd = Option.bind passwd (\<lambda>p. uid_from_passwd p ''archangel'')"

definition quoted :: "string \<Rightarrow> string" where
  "quoted s = [CHR 0x22] @ s @ [CHR 0x22]"

definition render_config :: "SetupOptions \<Rightarrow> string" where
  "render_config opts =
    (let e = so_etc opts;
         model_line = (if so_backend opts = ''anthropic'' then ''model = '' @ quoted ''claude-opus-4-7'' @ nl
           else ''# model = '' @ quoted ''...'' @ ''   # omit to use the per-backend default'' @ nl) in
     ''# Generated by `archangelctl setup`. Review before production use.'' @ nl
     @ ''[daemon]'' @ nl
     @ ''trust_store     = '' @ quoted (e @ ''/trust/operators.pubkeys'') @ nl
     @ ''audit_log       = '' @ quoted ''/var/log/archangel/audit.log.jsonl'' @ nl
     @ ''audit_key       = '' @ quoted (e @ ''/trust/audit.key'') @ nl
     @ ''operator_pubkey = '' @ quoted (e @ ''/trust/operator.pub'') @ nl
     @ ''allowlist       = '' @ quoted (e @ ''/policies/allowlist.toml'') @ nl
     @ ''bundle_dir      = '' @ quoted (e @ ''/exec'') @ nl
     @ ''session_pub     = '' @ quoted ''/run/archangel/session.pub'' @ nl
     @ nl
     @ ''[sockets]'' @ nl
     @ ''control      = '' @ quoted ''/run/archangel/ctl.sock'' @ nl
     @ ''control_mode = 0o660'' @ nl
     @ ''exec         = '' @ quoted ''/run/archangel/exec.sock'' @ nl
     @ ''operator_uid = '' @ show_nat (unat (so_operator_uid opts)) @ nl
     @ ''daemon_uid   = '' @ show_nat (unat (so_daemon_uid opts)) @ nl
     @ nl
     @ ''[modes]'' @ nl
     @ ''# v0.1 is the read-only milestone; the executor enforces this.'' @ nl
     @ ''default = '' @ quoted ''read_only'' @ nl
     @ ''autonomous_allowed = false'' @ nl
     @ nl
     @ ''[llm]'' @ nl
     @ ''default_backend = '' @ quoted (so_backend opts) @ nl
     @ model_line @ ''max_tokens = 1024'' @ nl)"

definition render_allowlist :: "string list \<Rightarrow> string" where
  "render_allowlist read_only_execs =
    ''# Generated by `archangelctl setup` from the verified read-only'' @ nl
    @ ''# bundles in the exec dir. Review and tighten as needed.'' @ nl
    @ ''[[profile]]'' @ nl
    @ ''name = '' @ quoted ''default'' @ nl
    @ ''mode = '' @ quoted ''read_only'' @ nl
    @ ''allowed_exec = ['' @ join_with '', '' (map quoted read_only_execs) @ '']'' @ nl"

definition operators_pubkeys_update :: "string option \<Rightarrow> string \<Rightarrow> string option" where
  "operators_pubkeys_update existing operator_pub_hex =
    (let key = trim operator_pub_hex in
     case existing of
       None \<Rightarrow> Some (key @ ''  operator'' @ nl)
     | Some content \<Rightarrow>
        if list_ex (\<lambda>l. first (split_whitespace l) = Some key) (str_lines content) then None
        else Some (trim_end content @ nl @ key @ ''  operator (added by setup)'' @ nl))"

definition write_new :: "FileEnv \<Rightarrow> string \<Rightarrow> string \<Rightarrow> u32 \<Rightarrow> (ToolError, unit) io" where
  "write_new F path content mode = map_err_io (WriteNew path) (fs_create_new F path mode (as_bytes content))"

text \<open>Which entries of the bundle directory are manifests.\<close>

definition manifest_stem :: "string \<Rightarrow> string option" where
  "manifest_stem name =
    (let (stem, ext) = split_at_dot name in
     if ext = Some ''exec'' \<and> utf8_valid (as_bytes stem) then Some stem else None)"

definition verified_read_only ::
  "Crypto \<Rightarrow> (string \<Rightarrow> (string, ExecManifest) result) \<Rightarrow> (string \<Rightarrow> byte list option) \<Rightarrow> string list option \<Rightarrow> string
    \<Rightarrow> OperatorTrust \<Rightarrow> string list"
where
  "verified_read_only C toml read names exec_dir trust =
    sort (List.map_filter (\<lambda>name.
      case manifest_stem name of
        None \<Rightarrow> None
      | Some stem \<Rightarrow>
         (case bundle_load C toml read (path_join exec_dir name) (path_join exec_dir (stem @ ''.exec.sig'')) trust of
            Inl _ \<Rightarrow> None
          | Inr b \<Rightarrow> if m_read_only (meta (vb_manifest b)) then Some (m_name (meta (vb_manifest b))) else None))
      (unwrap_or [] names))"

text \<open>Step 3: sign what has no signature yet.  The first failure ends the wizard.\<close>

primrec sign_unsigned :: "Crypto \<Rightarrow> FileEnv \<Rightarrow> string \<Rightarrow> string \<Rightarrow> string list \<Rightarrow> (ToolError, unit) io" where
  "sign_unsigned C F sk exec_dir [] = lift_io (Inr ())"
| "sign_unsigned C F sk exec_dir (name # names) =
    (\<lambda>d. let p = path_join exec_dir name in
         if snd (split_at_dot name) \<noteq> Some ''exec'' \<or> fs_exists d (p @ ''.sig'') then sign_unsigned C F sk exec_dir names d
         else bind_io (sign_bundle C F sk p) (\<lambda>_. sign_unsigned C F sk exec_dir names) d)"

record SetupWorld =
  sw_files :: FileEnv
  sw_crypto :: Crypto
  sw_seed :: "byte list"
  sw_toml_config :: "string \<Rightarrow> (string, Config) result"
  sw_toml_manifest :: "string \<Rightarrow> (string, ExecManifest) result"
  sw_mkdir_ok :: bool
  sw_names :: "string list option"

definition ensure_key :: "SetupWorld \<Rightarrow> string \<Rightarrow> string \<Rightarrow> (ToolError, unit) io" where
  "ensure_key S sk pk d =
    (if fs_exists d sk then (d, Inr ())
     else bind_io (init_operator_key (sw_crypto S) (sw_files S) (sw_seed S) sk pk) (\<lambda>_. lift_io (Inr ())) d)"

definition ensure_operators :: "SetupWorld \<Rightarrow> string \<Rightarrow> string \<Rightarrow> (ToolError, unit) io" where
  "ensure_operators S operators_path operator_pub_hex d =
    (case operators_pubkeys_update (read_to_string (fs_read (sw_files S) d) operators_path) operator_pub_hex of
       None \<Rightarrow> (d, Inr ())
     | Some content \<Rightarrow>
        if fs_exists d operators_path
        then map_err_io UpdateOperators (fs_overwrite (sw_files S) operators_path 0x1B6 (as_bytes content)) d
        else write_new (sw_files S) operators_path content 0x1A0 d)"

definition ensure_allowlist :: "SetupWorld \<Rightarrow> string \<Rightarrow> string \<Rightarrow> string \<Rightarrow> (ToolError, unit) io" where
  "ensure_allowlist S allowlist operators_path exec_dir d =
    (if fs_exists d allowlist then (d, Inr ())
     else
     bind_io (look_io (\<lambda>d. map_err LoadTrust (trust_load (sw_crypto S) (read_to_string (fs_read (sw_files S) d)) operators_path))) (\<lambda>trust.
     bind_io (look_io (\<lambda>d. Inr (verified_read_only (sw_crypto S) (sw_toml_manifest S) (fs_read (sw_files S) d) (sw_names S) exec_dir trust))) (\<lambda>names.
     write_new (sw_files S) allowlist (render_allowlist names) 0x1A0)) d)"

definition ensure_config :: "SetupWorld \<Rightarrow> SetupOptions \<Rightarrow> string \<Rightarrow> (ToolError, unit) io" where
  "ensure_config S opts cfg_path d =
    (if fs_exists d cfg_path then (d, Inr ())
     else
     let rendered = render_config opts in
     bind_io (lift_io (map_err GeneratedConfigInvalid (config_from_toml (sw_toml_config S) rendered))) (\<lambda>_.
     write_new (sw_files S) cfg_path rendered 0x1A0) d)"

definition setup_run :: "SetupWorld \<Rightarrow> SetupOptions \<Rightarrow> (ToolError, unit) io" where
  "setup_run S opts =
    (let F = sw_files S;
         trust_dir = path_join (so_etc opts) ''trust''; pol_dir = path_join (so_etc opts) ''policies'';
         exec_dir = path_join (so_etc opts) ''exec'';
         sk = path_join trust_dir ''operator.key''; pk = path_join trust_dir ''operator.pub'';
         operators_path = path_join trust_dir ''operators.pubkeys''; cfg_path = path_join (so_etc opts) ''archangel.toml'' in
     bind_io (lift_io (ensure (sw_mkdir_ok S) Mkdir)) (\<lambda>_.
     bind_io (ensure_key S sk pk) (\<lambda>_.
     bind_io (look_io (\<lambda>d. ok_or ReadOperatorPubFile (read_to_string (fs_read F d) pk))) (\<lambda>operator_pub_hex.
     bind_io (ensure_operators S operators_path operator_pub_hex) (\<lambda>_.
     bind_io (case sw_names S of None \<Rightarrow> lift_io (Inr ()) | Some names \<Rightarrow> sign_unsigned (sw_crypto S) F sk exec_dir names) (\<lambda>_.
     bind_io (ensure_allowlist S (path_join pol_dir ''allowlist.toml'') operators_path exec_dir) (\<lambda>_.
     bind_io (ensure_config S opts cfg_path) (\<lambda>_.
     look_io (\<lambda>d. map_ok (\<lambda>_. ()) (map_err ConfigDoesNotValidate
       (config_load (read_to_string (fs_read F d)) (sw_toml_config S) cfg_path)))))))))))"

section \<open>The interactive session\<close>

datatype ReplAction = Skip | Quit | Send CtlRequest

text \<open>What a line that was typed makes the session do, given the last pending action that was shown.\<close>

definition repl_line :: "(string \<times> string) option \<Rightarrow> string \<Rightarrow> ReplAction" where
  "repl_line last_pending raw =
    (let line = trim raw in
     case split_whitespace line of
       [] \<Rightarrow> Skip
     | cmd # toks \<Rightarrow>
        if cmd = ''/quit'' \<or> cmd = ''/exit'' then Quit
        else if cmd = ''/help'' then Skip
        else if cmd = ''/ping'' then Send Ping
        else if cmd = ''/approve'' then
          (case (first toks, get 1 toks) of
             (Some i, Some dig) \<Rightarrow> Send (Approve i dig)
           | _ \<Rightarrow> (case last_pending of Some (i, dig) \<Rightarrow> Send (Approve i dig) | None \<Rightarrow> Skip))
        else if cmd = ''/reject'' then
          (case (case first toks of Some i \<Rightarrow> Some i | None \<Rightarrow> map_option fst last_pending) of
             Some i \<Rightarrow> Send (Reject i)
           | None \<Rightarrow> Skip)
        else Send (RunTask line []))"

definition track_pending :: "(string \<times> string) option \<Rightarrow> 'r CtlResponse option \<Rightarrow> (string \<times> string) option" where
  "track_pending last_pending resp =
    (case resp of
       Some (Task out) \<Rightarrow> (case out of CtlApprovalRequired i dig _ _ _ _ \<Rightarrow> Some (i, dig) | _ \<Rightarrow> None)
     | _ \<Rightarrow> last_pending)"

text \<open>\<open>serve\<close> is the daemon behind the client: the reply to a request, if one arrives.  The result is the list of
  requests sent with the last pending action at the time.\<close>

primrec run_repl :: "(CtlRequest \<Rightarrow> 'd \<Rightarrow> 'd \<times> 'r CtlResponse option) \<Rightarrow> 'd \<Rightarrow> (string \<times> string) option \<Rightarrow> string list
    \<Rightarrow> ((string \<times> string) option \<times> CtlRequest \<times> 'r CtlResponse option) list"
where
  "run_repl serve dm last_pending [] = []"
| "run_repl serve dm last_pending (line # rest) =
    (case repl_line last_pending line of
       Quit \<Rightarrow> []
     | Skip \<Rightarrow> run_repl serve dm last_pending rest
     | Send req \<Rightarrow>
        let (dm2, resp) = serve req dm in (last_pending, req, resp) # run_repl serve dm2 (track_pending last_pending resp) rest)"

section \<open>Keys and signatures\<close>

lemma hex_line_trims: "bs \<noteq> [] \<Longrightarrow> trim (hex_encode bs @ [CHR 0x0A]) = hex_encode bs"
  by (rule trim_newline [OF hex_encode_plain]) (metis length_0_conv length_hex_encode mult_eq_0_iff zero_neq_numeral)

lemma decode_hex_line:
  assumes "bs \<noteq> []"
  shows "keys_decode_hex (keys_encode_hex bs @ [CHR 0x0A]) = Inr bs" "daemon_decode_hex (keys_encode_hex bs @ [CHR 0x0A]) = Inr bs"
proof -
  have "keys_decode_hex (hex_encode bs @ [CHR 0x0A]) = keys_decode_hex (hex_encode bs)"
      "daemon_decode_hex (hex_encode bs @ [CHR 0x0A]) = daemon_decode_hex (hex_encode bs)"
    using hex_line_trims [OF assms] by (simp_all add: keys_decode_hex_def daemon_decode_hex_def)
  then show "keys_decode_hex (keys_encode_hex bs @ [CHR 0x0A]) = Inr bs" "daemon_decode_hex (keys_encode_hex bs @ [CHR 0x0A]) = Inr bs"
    using keys_hex.decode_encode [of bs] daemon_hex.decode_encode [of bs] by (simp_all add: keys_encode_hex_def daemon_encode_hex_def)
qed

text \<open>The two halves of an operator key fit.  When the operator's key has been created, the tool loads
  from the secret file the key whose public half the daemon reads from the public file; the
  secret file is readable by its owner only; neither file existed before, and no other file was
  touched.\<close>

theorem operator_keys_agree:
  assumes "crypto_ok C" and "init_operator_key C F seed secret_path public_path d = (d2, Inr hex)"
    and "\<not> fe_read_fails F2 secret_path" "\<not> fe_read_fails F2 public_path"
  shows "\<exists>key bs. load_operator_key (fs_read F2 d2) secret_path = Inr key
    \<and> operator_key C (fs_read F2 d2) public_path = Inr (verifying_key C key)
    \<and> d2 secret_path = Some (bs, 0x180) \<and> d secret_path = None \<and> d public_path = None
    \<and> (\<forall>q. q \<noteq> secret_path \<longrightarrow> q \<noteq> public_path \<longrightarrow> d2 q = d q)"
proof -
  let ?key = "SigningKey (fill_bytes 32 seed)"
  let ?vk = "vk_bytes (verifying_key C ?key)"
  have new: "d secret_path = None" "d public_path = None" "secret_path \<noteq> public_path"
      "d2 = d(secret_path \<mapsto> (as_bytes (keys_encode_hex (fill_bytes 32 seed)) @ [0x0A], 0x180),
              public_path \<mapsto> (as_bytes (keys_encode_hex ?vk) @ [0x0A], 0x1A4))"
    using assms(2)
    by (auto simp: init_operator_key_def fs_exists_def Let_def io_Inr fs_create_new_Inr split: if_splits)
  have vk: "length ?vk = 32" "vk_from_bytes C ?vk = Some (verifying_key C ?key)" using assms(1) by (simp_all add: crypto_ok_def)
  have ne: "?vk \<noteq> []" "fill_bytes 32 seed \<noteq> []" using vk(1) by (auto dest: arg_cong [where f = length])
  have reads: "read_to_string (fs_read F2 d2) secret_path = Some (keys_encode_hex (fill_bytes 32 seed) @ [CHR 0x0A])"
      "read_to_string (fs_read F2 d2) public_path = Some (keys_encode_hex ?vk @ [CHR 0x0A])"
    using new(3) assms(3,4) by (simp_all add: read_to_string_def fs_read_def new(4) hex_line_utf8 keys_encode_hex_def)
  have "load_operator_key (fs_read F2 d2) secret_path = Inr ?key"
    using decode_hex_line(1) [OF ne(2)] by (simp add: load_operator_key_def reads to_array_def)
  moreover have "operator_key C (fs_read F2 d2) public_path = Inr (verifying_key C ?key)"
    using decode_hex_line(2) [OF ne(1)] vk by (simp add: operator_key_def reads to_array_def)
  ultimately show ?thesis using new by auto
qed

theorem operator_keys_agree_witness:
  "\<exists>d2 hex key. init_operator_key sample_crypto quiet_files (replicate 32 3) ''/k'' ''/p'' Map.empty = (d2, Inr hex)
    \<and> load_operator_key (fs_read quiet_files d2) ''/k'' = Inr key
    \<and> operator_key sample_crypto (fs_read quiet_files d2) ''/p'' = Inr (verifying_key sample_crypto key)"
proof -
  obtain d2 hex where "init_operator_key sample_crypto quiet_files (replicate 32 3) ''/k'' ''/p'' Map.empty = (d2, Inr hex)"
    by (simp add: init_operator_key_def fs_exists_def bind_io_def map_err_io_def fs_create_new_def fs_put_def quiet_files_def lift_io_def Let_def)
  from operator_keys_agree [OF sample_crypto_ok this, of quiet_files] this show ?thesis by (auto simp: quiet_files_def)
qed

lemma sign_bundle_ok:
  assumes "sign_bundle C F sk mp d = (d2, Inr sp)"
  obtains key bs mode where "load_operator_key (fs_read F d) sk = Inr key" "fs_read F d mp = Some bs" "sp = mp @ ''.sig''"
    "d2 = d(sp \<mapsto> (as_bytes (keys_encode_hex (sig_bytes (sign C key bs))), mode))"
  using assms by (auto simp: sign_bundle_def io_Inr Let_def ok_or_eq_Inr fs_overwrite_Inr)

text \<open>C28: what the operator signs, the daemon and the executor accept.  If signing a manifest succeeded
  with a key whose public half is trusted, and the manifest parses and its digest matches its
  payload, then the bundle loads and verifies, with the signature where both look for it.\<close>

theorem signed_bundle_loads:
  assumes "crypto_ok C" and "sign_bundle C F sk mp d = (d2, Inr sp)"
    and "load_operator_key (fs_read F d) sk = Inr key" and "verifying_key C key \<in> set (trust_keys trust)"
    and "fs_read F d mp = Some bs" and "from_utf8 bs = Some text'" and "toml text' = Inr mf"
    and "p_sha256 (payload mf) = bundle_hex_encode (sha256 C (as_bytes (p_inline (payload mf))))"
    and "\<not> fe_read_fails F2 mp" "\<not> fe_read_fails F2 (mp @ ''.sig'')"
  shows "bundle_load C toml (fs_read F2 d2) mp (mp @ ''.sig'') trust = Inr \<lparr> vb_manifest = mf \<rparr>"
proof -
  from assms(2) obtain k b mode where "load_operator_key (fs_read F d) sk = Inr k" "fs_read F d mp = Some b" "sp = mp @ ''.sig''"
      "d2 = d(sp \<mapsto> (as_bytes (keys_encode_hex (sig_bytes (sign C k b))), mode))" by (rule sign_bundle_ok)
  then have d2: "d2 = d(mp @ ''.sig'' \<mapsto> (as_bytes (hex_encode (sig_bytes (sign C key bs))), mode))"
    using assms(3,5) by (simp add: keys_encode_hex_def)
  have "d2 mp = d mp" by (simp add: d2)
  then have "fs_read F2 d2 mp = Some bs" using assms(5,9) by (auto simp: fs_read_def split: if_splits)
  moreover have "read_to_string (fs_read F2 d2) (mp @ ''.sig'') = Some (bundle_hex_encode (sig_bytes (sign C key bs)))"
    using assms(10) by (simp add: read_to_string_def fs_read_def d2 hex_text_utf8 bundle_hex_encode_def)
  ultimately show ?thesis
    using signed_bundle_accepted [where toml_manifest = toml, OF assms(1,4,6,7,8)] by (simp add: bundle_load_def)
qed

theorem signed_bundle_loads_witness:
  "\<exists>d2 sp. sign_bundle sample_crypto quiet_files ''/k'' ''/m''
      [''/k'' \<mapsto> (as_bytes (hex_encode (replicate 32 3) @ [CHR 0x0A]), 0), ''/m'' \<mapsto> (as_bytes ''[meta]'', 0)] = (d2, Inr sp)
    \<and> bundle_load sample_crypto (\<lambda>_. Inr sample_manifest) (fs_read quiet_files d2) ''/m'' ''/m.sig''
        \<lparr> trust_keys = [verifying_key sample_crypto (SigningKey (replicate 32 3))] \<rparr> = Inr \<lparr> vb_manifest = sample_manifest \<rparr>"
proof -
  let ?d = "[''/k'' \<mapsto> (as_bytes (hex_encode (replicate 32 3) @ [CHR 0x0A]), 0), ''/m'' \<mapsto> (as_bytes ''[meta]'', 0)] :: disk"
  let ?trust = "\<lparr> trust_keys = [verifying_key sample_crypto (SigningKey (replicate 32 3))] \<rparr>"
  have "read_to_string (fs_read quiet_files ?d) ''/k'' = Some (keys_encode_hex (replicate 32 3) @ [CHR 0x0A])"
    using hex_line_utf8 [of "replicate 32 3"] by (simp add: read_to_string_def fs_read_def quiet_files_def keys_encode_hex_def as_bytes_def byte_of_char_def)
  then have k: "load_operator_key (fs_read quiet_files ?d) ''/k'' = Inr (SigningKey (replicate 32 3))"
    using decode_hex_line(1) [of "replicate 32 3"] by (simp add: load_operator_key_def to_array_def)
  have m: "fs_read quiet_files ?d ''/m'' = Some (as_bytes ''[meta]'')" by (simp add: fs_read_def quiet_files_def)
  obtain d2 sp where s: "sign_bundle sample_crypto quiet_files ''/k'' ''/m'' ?d = (d2, Inr sp)"
    using k m
    by (simp add: sign_bundle_def bind_io_def look_io_def lift_io_def map_err_io_def fs_overwrite_def fs_put_def quiet_files_def Let_def)
  have t: "from_utf8 (as_bytes ''[meta]'') = Some ''[meta]''"
    by (simp add: from_utf8_def utf8_valid_ascii as_bytes_def str_of_bytes_def)
  have "bundle_load sample_crypto (\<lambda>_. Inr sample_manifest) (fs_read quiet_files d2) ''/m'' (''/m'' @ ''.sig'') ?trust = Inr \<lparr> vb_manifest = sample_manifest \<rparr>"
    by (rule signed_bundle_loads [OF sample_crypto_ok s k _ m t])
      (simp_all add: sample_manifest_def sample_crypto_def quiet_files_def)
  with s show ?thesis by simp
qed

section \<open>The wizard overwrites nothing\<close>

definition keeps :: "string set \<Rightarrow> ('e, 'a) io \<Rightarrow> bool" where
  "keeps P m \<longleftrightarrow> (\<forall>d. \<forall>p \<in> P. d p \<noteq> None \<longrightarrow> fst (m d) p = d p)"

lemma keepsI: "(\<And>d p. p \<in> P \<Longrightarrow> d p \<noteq> None \<Longrightarrow> fst (m d) p = d p) \<Longrightarrow> keeps P m"
  by (simp add: keeps_def)

lemma keepsD: "keeps P m \<Longrightarrow> p \<in> P \<Longrightarrow> d p \<noteq> None \<Longrightarrow> fst (m d) p = d p"
  by (simp add: keeps_def)

lemma keeps_bind:
  assumes "keeps P m" and "\<And>x. keeps P (k x)"
  shows "keeps P (bind_io m k)"
proof (rule keepsI)
  fix d :: disk and p assume p: "p \<in> P" "d p \<noteq> None"
  obtain d1 r where m: "m d = (d1, r)" by (cases "m d")
  with keepsD [where d = d, OF assms(1) p] have d1: "d1 p = d p" by simp
  show "fst (bind_io m k d) p = d p"
  proof (cases r)
    case (Inl e)
    with m d1 show ?thesis by (simp add: bind_io_def)
  next
    case (Inr x)
    have "fst (k x d1) p = d1 p" using p d1 by (intro keepsD [OF assms(2)]) simp_all
    with Inr m d1 show ?thesis by (simp add: bind_io_def)
  qed
qed

lemma keeps_simple: "keeps P (lift_io r)" "keeps P (look_io f)" "keeps P (map_err_io g m) \<longleftrightarrow> keeps P m"
proof -
  show "keeps P (lift_io r)" "keeps P (look_io f)" by (simp_all add: keeps_def lift_io_def look_io_def)
  have "fst (map_err_io g m d) = fst (m d)" for d by (simp add: map_err_io_def split: prod.split)
  then show "keeps P (map_err_io g m) \<longleftrightarrow> keeps P m" by (simp add: keeps_def)
qed

lemma keeps_if: "keeps P m \<Longrightarrow> keeps P n \<Longrightarrow> keeps P (\<lambda>d. if b d then m d else n d)"
  by (simp add: keeps_def)

lemma keeps_create_new: "keeps P (fs_create_new F p mode bs)"
  by (rule keepsI) (rule fs_create_new_keeps)

lemma keeps_overwrite: "p \<notin> P \<Longrightarrow> keeps P (fs_overwrite F p mode bs)"
  by (rule keepsI) (rule fs_frame(3), blast)

lemmas keeps_intros = keeps_bind keeps_simple(1,2) keeps_simple(3) [THEN iffD2] keeps_create_new

lemma keeps_init: "keeps P (init_operator_key C F seed sp pp)"
proof -
  have "keeps P (bind_io (map_err_io CreateSecret (fs_create_new F sp 0x180 b1)) (\<lambda>_.
      bind_io (map_err_io CreatePublic (fs_create_new F pp 0x1A4 b2)) (\<lambda>_. lift_io (Inr h))))" for b1 b2 and h :: string
    by (intro keeps_intros)
  then show ?thesis unfolding keeps_def init_operator_key_def by (simp add: Let_def)
qed

text \<open>Signing creates the signature file where there was none.\<close>

lemma sign_bundle_frame: "p \<noteq> mp @ ''.sig'' \<Longrightarrow> fst (sign_bundle C F sk mp d) p = d p"
  by (auto simp: sign_bundle_def bind_io_def look_io_def lift_io_def map_err_io_def Let_def split: prod.splits sum.splits)
    (metis fs_frame(3) fst_conv)+

lemma keeps_sign_unsigned: "keeps P (sign_unsigned C F sk dir names)"
proof (induction names)
  case Nil
  then show ?case by (simp add: keeps_simple)
next
  case (Cons name names)
  have signed: "fst (bind_io (sign_bundle C F sk q) (\<lambda>_. sign_unsigned C F sk dir names) d) p = d p"
    if "p \<in> P" "d p \<noteq> None" "d (q @ ''.sig'') = None" for q d p
  proof -
    obtain d1 r where s: "sign_bundle C F sk q d = (d1, r)" by (cases "sign_bundle C F sk q d")
    have "p \<noteq> q @ ''.sig''" using that by auto
    from sign_bundle_frame [OF this, of C F sk d] s have "d1 p = d p" by simp
    moreover have "fst (sign_unsigned C F sk dir names d1) p = d1 p"
      using that calculation by (intro keepsD [OF Cons.IH]) simp_all
    ultimately show ?thesis by (simp add: bind_io_def s split: sum.split)
  qed
  show ?case
  proof (rule keepsI)
    fix d :: disk and p assume p: "p \<in> P" "d p \<noteq> None"
    show "fst (sign_unsigned C F sk dir (name # names) d) p = d p"
      using keepsD [where d = d, OF Cons.IH p] signed [where d = d, OF p, of "path_join dir name"]
      by (cases "d (path_join dir name @ ''.sig'')") (simp_all add: Let_def fs_exists_def)
  qed
qed

lemma keeps_ensure:
  "keeps P (ensure_key S sk pk)" "keeps P (ensure_allowlist S al ops dir)" "keeps P (ensure_config S opts cfg)"
  "ops \<notin> P \<Longrightarrow> keeps P (ensure_operators S ops h)"
proof -
  have "keeps P (bind_io (init_operator_key (sw_crypto S) (sw_files S) (sw_seed S) sk pk) (\<lambda>_. lift_io (Inr ())))"
    by (intro keeps_intros keeps_init)
  then show "keeps P (ensure_key S sk pk)" by (simp add: keeps_def ensure_key_def)
  have wn: "keeps P (write_new F q c mode)" for F q c mode unfolding write_new_def by (intro keeps_intros)
  have "keeps P (bind_io (look_io f) (\<lambda>t. bind_io (look_io (g t)) (\<lambda>names. write_new (sw_files S) al (render_allowlist names) 0x1A0)))"
    for f :: "disk \<Rightarrow> (ToolError, OperatorTrust) result" and g by (intro keeps_intros wn)
  then show "keeps P (ensure_allowlist S al ops dir)" by (simp add: keeps_def ensure_allowlist_def)
  have "keeps P (bind_io (lift_io r) (\<lambda>_. write_new (sw_files S) cfg c 0x1A0))" for r :: "(ToolError, Config) result" and c
    by (intro keeps_intros wn)
  then show "keeps P (ensure_config S opts cfg)" by (simp add: keeps_def ensure_config_def Let_def)
  assume ops: "ops \<notin> P"
  have "keeps P (map_err_io UpdateOperators (fs_overwrite (sw_files S) ops 0x1B6 b))" for b
    by (intro keeps_intros keeps_overwrite ops)
  with wn show "keeps P (ensure_operators S ops h)" by (auto simp: keeps_def ensure_operators_def split: option.split)
qed

lemma ensure_operators_appends:
  assumes "d ops = Some (bs, mode)" and "from_utf8 bs = Some old"
    and "\<not> fe_read_fails (sw_files S) ops" "fe_write_stops (sw_files S) ops = None"
  shows "fst (ensure_operators S ops h d) ops = d ops
    \<or> fst (ensure_operators S ops h d) ops = Some (as_bytes (trim_end old @ nl @ trim h @ ''  operator (added by setup)'' @ nl), mode)"
proof -
  have "read_to_string (fs_read (sw_files S) d) ops = Some old" using assms by (simp add: read_to_string_def fs_read_def)
  with assms(1,4) show ?thesis
    by (simp add: ensure_operators_def operators_pubkeys_update_def Let_def fs_exists_def map_err_io_def fs_overwrite_def fs_put_def
        split: prod.split)
qed

abbreviation operators_path :: "SetupOptions \<Rightarrow> string" where
  "operators_path opts \<equiv> path_join (path_join (so_etc opts) ''trust'') ''operators.pubkeys''"

abbreviation operator_pub_path :: "SetupOptions \<Rightarrow> string" where
  "operator_pub_path opts \<equiv> path_join (path_join (so_etc opts) ''trust'') ''operator.pub''"

lemma fst_bind_io_cases:
  obtains "fst (bind_io m k d) = fst (m d)" | x where "m d = (fst (m d), Inr x)" "fst (bind_io m k d) = fst (k x (fst (m d)))"
  by (cases "m d"; cases "snd (m d)") (auto simp: bind_io_def)

lemma setup_run_operators:
  assumes "d (operators_path opts) = Some (bs, mode)" and "from_utf8 bs = Some old"
    and "\<not> fe_read_fails (sw_files S) (operators_path opts)" "fe_write_stops (sw_files S) (operators_path opts) = None"
  shows "fst (setup_run S opts d) (operators_path opts) = Some (bs, mode)
    \<or> (\<exists>pub pmode key. fst (setup_run S opts d) (operator_pub_path opts) = Some (pub, pmode) \<and> from_utf8 pub = Some key
        \<and> fst (setup_run S opts d) (operators_path opts) = Some (as_bytes (trim_end old @ nl @ trim key @ ''  operator (added by setup)'' @ nl), mode))"
proof -
  let ?pub = "operator_pub_path opts"
  have differ: "?pub \<noteq> operators_path opts" by (simp add: path_join_def starts_with_def)
  let ?ops = "operators_path opts"
  define rest where "rest = bind_io (case sw_names S of None \<Rightarrow> lift_io (Inr ())
        | Some names \<Rightarrow> sign_unsigned (sw_crypto S) (sw_files S) (path_join (path_join (so_etc opts) ''trust'') ''operator.key'')
            (path_join (so_etc opts) ''exec'') names) (\<lambda>_.
     bind_io (ensure_allowlist S (path_join (path_join (so_etc opts) ''policies'') ''allowlist.toml'') ?ops (path_join (so_etc opts) ''exec'')) (\<lambda>_.
     bind_io (ensure_config S opts (path_join (so_etc opts) ''archangel.toml'')) (\<lambda>_.
     look_io (\<lambda>d. map_ok (\<lambda>_. ()) (map_err ConfigDoesNotValidate
       (config_load (read_to_string (fs_read (sw_files S) d)) (sw_toml_config S) (path_join (so_etc opts) ''archangel.toml'')))))))"
  have rest: "keeps {?ops, ?pub} rest" unfolding rest_def
    by (intro keeps_intros keeps_ensure) (simp_all add: keeps_simple keeps_sign_unsigned split: option.split)
  define pre where "pre = bind_io (lift_io (ensure (sw_mkdir_ok S) Mkdir)) (\<lambda>_.
     bind_io (ensure_key S (path_join (path_join (so_etc opts) ''trust'') ''operator.key'') (path_join (path_join (so_etc opts) ''trust'') ''operator.pub'')) (\<lambda>_.
     look_io (\<lambda>d. ok_or ReadOperatorPubFile (read_to_string (fs_read (sw_files S) d) (path_join (path_join (so_etc opts) ''trust'') ''operator.pub'')))))"
  have pre: "keeps {?ops} pre" unfolding pre_def by (intro keeps_intros keeps_ensure)
  have run: "setup_run S opts d = bind_io pre (\<lambda>h. bind_io (ensure_operators S ?ops h) (\<lambda>_. rest)) d"
    by (simp add: setup_run_def Let_def pre_def rest_def bind_io_def lift_io_def look_io_def split: prod.split sum.split)
  let ?d1 = "fst (pre d)"
  have d1: "?d1 ?ops = Some (bs, mode)" using keepsD [OF pre, of ?ops d] assms(1) by simp
  show ?thesis
  proof (cases rule: fst_bind_io_cases [of pre "\<lambda>h. bind_io (ensure_operators S ?ops h) (\<lambda>_. rest)" d])
    case 1
    then show ?thesis using d1 assms(1) by (simp add: run)
  next
    case (2 h)
    let ?d2 = "fst (ensure_operators S ?ops h ?d1)"
    from 2(1) have "read_to_string (fs_read (sw_files S) ?d1) ?pub = Some h"
      by (auto simp: pre_def bind_io_def lift_io_def look_io_def ok_or_eq_Inr split: prod.splits sum.splits)
    then obtain pub pmode where pub: "?d1 ?pub = Some (pub, pmode)" "from_utf8 pub = Some h"
      by (auto simp: read_to_string_def fs_read_Some Option.bind_eq_Some_conv)
    have app: "?d2 ?ops = Some (bs, mode) \<or> ?d2 ?ops = Some (as_bytes (trim_end old @ nl @ trim h @ ''  operator (added by setup)'' @ nl), mode)"
      using ensure_operators_appends [where d = ?d1, OF d1 assms(2-4), of h] d1 by simp
    have pub2: "?d2 ?pub = Some (pub, pmode)"
      using keepsD [OF keeps_ensure(4) [of ?ops "{?pub}" S h], of ?pub ?d1] pub(1) differ by simp
    have "fst (rest ?d2) ?ops = ?d2 ?ops" "fst (rest ?d2) ?pub = Some (pub, pmode)"
      using keepsD [OF rest, of ?ops ?d2] keepsD [OF rest, of ?pub ?d2] app pub2 by auto
    then have "fst (setup_run S opts d) ?ops = ?d2 ?ops" "fst (setup_run S opts d) ?pub = Some (pub, pmode)"
      using 2(2) pub2 unfolding run
      by (cases rule: fst_bind_io_cases [of "ensure_operators S ?ops h" "\<lambda>_. rest" ?d1]; simp)+
    then show ?thesis using app pub(2) by auto
  qed
qed

lemma keeps_setup_run: "keeps (- {operators_path opts}) (setup_run S opts)"
  unfolding setup_run_def Let_def
  by (intro keeps_intros keeps_ensure) (simp_all add: keeps_simple keeps_sign_unsigned split: option.split)

text \<open>C31: running the set-up wizard is safe on a configured machine.  Whatever its outcome, including
  every failure on the way, each file that was there before is unchanged, except the operators'
  key file; and that one, provided that it can be read, is UTF-8 and the write to it is not cut short, is unchanged or has one line appended, with
  the key that is then in \<open>operator.pub\<close>.\<close>

theorem setup_never_overwrites:
  "(\<forall>p. p \<noteq> operators_path opts \<longrightarrow> d p \<noteq> None \<longrightarrow> fst (setup_run S opts d) p = d p)
    \<and> (\<forall>bs mode old. d (operators_path opts) = Some (bs, mode) \<longrightarrow> from_utf8 bs = Some old
        \<longrightarrow> \<not> fe_read_fails (sw_files S) (operators_path opts) \<longrightarrow> fe_write_stops (sw_files S) (operators_path opts) = None
        \<longrightarrow> fst (setup_run S opts d) (operators_path opts) = Some (bs, mode)
          \<or> (\<exists>pub pmode key. fst (setup_run S opts d) (operator_pub_path opts) = Some (pub, pmode) \<and> from_utf8 pub = Some key
              \<and> fst (setup_run S opts d) (operators_path opts)
                = Some (as_bytes (trim_end old @ nl @ trim key @ ''  operator (added by setup)'' @ nl), mode)))"
proof (intro conjI allI impI)
  show "fst (setup_run S opts d) p = d p" if "p \<noteq> operators_path opts" "d p \<noteq> None" for p
    using keepsD [where d = d, OF keeps_setup_run, of p opts S] that by simp
qed (rule setup_run_operators)

definition demo_etc :: disk where
  "demo_etc = [''/e/trust/operator.key'' \<mapsto> (as_bytes ''secret'', 0x180), ''/e/trust/operator.pub'' \<mapsto> (as_bytes ''ab'', 0x1A4),
    ''/e/trust/operators.pubkeys'' \<mapsto> (as_bytes ''cd  bob'', 0x1A0), ''/e/policies/allowlist.toml'' \<mapsto> (as_bytes ''mine'', 0x1A0),
    ''/e/archangel.toml'' \<mapsto> (as_bytes ''mine'', 0x1A0)]"

definition demo_options :: SetupOptions where
  "demo_options = \<lparr> so_etc = ''/e'', so_backend = ''ollama'', so_operator_uid = 1000, so_daemon_uid = 996, so_ollama_url = None \<rparr>"

definition demo_setup :: SetupWorld where
  "demo_setup = \<lparr> sw_files = quiet_files, sw_crypto = sample_crypto, sw_seed = [], sw_toml_config = (\<lambda>_. Inr sample_config),
    sw_toml_manifest = (\<lambda>_. Inl []), sw_mkdir_ok = True, sw_names = None \<rparr>"

lemma demo_etc_text: "p \<in> {''secret'', ''ab'', ''cd  bob'', ''mine''} \<Longrightarrow> from_utf8 (as_bytes p) = Some p"
  by (auto simp: from_utf8_def utf8_valid_ascii as_bytes_def str_of_bytes_def)

lemma demo_options_path: "operators_path demo_options = ''/e/trust/operators.pubkeys''"
  by (simp add: demo_options_def path_join_def starts_with_def)

theorem setup_never_overwrites_witness:
  "fst (setup_run demo_setup demo_options demo_etc) ''/e/trust/operator.key'' = Some (as_bytes ''secret'', 0x180)
    \<and> fst (setup_run demo_setup demo_options demo_etc) ''/e/trust/operators.pubkeys''
        \<in> {Some (as_bytes ''cd  bob'', 0x1A0), Some (as_bytes (trim_end ''cd  bob'' @ nl @ trim ''ab'' @ ''  operator (added by setup)'' @ nl), 0x1A0)}"
proof
  note ok = setup_never_overwrites [of demo_options demo_etc demo_setup, unfolded demo_options_path]
  show "fst (setup_run demo_setup demo_options demo_etc) ''/e/trust/operator.key'' = Some (as_bytes ''secret'', 0x180)"
    using ok [THEN conjunct1, rule_format, of "''/e/trust/operator.key''"] by (simp add: demo_etc_def)
  have pub: "fst (setup_run demo_setup demo_options demo_etc) ''/e/trust/operator.pub'' = Some (as_bytes ''ab'', 0x1A4)"
    using ok [THEN conjunct1, rule_format, of "''/e/trust/operator.pub''"] by (simp add: demo_etc_def)
  have path: "operator_pub_path demo_options = ''/e/trust/operator.pub''" by (simp add: demo_options_def path_join_def starts_with_def)
  have "demo_etc ''/e/trust/operators.pubkeys'' = Some (as_bytes ''cd  bob'', 0x1A0)" by (simp add: demo_etc_def)
  from ok [THEN conjunct2, rule_format, OF this demo_etc_text, unfolded path pub]
  show "fst (setup_run demo_setup demo_options demo_etc) ''/e/trust/operators.pubkeys''
      \<in> {Some (as_bytes ''cd  bob'', 0x1A0), Some (as_bytes (trim_end ''cd  bob'' @ nl @ trim ''ab'' @ ''  operator (added by setup)'' @ nl), 0x1A0)}"
    using demo_etc_text [of "''ab''"] by (auto simp: demo_setup_def quiet_files_def)
qed

section \<open>What the session approves\<close>

lemma repl_line_approves:
  assumes "repl_line last_pending raw = Send (Approve i dig)"
  shows "last_pending = Some (i, dig) \<or> (\<exists>rest. split_whitespace (trim raw) = ''/approve'' # i # dig # rest)"
proof (cases "split_whitespace (trim raw)")
  case Nil
  with assms show ?thesis by (simp add: repl_line_def)
next
  case (Cons cmd toks)
  with assms have cmd: "cmd = ''/approve''"
    by (auto simp: repl_line_def Let_def split: if_splits option.splits)
  with Cons assms have "(case (first toks, get 1 toks) of (Some i, Some dig) \<Rightarrow> Send (Approve i dig)
      | _ \<Rightarrow> (case last_pending of Some (i, dig) \<Rightarrow> Send (Approve i dig) | None \<Rightarrow> Skip)) = Send (Approve i dig)"
    by (simp add: repl_line_def Let_def)
  moreover have "toks = x # y # drop 2 toks" if "first toks = Some x" "get 1 toks = Some y" for x y
    using that by (cases toks; cases "tl toks") (auto simp: first_def get_def split: if_splits)
  ultimately show ?thesis using Cons cmd by (fastforce split: option.splits prod.splits)
qed

lemma track_pending_shown:
  "track_pending last_pending resp = Some (i, dig) \<Longrightarrow>
    last_pending = Some (i, dig) \<or> (\<exists>a b c e. resp = Some (Task (CtlApprovalRequired i dig a b c e)))"
  by (auto simp: track_pending_def split: option.splits CtlResponse.splits CtlOutcome.splits)

text \<open>An approval that the session sends was typed in full, or is for an action that the daemon asked
  about before, under the digest it gave.\<close>

lemma session_approves_shown:
  assumes "(lp, Approve i dig, r) \<in> set (run_repl serve dm last_pending lines)"
  shows "last_pending = Some (i, dig)
    \<or> (\<exists>line \<in> set lines. \<exists>rest. split_whitespace (trim line) = ''/approve'' # i # dig # rest)
    \<or> (\<exists>lp' req a b c e. (lp', req, Some (Task (CtlApprovalRequired i dig a b c e))) \<in> set (run_repl serve dm last_pending lines))"
  using assms
proof (induction lines arbitrary: dm last_pending)
  case (Cons line rest)
  show ?case
  proof (cases "repl_line last_pending line")
    case (Send req)
    obtain dm2 resp where s: "serve req dm = (dm2, resp)" by (cases "serve req dm")
    let ?run = "run_repl serve dm2 (track_pending last_pending resp) rest"
    have run: "run_repl serve dm last_pending (line # rest) = (last_pending, req, resp) # ?run" by (simp add: Send s)
    consider "req = Approve i dig" | "(lp, Approve i dig, r) \<in> set ?run" using Cons.prems run by auto
    then show ?thesis
    proof cases
      case 1
      with Send repl_line_approves [of last_pending line i dig] show ?thesis by auto
    next
      case 2
      from Cons.IH [OF this] track_pending_shown [of last_pending resp i dig] show ?thesis unfolding run list.set by blast
    qed
  qed (use Cons in auto)
qed simp

section \<open>Where the tool does more than was asked\<close>

text \<open>A key file that is there and cannot be read as text counts as missing: the wizard replaces it by a
  file that trusts the operator's key only, so the other operators' keys are lost.\<close>

lemma unreadable_operators_replaced:
  assumes "d ops = Some (bs, mode)" and "read_to_string (fs_read (sw_files S) d) ops = None"
    and "\<not> fe_open_fails (sw_files S) ops" "fe_write_stops (sw_files S) ops = None"
  shows "fst (ensure_operators S ops h d) ops = Some (as_bytes (trim h @ ''  operator'' @ nl), mode)"
  using assms by (simp add: ensure_operators_def operators_pubkeys_update_def fs_exists_def map_err_io_def fs_overwrite_def fs_put_def Let_def)

lemma unreadable_operators_example:
  "fst (ensure_operators demo_setup ''/o'' ''ab'' [''/o'' \<mapsto> (0xFF # as_bytes ''cd  bob'', 0)]) ''/o'' = Some (as_bytes (''ab  operator'' @ nl), 0)"
proof -
  have "trim ''ab'' = ''ab''" by (rule trim_plain) (simp add: plain_char_def)
  moreover have "from_utf8 (0xFF # as_bytes ''cd  bob'') = None"
    unfolding from_utf8_def by (subst utf8_valid.simps) (simp add: utf8_len_def in_range_def)
  ultimately show ?thesis
    using unreadable_operators_replaced [of "[''/o'' \<mapsto> (0xFF # as_bytes ''cd  bob'', 0)]" "''/o''" _ 0 demo_setup "''ab''"]
    by (simp add: read_to_string_def fs_read_def demo_setup_def quiet_files_def)
qed

lemma trim_plain_ends:
  assumes "s \<noteq> []" "plain_char (hd s)" "plain_char (last s)"
  shows "trim s = s"
proof -
  have "trim_start s = s" unfolding trim_start_def
    by (rule strip_any_plain_hd [where P = plain_char]) (use assms ws_chars_not_plain in auto)
  moreover have "strip_any (map rev ws_chars) (rev s) = rev s"
    by (rule strip_any_plain_hd [where P = plain_char]) (use assms ws_chars_not_plain in \<open>auto simp: hd_rev\<close>)
  ultimately show ?thesis by (simp add: trim_def trim_end_def)
qed

lemma ws_len_space: "ws_len (CHR 0x20 # xs) = 1"
proof -
  have "map char_of [9, 10, 11, 12, 13, 32 :: nat] = [CHR 0x09, CHR 0x0A, CHR 0x0B, CHR 0x0C, CHR 0x0D, CHR 0x20]"
    by (simp add: char_of_eq_iff)
  then show ?thesis by (simp add: ws_len_def ws_chars_def starts_with_def)
qed

text \<open>\<open>/approve\<close> with one argument does not approve the action it names but the last one that was shown.\<close>

lemma approve_one_argument: "repl_line (Some (shown, dig)) ''/approve other'' = Send (Approve shown dig)"
proof -
  have "plain_char c \<longleftrightarrow> of_char c \<in> {33 :: nat .. 126}" for c by (auto simp: plain_char_def)
  then have "trim ''/approve other'' = ''/approve other''" "split_whitespace ''/approve other'' = [''/approve'', ''other'']"
    by (simp_all add: trim_plain_ends split_whitespace_def ws_len_plain ws_len_space)
  then show ?thesis by (simp add: repl_line_def Let_def get_def first_def)
qed

end
