(* ===== verification/Terminal.thy ===== *)
theory Terminal
  imports Ipc Audit_Log Rust_Chars
begin

text \<open>
  What the operator sees: \<open>archangelctl/src/render.rs\<close>, \<open>view.rs\<close> and \<open>audit_view.rs\<close>.  The
  messages inside a response are the strings that arrive on the wire.
\<close>

section \<open>Rendering\<close>

definition MAX_UNTRUSTED_BYTES :: nat where
  "MAX_UNTRUSTED_BYTES = 64 * 1024"

text \<open>\<open>char::is_control\<close>: U+0000 to U+001F, and U+007F to U+009F.\<close>

definition is_control :: "string \<Rightarrow> bool" where
  "is_control c \<longleftrightarrow>
    (case c of
       [a] \<Rightarrow> (of_char a :: nat) < 32 \<or> (of_char a :: nat) = 127
     | [a, b] \<Rightarrow> a = CHR 0xC2 \<and> 128 \<le> (of_char b :: nat) \<and> (of_char b :: nat) < 160
     | _ \<Rightarrow> False)"

definition kept :: "string \<Rightarrow> bool" where
  "kept c \<longleftrightarrow> c = [CHR 0x0A] \<or> c = [CHR 0x09] \<or> \<not> is_control c"

text \<open>The loop of \<open>sanitize_untrusted\<close>: \<open>i\<close> is the byte index of the next character.  The result says at
  which index the loop broke off, if it did.\<close>

fun sanitize_loop :: "nat \<Rightarrow> string \<Rightarrow> string list \<Rightarrow> string \<times> nat option" where
  "sanitize_loop i out [] = (out, None)"
| "sanitize_loop i out (ch # chs) =
    (if length out \<ge> MAX_UNTRUSTED_BYTES then (out, Some i)
     else sanitize_loop (i + length ch) (if kept ch then out @ ch else out) chs)"

definition truncation_notice :: "nat \<Rightarrow> string" where
  "truncation_notice dropped =
    [CHR 0x0A] @ ''[archangelctl: truncated '' @ show_nat dropped @ '' more bytes of untrusted output]''"

definition sanitize_untrusted :: "string \<Rightarrow> string" where
  "sanitize_untrusted input =
    (case sanitize_loop 0 [] (chars input) of
       (out, None) \<Rightarrow> out
     | (out, Some at) \<Rightarrow> out @ truncation_notice (length input - at))"

record Palette =
  enabled :: bool

definition palette_detect :: "bool \<Rightarrow> bool \<Rightarrow> bool \<Rightarrow> Palette" where
  "palette_detect no_color force_off is_tty = \<lparr> enabled = (is_tty \<and> \<not> no_color \<and> \<not> force_off) \<rparr>"

definition ESC :: char where
  "ESC = CHR 0x1B"

definition paint :: "Palette \<Rightarrow> string \<Rightarrow> string \<Rightarrow> string" where
  "paint p code text' = (if enabled p then [ESC] @ ''['' @ code @ ''m'' @ text' @ [ESC] @ ''[0m'' else text')"

datatype Block = OperatorBlock | StatusBlock | ProposalBlock | OutputBlock | ApprovalBlock | ErrorBlock

definition dash :: string where
  "dash = [CHR 0xE2, CHR 0x80, CHR 0x94]"  \<comment> \<open>U+2014\<close>

definition rule2 :: string where
  "rule2 = [CHR 0xE2, CHR 0x94, CHR 0x80, CHR 0xE2, CHR 0x94, CHR 0x80]"  \<comment> \<open>U+2500 twice\<close>

definition block_prefix :: "Block \<Rightarrow> string" where
  "block_prefix b =
    (case b of
       OperatorBlock \<Rightarrow> [CHR 0xE2, CHR 0x80, CHR 0xBA] @ '' ''  \<comment> \<open>U+203A\<close>
     | StatusBlock \<Rightarrow> [CHR 0xC2, CHR 0xB7] @ '' ''  \<comment> \<open>U+00B7\<close>
     | ProposalBlock \<Rightarrow> [CHR 0xE2, CHR 0x96, CHR 0xB8] @ '' action ''  \<comment> \<open>U+25B8\<close>
     | OutputBlock \<Rightarrow> rule2 @ '' output ''
     | ApprovalBlock \<Rightarrow> ''?? ''
     | ErrorBlock \<Rightarrow> [CHR 0xE2, CHR 0x9C, CHR 0x97] @ '' '')"  \<comment> \<open>U+2717\<close>

definition block_color :: "Block \<Rightarrow> string" where
  "block_color b =
    (case b of
       OperatorBlock \<Rightarrow> ''36'' | StatusBlock \<Rightarrow> ''90'' | ProposalBlock \<Rightarrow> ''33'' | OutputBlock \<Rightarrow> ''37''
     | ApprovalBlock \<Rightarrow> ''1;35'' | ErrorBlock \<Rightarrow> ''1;31'')"

definition trusted_line :: "Palette \<Rightarrow> Block \<Rightarrow> string \<Rightarrow> string" where
  "trusted_line p b content = paint p (block_color b) (block_prefix b @ content)"

definition untrusted_block :: "Palette \<Rightarrow> Block \<Rightarrow> string \<Rightarrow> string \<Rightarrow> string" where
  "untrusted_block p b label untrusted_content =
    (let header = paint p (block_color b) (block_prefix b @ label @ '' (untrusted '' @ dash @ '' shown inert)'');
         footer = paint p (block_color b) (rule2 @ '' end '' @ rule2) in
     header @ [CHR 0x0A] @ sanitize_untrusted untrusted_content @ [CHR 0x0A] @ footer)"

section \<open>Responses\<close>

definition show_i32 :: "32 word \<Rightarrow> string" where
  "show_i32 n = (if sint n < 0 then ''-'' @ show_nat (nat (- sint n)) else show_nat (nat (sint n)))"

definition render_outcome :: "Palette \<Rightarrow> string CtlOutcome \<Rightarrow> string" where
  "render_outcome p outcome =
    (case outcome of
       CtlAsked question \<Rightarrow> trusted_line p StatusBlock (''the model asks: '' @ sanitize_untrusted question)
     | CtlRefused reason \<Rightarrow> trusted_line p StatusBlock (''declined: '' @ sanitize_untrusted reason)
     | CtlDenied stage reason \<Rightarrow>
         trusted_line p ErrorBlock (''denied at '' @ sanitize_untrusted stage @ '': '' @ sanitize_untrusted reason)
     | CtlApprovalRequired approval_id action_digest' exec reason preview two_person \<Rightarrow>
         let header = trusted_line p ApprovalBlock (''APPROVAL REQUIRED '' @ dash @ '' '' @ sanitize_untrusted exec @ '': ''
               @ sanitize_untrusted reason @ (if two_person then '' [TWO-PERSON RULE]'' else []));
             body = untrusted_block p ProposalBlock ''will run'' preview;
             prompt = trusted_line p ApprovalBlock (''/approve '' @ approval_id @ '' '' @ action_digest' @ ''   |   /reject '' @ approval_id) in
         header @ [CHR 0x0A] @ body @ [CHR 0x0A] @ prompt
     | CtlCompromised \<Rightarrow> trusted_line p ErrorBlock (''session aborted: the model leaked the canary (#3) '' @ dash
         @ '' treat this session as compromised and review the audit log'')
     | CtlExecuted exec exit_code' stdout stderr \<Rightarrow>
         trusted_line p ProposalBlock (sanitize_untrusted exec @ '' ran (exit '' @ show_i32 exit_code' @ '')'')
         @ (if stdout \<noteq> [] then [CHR 0x0A] @ untrusted_block p OutputBlock ''stdout'' stdout else [])
         @ (if stderr \<noteq> [] then [CHR 0x0A] @ untrusted_block p OutputBlock ''stderr'' stderr else []))"

definition render_response :: "Palette \<Rightarrow> string CtlResponse \<Rightarrow> string" where
  "render_response p resp =
    (case resp of
       Pong \<Rightarrow> trusted_line p StatusBlock ''pong''
     | PolicyReloaded ok detail \<Rightarrow>
         trusted_line p (if ok then StatusBlock else ErrorBlock)
           (''policy reload '' @ (if ok then ''ok'' else ''refused'') @ '': '' @ sanitize_untrusted detail)
     | CtlErrorReply detail \<Rightarrow> trusted_line p ErrorBlock (''daemon error: '' @ sanitize_untrusted detail)
     | Task outcome \<Rightarrow> render_outcome p outcome)"

section \<open>Audit logs\<close>

text \<open>Parameters: how errors are displayed, and the serialised event with its type tag.\<close>

record 't AuditShow =
  sh_error :: "AuditError \<Rightarrow> string"
  sh_event_json :: "'t AuditEvent \<Rightarrow> string option"
  sh_event_type :: "'t AuditEvent \<Rightarrow> string option"
  sh_entry_from_slice :: "byte list \<Rightarrow> (string, 't AuditEntry) result"

definition pad_right :: "nat \<Rightarrow> string \<Rightarrow> string" where
  "pad_right n s = s @ replicate (n - length s) CHR 0x20"

definition render_entry :: "'t AuditShow \<Rightarrow> Palette \<Rightarrow> nat \<Rightarrow> byte list \<Rightarrow> string" where
  "render_entry S p n line =
    (case sh_entry_from_slice S line of
       Inr entry \<Rightarrow>
         let event = ar_event (ae_record entry);
             kind = unwrap_or ''unknown'' (sh_event_type S event);
             payload' = unwrap_or [] (sh_event_json S event) in
         trusted_line p StatusBlock (''#'' @ pad_right 4 (show_nat (unat (ar_seq (ae_record entry)))) @ '' ''
           @ pad_right 18 kind @ '' '' @ sanitize_untrusted payload')
     | Inl e \<Rightarrow> trusted_line p ErrorBlock (''line '' @ show_nat n @ '': unparsable audit entry: '' @ e))"

definition verify_and_render :: "Crypto \<Rightarrow> 't AuditJson \<Rightarrow> 't AuditShow \<Rightarrow> byte list \<Rightarrow> string \<Rightarrow> Palette \<Rightarrow> string" where
  "verify_and_render C J S log_bytes pinned_pub_hex p =
    (case verifying_key_from_hex C (trim pinned_pub_hex) of
       Inl e \<Rightarrow> trusted_line p ErrorBlock (''invalid pinned audit public key: '' @ sh_error S e)
     | Inr vk \<Rightarrow>
        (case verify_chain C J log_bytes vk of
           Inr head \<Rightarrow> trusted_line p StatusBlock (''AUDIT CHAIN VERIFIED '' @ dash @ '' '' @ show_nat (unat (ch_entries head))
             @ '' entries, head '' @ ch_head_hash_hex head)
         | Inl e \<Rightarrow> trusted_line p ErrorBlock (''AUDIT CHAIN FAILED VERIFICATION: '' @ sh_error S e)
             @ [CHR 0x0A] @ ''(entries below are shown for forensics and must NOT be trusted)'' @ [CHR 0x0A])
        @ [CHR 0x0A]
        @ concat (map (\<lambda>(n, line). if line = [] then [] else render_entry S p n line @ [CHR 0x0A])
            (enumerate 0 (split_char 0x0A log_bytes))))"

section \<open>What can reach the terminal\<close>

text \<open>The control characters of a string other than newline and tab; \<open>esc_only n s\<close> holds of a string whose
  only ones are \<open>n\<close> escapes.\<close>

definition controls :: "string \<Rightarrow> string list" where
  "controls s = filter (\<lambda>c. \<not> kept c) (chars s)"

definition esc_only :: "nat \<Rightarrow> string \<Rightarrow> bool" where
  "esc_only n s \<longleftrightarrow> is_str s \<and> controls s = replicate n [ESC]"

abbreviation inert :: "string \<Rightarrow> bool" where
  "inert s \<equiv> esc_only 0 s"

lemma esc_only_append: "esc_only m a \<Longrightarrow> esc_only n b \<Longrightarrow> esc_only (m + n) (a @ b)"
  by (simp add: esc_only_def controls_def is_str_append chars_append replicate_add)

lemma inert_append [intro]: "inert a \<Longrightarrow> inert b \<Longrightarrow> inert (a @ b)"
  using esc_only_append [of 0 a 0 b] by simp

lemma inert_chars: "inert s \<longleftrightarrow> (\<forall>c \<in> set (chars s). is_char c \<and> kept c)"
  by (auto simp: esc_only_def controls_def is_str_chars filter_empty_conv)

lemma inert_concat: "\<forall>c \<in> set cs. is_char c \<and> kept c \<Longrightarrow> inert (concat cs)"
  by (simp add: inert_chars chars_concat)

definition printable :: "char \<Rightarrow> bool" where
  "printable c \<longleftrightarrow> (32 \<le> (of_char c :: nat) \<and> (of_char c :: nat) < 127) \<or> (of_char c :: nat) = 10"

lemma inert_ascii:
  assumes "list_all printable s"
  shows "inert s"
proof -
  have ascii: "\<forall>c \<in> set s. (of_char c :: nat) < 128" using assms by (auto simp: list_all_iff printable_def)
  have "kept [c]" if "printable c" for c
  proof (cases "(of_char c :: nat) = 10")
    case True
    then have "(of_char c :: nat) = of_char (CHR 0x0A)" by simp
    then have "c = CHR 0x0A" by (rule of_char_eq_iff [THEN iffD1])
    then show ?thesis by (simp add: kept_def)
  next
    case False
    then show ?thesis using that by (simp add: kept_def is_control_def printable_def)
  qed
  then show ?thesis using assms ascii by (auto simp: inert_chars chars_ascii is_char_ascii list_all_iff)
qed

lemma inert_show_nat [intro]: "inert (show_nat n)"
  by (rule inert_ascii) (use show_nat_digits [of n] in \<open>auto simp: list_all_iff printable_def is_ascii_digit_def\<close>)

lemma inert_show_i32 [intro]: "inert (show_i32 n)"
proof -
  have "inert ''-''" by (rule inert_ascii) (simp add: printable_def)
  then have "inert (''-'' @ show_nat (nat (- sint n)))" by (rule inert_append) (rule inert_show_nat)
  then show ?thesis using inert_show_nat unfolding show_i32_def by (simp del: append_Cons)
qed

section \<open>The sanitiser\<close>

lemma sanitize_loop_shape:
  assumes "\<forall>c \<in> set chs. is_char c"
  shows "\<exists>k \<le> length chs. fst (sanitize_loop i out chs) = out @ concat (filter kept (take k chs))
    \<and> (snd (sanitize_loop i out chs) = None \<longleftrightarrow> k = length chs)"
  using assms
proof (induction chs arbitrary: i out)
  case (Cons ch chs)
  show ?case
  proof (cases "length out \<ge> MAX_UNTRUSTED_BYTES")
    case True
    then show ?thesis by (intro exI [of _ 0]) simp
  next
    case False
    let ?out = "if kept ch then out @ ch else out"
    obtain k where "k \<le> length chs" "fst (sanitize_loop (i + length ch) ?out chs) = ?out @ concat (filter kept (take k chs))"
        "snd (sanitize_loop (i + length ch) ?out chs) = None \<longleftrightarrow> k = length chs"
      using Cons.IH [of "i + length ch" ?out] Cons.prems by auto
    then show ?thesis using False by (intro exI [of _ "Suc k"]) simp
  qed
qed simp

lemma sanitize_loop_length:
  assumes "\<forall>c \<in> set chs. is_char c" and "length out < MAX_UNTRUSTED_BYTES + 4"
  shows "length (fst (sanitize_loop i out chs)) < MAX_UNTRUSTED_BYTES + 4"
  using assms
proof (induction chs arbitrary: i out)
  case (Cons ch chs)
  have "length ch \<le> 4" using Cons.prems(1) utf8_len_front [of "as_bytes ch" "length ch"] by (auto simp: is_char_def)
  then show ?case using Cons.IH Cons.prems by simp
qed simp

lemma sanitize_loop_total:
  assumes "length out + length (concat chs) \<le> MAX_UNTRUSTED_BYTES" and "\<forall>c \<in> set chs. is_char c"
  shows "sanitize_loop i out chs = (out @ concat (filter kept chs), None)"
  using assms
proof (induction chs arbitrary: i out)
  case (Cons ch chs)
  have "length ch > 0" using Cons.prems(2) by (simp add: is_char_def)
  then have "\<not> MAX_UNTRUSTED_BYTES \<le> length out" using Cons.prems(1) by (auto simp del: length_greater_0_conv)
  then show ?case using Cons by auto
qed simp

lemma inert_notice: "inert (truncation_notice n)"
  unfolding truncation_notice_def
  by (intro inert_append inert_show_nat) (rule inert_ascii, simp add: printable_def)+

lemma sanitize_inert: "is_str s \<Longrightarrow> inert (sanitize_untrusted s)"
proof -
  assume "is_str s"
  then have cs: "\<forall>c \<in> set (chars s). is_char c" by (simp add: is_str_chars)
  then obtain k where "fst (sanitize_loop 0 [] (chars s)) = concat (filter kept (take k (chars s)))"
    using sanitize_loop_shape [OF cs, of 0 "[]"] by auto
  moreover have "inert (concat (filter kept (take k (chars s))))"
    by (rule inert_concat) (use cs set_take_subset [of k "chars s"] in auto)
  ultimately have "inert (fst (sanitize_loop 0 [] (chars s)))" by simp
  then show ?thesis
    using inert_append [OF _ inert_notice] by (simp add: sanitize_untrusted_def split_beta split: option.splits)
qed

section \<open>Escapes in a rendered response\<close>

text \<open>The painted pieces of a response: what a trusted line and the two rims of a block count for.\<close>

definition painted :: "'r CtlResponse \<Rightarrow> nat" where
  "painted resp =
    (case resp of
       Task (CtlApprovalRequired _ _ _ _ _ _) \<Rightarrow> 4
     | Task (CtlExecuted _ _ stdout stderr) \<Rightarrow> 1 + (if stdout = [] then 0 else 2) + (if stderr = [] then 0 else 2)
     | _ \<Rightarrow> 1)"

text \<open>Strings on the wire are UTF-8; approval identifiers and digests are what the daemon made them,
  hexadecimal digits.\<close>

definition response_strings :: "string CtlResponse \<Rightarrow> string list" where
  "response_strings resp =
    (case resp of
       Pong \<Rightarrow> []
     | PolicyReloaded _ detail \<Rightarrow> [detail]
     | CtlErrorReply detail \<Rightarrow> [detail]
     | Task out \<Rightarrow>
        (case out of
           CtlAsked q \<Rightarrow> [q]
         | CtlRefused r \<Rightarrow> [r]
         | CtlDenied st r \<Rightarrow> [st, r]
         | CtlApprovalRequired _ _ exec r preview _ \<Rightarrow> [exec, r, preview]
         | CtlCompromised \<Rightarrow> []
         | CtlExecuted exec _ o1 o2 \<Rightarrow> [exec, o1, o2]))"

definition response_ids :: "string CtlResponse \<Rightarrow> string list" where
  "response_ids resp = (case resp of Task (CtlApprovalRequired i d _ _ _ _) \<Rightarrow> [i, d] | _ \<Rightarrow> [])"

lemma esc_only_paint:
  assumes "inert code" and "inert text'"
  shows "esc_only (if enabled p then 2 else 0) (paint p code text')"
proof -
  have esc: "esc_only 1 [ESC]"
    by (simp add: esc_only_def controls_def is_str_ascii chars_ascii ESC_def kept_def is_control_def)
  have "inert ''[''" "inert ''m''" "inert ''[0m''" by (rule inert_ascii, simp add: printable_def)+
  then have "esc_only (1 + (0 + (0 + (0 + (0 + (1 + 0)))))) ([ESC] @ ''['' @ code @ ''m'' @ text' @ [ESC] @ ''[0m'')"
    using assms esc by (intro esc_only_append)
  then show ?thesis using assms(2) by (simp add: paint_def numeral_2_eq_2)
qed

lemma inert_multibyte: "is_char c \<Longrightarrow> kept c \<Longrightarrow> inert c"
  using inert_concat [of "[c]"] by simp

lemma inert_prefix: "inert (block_prefix b)" and inert_color: "inert (block_color b)" and inert_dash: "inert dash"
    and inert_rule2: "inert rule2"
proof -
  have mb: "inert [CHR 0xE2, CHR 0x80, CHR 0xBA]" "inert [CHR 0xC2, CHR 0xB7]" "inert [CHR 0xE2, CHR 0x96, CHR 0xB8]"
      "inert [CHR 0xE2, CHR 0x9C, CHR 0x97]" "inert [CHR 0xE2, CHR 0x94, CHR 0x80]" "inert [CHR 0xE2, CHR 0x80, CHR 0x94]"
    by (rule inert_multibyte;
        simp add: is_char_def kept_def is_control_def utf8_len_def as_bytes_def byte_of_char_def in_range_def Let_def)+
  have asc: "inert '' ''" "inert '' action ''" "inert '' output ''" "inert ''?? ''" by (rule inert_ascii, simp add: printable_def)+
  show "inert dash" using mb(6) by (simp add: dash_def)
  show r: "inert rule2" using inert_append [OF mb(5) mb(5)] by (simp add: rule2_def)
  show "inert (block_prefix b)"
    using mb asc r by (cases b) (simp_all only: block_prefix_def Block.case inert_append)
  show "inert (block_color b)" by (cases b) (rule inert_ascii, simp add: printable_def block_color_def)+
qed

text \<open>The escapes of \<open>k\<close> painted pieces.\<close>

definition rims :: "Palette \<Rightarrow> nat \<Rightarrow> nat" where
  "rims p k = (if enabled p then 2 * k else 0)"

lemma esc_only_trusted: "inert s \<Longrightarrow> esc_only (rims p 1) (trusted_line p b s)"
  using esc_only_paint [OF inert_color inert_append [OF inert_prefix], of s p b b] by (simp add: trusted_line_def rims_def split: if_splits)

lemma esc_only_rims: "esc_only (rims p m) a \<Longrightarrow> esc_only (rims p n) b \<Longrightarrow> esc_only (rims p (m + n)) (a @ b)"
  using esc_only_append [of "rims p m" a "rims p n" b] by (simp add: rims_def split: if_splits)

lemma inert_rims: "inert s \<Longrightarrow> esc_only (rims p 0) s"
  by (simp add: rims_def)

lemma inert_newline: "inert [CHR 0x0A]"
  by (rule inert_ascii) (simp add: printable_def)

lemma esc_only_untrusted:
  assumes "is_str s" and "inert label"
  shows "esc_only (rims p 2) (untrusted_block p b label s)"
proof -
  have lit: "inert '' (untrusted ''" "inert '' shown inert)''" "inert '' end ''" by (rule inert_ascii, simp add: printable_def)+
  have "esc_only (rims p 1) (paint p (block_color b) (block_prefix b @ label @ '' (untrusted '' @ dash @ '' shown inert)''))"
    using esc_only_paint [OF inert_color, of "block_prefix b @ label @ '' (untrusted '' @ dash @ '' shown inert)''" p b]
      inert_append inert_prefix inert_dash lit assms(2) by (simp only: rims_def mult_1_right)
  moreover have "esc_only (rims p 1) (paint p (block_color b) (rule2 @ '' end '' @ rule2))"
    using esc_only_paint [OF inert_color, of "rule2 @ '' end '' @ rule2" p b] inert_append inert_rule2 lit
    by (simp only: rims_def mult_1_right)
  ultimately have "esc_only (rims p (1 + (0 + (0 + (0 + 1))))) (untrusted_block p b label s)"
    unfolding untrusted_block_def Let_def
    by (intro esc_only_rims inert_rims inert_newline sanitize_inert [OF assms(1)])
  then show ?thesis by (simp add: numeral_2_eq_2)
qed

lemma esc_only_optional:
  assumes "is_str s" and "inert label"
  shows "esc_only (rims p (if s = [] then 0 else 2)) (if s \<noteq> [] then [CHR 0x0A] @ untrusted_block p b label s else [])"
proof (cases "s = []")
  case True
  have "inert []" by (rule inert_ascii) simp
  then show ?thesis using True by (simp add: rims_def)
next
  case False
  then show ?thesis using esc_only_rims [OF inert_rims [OF inert_newline] esc_only_untrusted [OF assms], of p b] by (simp add: numeral_2_eq_2)
qed

lemma esc_only_outcome:
  assumes strs: "\<forall>s \<in> set (response_strings (Task out)). is_str s" and ids: "\<forall>i \<in> set (response_ids (Task out)). inert i"
  shows "esc_only (rims p (painted (Task out))) (render_outcome p out)"
proof -
  have san: "inert (sanitize_untrusted s)" if "s \<in> set (response_strings (Task out))" for s using that strs sanitize_inert by blast
  note parts = inert_append san inert_ascii inert_dash inert_show_i32
  show ?thesis
  proof (cases out)
    case (CtlAsked q)
    have "inert (''the model asks: '' @ sanitize_untrusted q)"
      by (intro parts) (simp_all add: CtlAsked response_strings_def printable_def)
    from esc_only_trusted [OF this] show ?thesis by (simp add: CtlAsked render_outcome_def painted_def)
  next
    case (CtlRefused r)
    have "inert (''declined: '' @ sanitize_untrusted r)"
      by (intro parts) (simp_all add: CtlRefused response_strings_def printable_def)
    from esc_only_trusted [OF this] show ?thesis by (simp add: CtlRefused render_outcome_def painted_def)
  next
    case (CtlDenied st r)
    have "inert (''denied at '' @ sanitize_untrusted st @ '': '' @ sanitize_untrusted r)"
      by (intro parts) (simp_all add: CtlDenied response_strings_def printable_def)
    from esc_only_trusted [OF this] show ?thesis by (simp add: CtlDenied render_outcome_def painted_def)
  next
    case (CtlApprovalRequired i d exec r preview two)
    have "inert (''APPROVAL REQUIRED '' @ dash @ '' '' @ sanitize_untrusted exec @ '': '' @ sanitize_untrusted r
        @ (if two then '' [TWO-PERSON RULE]'' else []))"
      by (intro parts) (simp_all add: CtlApprovalRequired response_strings_def printable_def)
    note header = esc_only_trusted [OF this, of p ApprovalBlock]
    have "inert (''/approve '' @ i @ '' '' @ d @ ''   |   /reject '' @ i)"
      using ids by (intro inert_append) (auto simp: CtlApprovalRequired response_ids_def printable_def intro: inert_ascii)
    note prompt = esc_only_trusted [OF this, of p ApprovalBlock]
    have "inert ''will run''" by (rule inert_ascii) (simp add: printable_def)
    then have body: "esc_only (rims p 2) (untrusted_block p ProposalBlock ''will run'' preview)"
      using strs by (intro esc_only_untrusted) (simp_all add: CtlApprovalRequired response_strings_def)
    have "esc_only (rims p (1 + (0 + (2 + (0 + 1))))) (render_outcome p out)"
      unfolding CtlApprovalRequired render_outcome_def CtlOutcome.case Let_def
      by (intro esc_only_rims inert_rims inert_newline header body prompt)
    then show ?thesis by (simp add: CtlApprovalRequired painted_def)
  next
    case CtlCompromised
    have "inert (''session aborted: the model leaked the canary (#3) '' @ dash
         @ '' treat this session as compromised and review the audit log'')"
      by (intro parts) (simp_all add: printable_def)
    from esc_only_trusted [OF this] show ?thesis by (simp add: CtlCompromised render_outcome_def painted_def)
  next
    case (CtlExecuted exec code o1 o2)
    have "inert (sanitize_untrusted exec @ '' ran (exit '' @ show_i32 code @ '')'')"
      by (intro parts) (simp_all add: CtlExecuted response_strings_def printable_def)
    note header = esc_only_trusted [OF this, of p ProposalBlock]
    have "inert ''stdout''" "inert ''stderr''" by (rule inert_ascii, simp add: printable_def)+
    then have "esc_only (rims p (1 + ((if o1 = [] then 0 else 2) + (if o2 = [] then 0 else 2)))) (render_outcome p out)"
      unfolding CtlExecuted render_outcome_def CtlOutcome.case
      using strs by (intro esc_only_rims header esc_only_optional) (simp_all add: CtlExecuted response_strings_def)
    then show ?thesis by (simp add: CtlExecuted painted_def)
  qed
qed

section \<open>Properties\<close>

text \<open>What the sanitiser lets through.  Of any string it keeps, in order, characters that are printable,
  newline or tab, and no others; the result is bounded by 64 KiB, one character and the notice;
  and a string of at most 64 KiB loses nothing but its control characters.\<close>

theorem sanitize_keeps_printable:
  assumes "is_str s"
  shows "(\<forall>c \<in> set (chars (sanitize_untrusted s)). c = [CHR 0x0A] \<or> c = [CHR 0x09] \<or> \<not> is_control c)
    \<and> (\<exists>n. length (sanitize_untrusted s) \<le> 64 * 1024 + 3 + length (truncation_notice n) \<and> n \<le> length s)
    \<and> (length s \<le> 64 * 1024 \<longrightarrow> sanitize_untrusted s = concat (filter (\<lambda>c. c = [CHR 0x0A] \<or> c = [CHR 0x09] \<or> \<not> is_control c) (chars s)))"
proof -
  have cs: "\<forall>c \<in> set (chars s). is_char c" using assms by (simp add: is_str_chars)
  have "\<forall>c \<in> set (chars (sanitize_untrusted s)). kept c" using sanitize_inert [OF assms] by (simp add: inert_chars)
  moreover have "\<exists>n. length (sanitize_untrusted s) \<le> 64 * 1024 + 3 + length (truncation_notice n) \<and> n \<le> length s"
  proof (cases "snd (sanitize_loop 0 [] (chars s))")
    case None
    then show ?thesis using sanitize_loop_length [OF cs, of "[]" 0]
      by (intro exI [of _ 0]) (simp add: sanitize_untrusted_def split_beta MAX_UNTRUSTED_BYTES_def)
  next
    case (Some at)
    then show ?thesis using sanitize_loop_length [OF cs, of "[]" 0]
      by (intro exI [of _ "length s - at"]) (simp add: sanitize_untrusted_def split_beta MAX_UNTRUSTED_BYTES_def)
  qed
  moreover have "sanitize_untrusted s = concat (filter kept (chars s))" if "length s \<le> 64 * 1024"
    using sanitize_loop_total [of "[]" "chars s" 0] that cs by (simp add: sanitize_untrusted_def MAX_UNTRUSTED_BYTES_def)
  ultimately show ?thesis unfolding kept_def by blast
qed

theorem sanitize_keeps_printable_witness:
  "sanitize_untrusted ([CHR ''o'', ESC] @ ''[2Jk'') = ''o[2Jk''"
proof -
  have "\<forall>c \<in> set ([CHR ''o'', ESC] @ ''[2Jk''). (of_char c :: nat) < 128" by (simp add: ESC_def)
  from is_str_ascii [OF this] chars_ascii [OF this] show ?thesis
    using sanitize_keeps_printable [of "[CHR ''o'', ESC] @ ''[2Jk''"] by (simp add: is_control_def ESC_def)
qed

text \<open>C32: no response can paint the operator's terminal.  Whatever the model, a command or an error
  message put into a response, its rendering is text whose only control characters besides
  newline and tab are the escapes that archangelctl itself prints around its own lines: two for
  each, a number that depends on the kind of response and not on its content, and none at all
  without colours.\<close>

theorem response_cannot_escape:
  assumes strs: "\<forall>s \<in> set (response_strings resp). is_str s"
    and ids: "\<forall>i \<in> set (response_ids resp). is_str i \<and> (\<forall>c \<in> set (chars i). \<not> is_control c)"
  shows "controls (render_response p resp) = replicate (if enabled p then 2 * painted resp else 0) [ESC]"
proof -
  have san: "inert (sanitize_untrusted s)" if "s \<in> set (response_strings resp)" for s using that strs sanitize_inert by blast
  have idn: "inert i" if "i \<in> set (response_ids resp)" for i
    using that ids by (auto simp: inert_chars is_str_chars kept_def)
  have lit: "inert s" if "list_all printable s" for s using that by (rule inert_ascii)
  note line = esc_only_trusted inert_append lit
  have "esc_only (rims p (painted resp)) (render_response p resp)"
  proof (cases resp)
    case Pong
    then show ?thesis using esc_only_trusted [OF lit] by (simp add: render_response_def painted_def printable_def)
  next
    case (PolicyReloaded ok detail)
    have "inert (''policy reload '' @ (if ok then ''ok'' else ''refused'') @ '': '' @ sanitize_untrusted detail)"
      by (intro inert_append san lit) (simp_all add: PolicyReloaded response_strings_def printable_def)
    from esc_only_trusted [OF this] show ?thesis by (simp add: PolicyReloaded render_response_def painted_def)
  next
    case (CtlErrorReply detail)
    have "inert (''daemon error: '' @ sanitize_untrusted detail)"
      by (intro inert_append san lit) (simp_all add: CtlErrorReply response_strings_def printable_def)
    from esc_only_trusted [OF this] show ?thesis by (simp add: CtlErrorReply render_response_def painted_def)
  next
    case (Task out)
    then show ?thesis using esc_only_outcome [of out p] san idn strs
      by (simp add: render_response_def)
  qed
  then show ?thesis by (simp add: esc_only_def rims_def)
qed

theorem response_cannot_escape_witness:
  "controls (render_response \<lparr> enabled = True \<rparr> (Task (CtlRefused ([ESC] @ ''[2J'')))) = [[ESC], [ESC]]
    \<and> controls (render_response \<lparr> enabled = False \<rparr> (Task (CtlApprovalRequired ''00'' ''ff'' ''x'' [ESC] ''y'' True))) = []"
proof -
  have a: "is_str ([ESC] @ ''[2J'')" "is_str ''x''" "is_str ''y''" "is_str ''00''" "is_str ''ff''" "is_str [ESC]"
    by (rule is_str_ascii, simp add: ESC_def)+
  have c: "chars ''00'' = [''0'', ''0'']" "chars ''ff'' = [''f'', ''f'']" by (simp_all add: chars_ascii)
  show ?thesis
    using response_cannot_escape [of "Task (CtlRefused ([ESC] @ ''[2J''))" "\<lparr> enabled = True \<rparr>"]
      response_cannot_escape [of "Task (CtlApprovalRequired ''00'' ''ff'' ''x'' [ESC] ''y'' True)" "\<lparr> enabled = False \<rparr>"] a
    by (simp add: response_strings_def response_ids_def painted_def c is_control_def numeral_2_eq_2)
qed

section \<open>What the sanitiser does not cover\<close>

text \<open>A newline is kept, so untrusted text inside a trusted line can start a line of its own that looks like an
  approval prompt.\<close>

lemma newline_spoofs_chrome:
  assumes "inert s" and "length s < 65000"
  shows "\<exists>first. render_response \<lparr> enabled = False \<rparr> (Task (CtlRefused ([CHR 0x0A] @ trusted_line \<lparr> enabled = False \<rparr> ApprovalBlock s)))
    = first @ [CHR 0x0A] @ trusted_line \<lparr> enabled = False \<rparr> ApprovalBlock s"
proof -
  let ?t = "[CHR 0x0A] @ block_prefix ApprovalBlock @ s"
  have "inert ?t" by (intro inert_append inert_newline inert_prefix assms(1))
  then have "sanitize_untrusted ?t = concat (chars ?t)"
    using sanitize_loop_total [of "[]" "chars ?t" 0] assms(2)
    by (simp add: sanitize_untrusted_def MAX_UNTRUSTED_BYTES_def inert_chars block_prefix_def filter_True)
  then show ?thesis by (simp add: render_response_def render_outcome_def trusted_line_def paint_def)
qed

text \<open>A line of the audit log that does not parse is reported with the parser's message as it is, so an
  escape in the message reaches the terminal.\<close>

lemma parser_message_unsanitised:
  "sh_entry_from_slice S line = Inl e \<Longrightarrow> \<exists>pre. render_entry S \<lparr> enabled = False \<rparr> n line = pre @ e"
  by (simp add: render_entry_def trusted_line_def paint_def)

end
