(* ===== verification/Operator_Cli.thy ===== *)
theory Operator_Cli
  imports Operator_Tool Terminal
begin

text \<open>
  The commands of the operator's tool around the wizard and the session: the preflight
  (\<open>archangelctl/src/doctor.rs\<close>), and \<open>do_setup\<close>, \<open>one_shot\<close> and \<open>do_egress_sync\<close> of \<open>archangelctl/src/main.rs\<close>.  Name
  resolution is a parameter; addresses print as \<open>std::net\<close> prints them.
\<close>

section \<open>Preflight\<close>

datatype Severity = Pass | Warn | Fail

record Check =
  ck_name :: string
  ck_severity :: Severity
  ck_detail :: string

type_synonym Report = "Check list"

definition report_is_ok :: "Report \<Rightarrow> bool" where
  "report_is_ok r \<longleftrightarrow> \<not> list_ex (\<lambda>c. ck_severity c = Fail) r"

definition severity_block :: "Severity \<Rightarrow> Block" where
  "severity_block s = (case s of Pass \<Rightarrow> StatusBlock | Warn \<Rightarrow> ProposalBlock | Fail \<Rightarrow> ErrorBlock)"

definition severity_tag :: "Severity \<Rightarrow> string" where
  "severity_tag s = (case s of Pass \<Rightarrow> ''PASS'' | Warn \<Rightarrow> ''WARN'' | Fail \<Rightarrow> ''FAIL'')"

definition report_render :: "Palette \<Rightarrow> Report \<Rightarrow> string" where
  "report_render p r =
    concat (map (\<lambda>c. trusted_line p (severity_block (ck_severity c))
      (''['' @ severity_tag (ck_severity c) @ ''] '' @ pad_right 22 (ck_name c) @ '' '' @ ck_detail c) @ nl) r)
    @ trusted_line p (if report_is_ok r then StatusBlock else ErrorBlock)
        (if report_is_ok r then ''host looks ready (review any WARN lines)''
         else ''host is NOT ready '' @ dash @ '' resolve every FAIL before running archangel'')"

definition kernel_major_minor :: "string \<Rightarrow> (u32 \<times> u32) option" where
  "kernel_major_minor release =
    (let parts = concat (map (split_char CHR ''-'') (split_char CHR ''.'' release)) in
     Option.bind (Option.bind (get 0 parts) parse_u32) (\<lambda>major.
     Option.bind (Option.bind (get 1 parts) parse_u32) (\<lambda>minor. Some (major, minor))))"

text \<open>The probes of the live system.\<close>

record HostProbe =
  hp_read :: "string \<Rightarrow> (string, string) result"
  hp_exists :: "string \<Rightarrow> bool"
  hp_is_dir :: "string \<Rightarrow> bool"

definition check_kernel :: "HostProbe \<Rightarrow> Check" where
  "check_kernel H =
    (case hp_read H ''/proc/sys/kernel/osrelease'' of
       Inr rel \<Rightarrow>
        (case kernel_major_minor (trim rel) of
           Some (maj, min') \<Rightarrow>
             if maj > 5 \<or> maj = 5 \<and> min' \<ge> 10
             then \<lparr> ck_name = ''kernel'', ck_severity = Pass, ck_detail = trim rel @ '' (>= 5.10)'' \<rparr>
             else \<lparr> ck_name = ''kernel'', ck_severity = Fail,
               ck_detail = show_nat (unat maj) @ ''.'' @ show_nat (unat min') @ '' < 5.10 (seccomp v2 / userns requirements)'' \<rparr>
         | None \<Rightarrow> \<lparr> ck_name = ''kernel'', ck_severity = Warn, ck_detail = ''could not parse kernel version'' \<rparr>)
     | Inl e \<Rightarrow> \<lparr> ck_name = ''kernel'', ck_severity = Warn, ck_detail = ''unknown: '' @ e \<rparr>)"

definition check_userns :: "HostProbe \<Rightarrow> Check" where
  "check_userns H =
    (case hp_read H ''/proc/sys/kernel/unprivileged_userns_clone'' of
       Inr v \<Rightarrow>
        if trim v = ''1'' then \<lparr> ck_name = ''user namespaces'', ck_severity = Pass, ck_detail = ''unprivileged userns enabled'' \<rparr>
        else \<lparr> ck_name = ''user namespaces'', ck_severity = Warn,
          ck_detail = ''unprivileged userns disabled '' @ dash @ '' sandbox (v0.2) will need adjustment'' \<rparr>
     | Inl _ \<Rightarrow> \<lparr> ck_name = ''user namespaces'', ck_severity = Warn,
         ck_detail = ''cannot determine userns policy (kernel default assumed)'' \<rparr>)"

definition diagnose :: "HostProbe \<Rightarrow> string \<Rightarrow> string \<Rightarrow> Report" where
  "diagnose H etc_dir operator_key' =
    [check_kernel H,
     if hp_exists H ''/sys/fs/cgroup/cgroup.controllers''
     then \<lparr> ck_name = ''cgroup v2'', ck_severity = Pass, ck_detail = ''unified hierarchy present'' \<rparr>
     else \<lparr> ck_name = ''cgroup v2'', ck_severity = Fail,
       ck_detail = ''/sys/fs/cgroup/cgroup.controllers missing (per-action limits need cgroup v2)'' \<rparr>,
     if hp_exists H ''/run/systemd/system''
     then \<lparr> ck_name = ''systemd'', ck_severity = Pass, ck_detail = ''booted with systemd'' \<rparr>
     else \<lparr> ck_name = ''systemd'', ck_severity = Warn,
       ck_detail = ''not a systemd boot '' @ dash @ '' units won\\'t manage the daemons'' \<rparr>,
     check_userns H,
     if hp_is_dir H etc_dir then \<lparr> ck_name = ''config dir'', ck_severity = Pass, ck_detail = etc_dir @ '' present'' \<rparr>
     else \<lparr> ck_name = ''config dir'', ck_severity = Fail, ck_detail = etc_dir @ '' missing'' \<rparr>,
     if hp_exists H operator_key' then \<lparr> ck_name = ''operator key'', ck_severity = Pass, ck_detail = operator_key' @ '' present'' \<rparr>
     else \<lparr> ck_name = ''operator key'', ck_severity = Fail,
       ck_detail = operator_key' @ '' missing '' @ dash @ '' run `archangelctl init`'' \<rparr>]"

section \<open>Requests\<close>

type_synonym ExitCode = byte

definition make_client :: "(string \<Rightarrow> byte list option) \<Rightarrow> string \<Rightarrow> (ExitCode, CtlClient) result" where
  "make_client read secret = (case load_operator_key read secret of Inr k \<Rightarrow> Inr (client_new k) | Inl _ \<Rightarrow> Inl 1)"

definition one_shot :: "(CtlClient \<Rightarrow> CtlRequest \<Rightarrow> ('e, string CtlResponse) result) \<Rightarrow> Palette \<Rightarrow> CtlClient \<Rightarrow> CtlRequest \<Rightarrow> string \<times> ExitCode" where
  "one_shot request p c req =
    (case request c req of Inr resp \<Rightarrow> (render_response p resp @ nl, 0) | Inl _ \<Rightarrow> ([], 1))"

section \<open>Set-up with its environment file\<close>

fun split_once :: "char \<Rightarrow> string \<Rightarrow> (string \<times> string) option" where
  "split_once c [] = None"
| "split_once c (x # xs) = (if x = c then Some ([], xs) else map_option (\<lambda>(a, b). (x # a, b)) (split_once c xs))"

definition token_from_file :: "(string \<Rightarrow> byte list option) \<Rightarrow> string \<Rightarrow> string option" where
  "token_from_file read path =
    map_option (\<lambda>raw. let t = trim raw in case split_once CHR ''='' t of Some (_, v) \<Rightarrow> trim v | None \<Rightarrow> t)
      (read_to_string read path)"

definition write_env_file :: "FileEnv \<Rightarrow> string \<Rightarrow> string list \<Rightarrow> (FileError, unit) io" where
  "write_env_file F path lines = fs_overwrite F path 0x180 (as_bytes (concat (map (\<lambda>l. l @ nl) lines)))"

text \<open>What the process sees: \<open>SUDO_UID\<close>, \<open>/proc/self/status\<close>, \<open>/etc/passwd\<close>, and the line typed at the
  hidden prompt if standard input is a terminal that could be read.\<close>

record SetupInputs =
  si_sudo_uid :: "string option"
  si_proc_status :: "string option"
  si_passwd :: "string option"
  si_tty_line :: "string option"

definition nonempty :: "string option \<Rightarrow> string option" where
  "nonempty t = (case t of Some s \<Rightarrow> if s = [] then None else Some s | None \<Rightarrow> None)"

definition env_lines :: "SetupInputs \<Rightarrow> (string \<Rightarrow> byte list option) \<Rightarrow> string \<Rightarrow> string option \<Rightarrow> string option \<Rightarrow> string list" where
  "env_lines I read backend ollama_url token_file =
    (let token = (case token_file of
           None \<Rightarrow> nonempty (map_option trim (si_tty_line I))
         | Some tf \<Rightarrow> nonempty (token_from_file read tf)) in
     (if backend = ''anthropic'' then (case token of Some t \<Rightarrow> [''ARCHANGEL_LLM_TOKEN='' @ t] | None \<Rightarrow> []) else [])
     @ (case ollama_url of Some url \<Rightarrow> [''ARCHANGEL_OLLAMA_URL='' @ url] | None \<Rightarrow> []))"

definition do_setup ::
  "SetupWorld \<Rightarrow> SetupInputs \<Rightarrow> string \<Rightarrow> string \<Rightarrow> u32 option \<Rightarrow> u32 option \<Rightarrow> string option \<Rightarrow> string option \<Rightarrow> disk \<Rightarrow> disk \<times> ExitCode"
where
  "do_setup S I etc backend operator_uid daemon_uid ollama_url token_file d =
    (case (case operator_uid of Some u \<Rightarrow> Some u | None \<Rightarrow> detect_operator_uid (si_sudo_uid I) (si_proc_status I)) of
       None \<Rightarrow> (d, 1)
     | Some op_uid \<Rightarrow>
        let dmn_uid = unwrap_or op_uid (case daemon_uid of Some u \<Rightarrow> Some u | None \<Rightarrow> detect_daemon_uid (si_passwd I));
            opts = \<lparr> so_etc = etc, so_backend = backend, so_operator_uid = op_uid, so_daemon_uid = dmn_uid, so_ollama_url = ollama_url \<rparr> in
        case setup_run S opts d of
          (d1, Inl _) \<Rightarrow> (d1, 1)
        | (d1, Inr _) \<Rightarrow>
           let lines = env_lines I (fs_read (sw_files S) d1) backend ollama_url token_file in
           if lines = [] then (d1, 0) else (fst (write_env_file (sw_files S) (path_join etc ''llm.env'') lines d1), 0))"

section \<open>Addresses\<close>

datatype IpAddr = V4 "32 word" | V6 "128 word"

text \<open>The derived order: all of V4 before V6, each by its octets.\<close>

definition ip_rank :: "IpAddr \<Rightarrow> nat" where
  "ip_rank a = (case a of V4 w \<Rightarrow> unat w | V6 w \<Rightarrow> 2 ^ 32 + unat w)"

lemma ip_rank_inject: "ip_rank a = ip_rank b \<longleftrightarrow> a = b"
proof -
  have "unat (w :: 32 word) < 2 ^ 32" for w using unat_lt2p [of w] by simp
  then have "unat (w :: 32 word) \<noteq> 2 ^ 32 + n" for w n by (metis not_add_less1)
  from this this [symmetric] show ?thesis by (cases a; cases b) (simp_all add: ip_rank_def word_unat_eq_iff)
qed

instantiation IpAddr :: linorder
begin

definition less_eq_IpAddr :: "IpAddr \<Rightarrow> IpAddr \<Rightarrow> bool" where
  "less_eq_IpAddr a b \<longleftrightarrow> ip_rank a \<le> ip_rank b"

definition less_IpAddr :: "IpAddr \<Rightarrow> IpAddr \<Rightarrow> bool" where
  "less_IpAddr a b \<longleftrightarrow> ip_rank a < ip_rank b"

instance
  by standard (auto simp: less_eq_IpAddr_def less_IpAddr_def ip_rank_inject [symmetric])

end

definition octets :: "32 word \<Rightarrow> nat list" where
  "octets w = map (\<lambda>i. unat (drop_bit i w) mod 256) [24, 16, 8, 0]"

definition hextets :: "128 word \<Rightarrow> nat list" where
  "hextets w = map (\<lambda>i. unat (drop_bit i w) mod 65536) [112, 96, 80, 64, 48, 32, 16, 0]"

definition show_v4 :: "nat list \<Rightarrow> string" where
  "show_v4 os = join_with ''.'' (map show_nat os)"

fun show_hex :: "nat \<Rightarrow> string" where
  "show_hex n = (if n < 16 then [unwrap_or CHR ''0'' (from_digit16 n)] else show_hex (n div 16) @ [unwrap_or CHR ''0'' (from_digit16 (n mod 16))])"

declare show_hex.simps [simp del]

text \<open>The first longest run of zero segments, as start and length.\<close>

fun zero_span :: "nat \<Rightarrow> nat \<times> nat \<Rightarrow> nat \<times> nat \<Rightarrow> nat list \<Rightarrow> nat \<times> nat" where
  "zero_span i cur best [] = best"
| "zero_span i (s, n) (bs, bn) (seg # rest) =
    (if seg = 0 then
       let cur = (if n = 0 then i else s, n + 1) in
       zero_span (i + 1) cur (if n + 1 > bn then cur else (bs, bn)) rest
     else zero_span (i + 1) (0, 0) (bs, bn) rest)"

definition show_v6 :: "nat list \<Rightarrow> string" where
  "show_v6 segs =
    (if take 6 segs = [0, 0, 0, 0, 0, 0xFFFF]
     then ''::ffff:'' @ show_v4 [segs ! 6 div 256, segs ! 6 mod 256, segs ! 7 div 256, segs ! 7 mod 256]
     else
     let (start, n) = zero_span 0 (0, 0) (0, 0) segs; part = (\<lambda>xs. join_with '':'' (map show_hex xs)) in
     if n > 1 then part (take start segs) @ ''::'' @ part (drop (start + n) segs) else part segs)"

definition ip_display :: "IpAddr \<Rightarrow> string" where
  "ip_display a = (case a of V4 w \<Rightarrow> show_v4 (octets w) | V6 w \<Rightarrow> show_v6 (hextets w))"

text \<open>A literal address.  An allowlisted host has no colon, so only the dotted form can be one.\<close>

definition parse_octet :: "string \<Rightarrow> nat option" where
  "parse_octet s =
    (if s = [] \<or> length s > 3 \<or> length s > 1 \<and> hd s = CHR ''0'' then None
     else Option.bind (dec_value 0 s) (\<lambda>n. if n \<le> 255 then Some n else None))"

definition parse_ip :: "string \<Rightarrow> IpAddr option" where
  "parse_ip s =
    (case map parse_octet (split_char CHR ''.'' s) of
       [Some a, Some b, Some c, Some e] \<Rightarrow> Some (V4 (of_nat (((a * 256 + b) * 256 + c) * 256 + e)))
     | _ \<Rightarrow> None)"

section \<open>The kernel's allowlist\<close>

definition resolve_host :: "(string \<Rightarrow> IpAddr list option) \<Rightarrow> IpAddr list \<times> bool \<Rightarrow> string \<Rightarrow> IpAddr list \<times> bool" where
  "resolve_host dns acc host =
    (case acc of (ips, failed) \<Rightarrow>
     case parse_ip host of
       Some ip \<Rightarrow> (ips @ [ip], failed)
     | None \<Rightarrow>
        (case dns host of
           Some addrs \<Rightarrow> (ips @ addrs, failed \<or> addrs = [])
         | None \<Rightarrow> (ips, True)))"

definition do_egress_sync ::
  "FileEnv \<Rightarrow> (string \<Rightarrow> (string, Config) result) \<Rightarrow> (string \<Rightarrow> IpAddr list option) \<Rightarrow> bool \<Rightarrow> string \<Rightarrow> bool \<Rightarrow> string
    \<Rightarrow> disk \<Rightarrow> disk \<times> string \<times> ExitCode"
where
  "do_egress_sync F toml dns mkdir_ok config write dropin d =
    (case config_load (read_to_string (fs_read F d)) toml config of
       Inl _ \<Rightarrow> (d, [], 1)
     | Inr cfg \<Rightarrow>
    (case to_policy (cfg_egress cfg) of
       Inl _ \<Rightarrow> (d, [], 1)
     | Inr policy \<Rightarrow>
       if allow_all policy then (d, [], 1)
       else
       let (ips, failed) = foldl (resolve_host dns) ([], False) (hosts policy);
           content = render_systemd_dropin (map ip_display (remdups_adj (sort ips))) in
       if \<not> write then (d, content, 0)
       else if \<not> mkdir_ok then (d, [], 1)
       else
       case fs_overwrite F dropin 0x1B6 (as_bytes content) d of
         (d1, Inl _) \<Rightarrow> (d1, [], 1)
       | (d1, Inr _) \<Rightarrow>
          (d1, ''wrote '' @ dropin @ nl @ ''apply with: sudo systemctl daemon-reload && sudo systemctl restart archangeld'' @ nl,
           if failed then 2 else 0)))"

section \<open>The command line\<close>

datatype Command =
    Setup string string "u32 option" "u32 option" "string option" "string option"
  | Init string string
  | BundleSign string string
  | Doctor string string
  | AuditTail string string
  | Session string
  | PingDaemon string
  | PolicyReload string
  | EgressSync string bool string

text \<open>What the commands meet: \<open>cw_request\<close> is the control socket of \<open>client.rs\<close>, \<open>cw_lines\<close> what is typed at the
  session's prompt, up to the end of the input, or to a read that fails.\<close>

record CliWorld =
  cw_setup :: SetupWorld
  cw_inputs :: SetupInputs
  cw_probe :: HostProbe
  cw_dns :: "string \<Rightarrow> IpAddr list option"
  cw_mkdir_ok :: bool
  cw_request :: "CtlClient \<Rightarrow> CtlRequest \<Rightarrow> string CtlResponse option"
  cw_lines :: "string list"
  cw_input_ok :: bool

fun session_exit :: "bool \<Rightarrow> string list \<Rightarrow> ExitCode" where
  "session_exit ok [] = (if ok then 0 else 1)"
| "session_exit ok (line # rest) = (if repl_line None line = Quit then 0 else session_exit ok rest)"

definition with_client :: "CliWorld \<Rightarrow> string \<Rightarrow> (CtlClient \<Rightarrow> ExitCode) \<Rightarrow> disk \<Rightarrow> disk \<times> ExitCode" where
  "with_client W secret f d =
    (d, case make_client (fs_read (sw_files (cw_setup W)) d) secret of Inr c \<Rightarrow> f c | Inl code \<Rightarrow> code)"

definition ctl_main :: "CliWorld \<Rightarrow> Palette \<Rightarrow> Command \<Rightarrow> disk \<Rightarrow> disk \<times> ExitCode" where
  "ctl_main W p cmd d =
    (let S = cw_setup W; F = sw_files S; C = sw_crypto S;
         status = (\<lambda>(d1, r). (d1, if is_ok r then 0 else 1));
         request = (\<lambda>c req. ok_or () (cw_request W c req)) in
     case cmd of
       Setup etc backend ou du url tf \<Rightarrow> do_setup S (cw_inputs W) etc backend ou du url tf d
     | Init secret public \<Rightarrow> status (init_operator_key C F (sw_seed S) secret public d)
     | BundleSign manifest secret \<Rightarrow> status (sign_bundle C F secret manifest d)
     | Doctor etc key \<Rightarrow> (d, if report_is_ok (diagnose (cw_probe W) etc key) then 0 else 2)
     | AuditTail log key \<Rightarrow> (d, case fs_read F d log of Some _ \<Rightarrow> 0 | None \<Rightarrow> 1)
     | Session secret \<Rightarrow> with_client W secret (\<lambda>_. session_exit (cw_input_ok W) (cw_lines W)) d
     | PingDaemon secret \<Rightarrow> with_client W secret (\<lambda>c. snd (one_shot request p c Ping)) d
     | PolicyReload secret \<Rightarrow> with_client W secret (\<lambda>c. snd (one_shot request p c ReloadPolicy)) d
     | EgressSync config write dropin \<Rightarrow>
         (case do_egress_sync F (sw_toml_config S) (cw_dns W) (cw_mkdir_ok W) config write dropin d of (d1, _, code) \<Rightarrow> (d1, code)))"

text \<open>\<open>archangel\<close> becomes \<open>archangelctl\<close> with its own arguments; \<open>exec\<close> is the outcome of the replacement, \<open>None\<close> if it failed.\<close>

definition launch :: "(string \<Rightarrow> string list \<Rightarrow> ExitCode option) \<Rightarrow> string list \<Rightarrow> ExitCode" where
  "launch exec argv = unwrap_or 127 (exec ''archangelctl'' (drop 1 argv))"

section \<open>What the preflight reports\<close>

lemma report_is_ok_iff: "report_is_ok r \<longleftrightarrow> (\<forall>c \<in> set r. ck_severity c \<noteq> Fail)"
  by (auto simp: report_is_ok_def list_ex_iff)

lemma check_severities:
  "ck_severity (check_kernel H) = Fail \<longleftrightarrow> (\<exists>rel maj min'. hp_read H ''/proc/sys/kernel/osrelease'' = Inr rel
    \<and> kernel_major_minor (trim rel) = Some (maj, min') \<and> (maj < 5 \<or> maj = 5 \<and> min' < 10))"
  "ck_severity (check_userns H) \<noteq> Fail"
  by (auto simp: check_kernel_def check_userns_def not_le split: sum.splits option.splits)

text \<open>The host is ready exactly when the control groups, the configuration directory and the operator's
  key are there and the kernel is not known to be older than 5.10.\<close>

lemma diagnose_ok_iff:
  "report_is_ok (diagnose H etc key) \<longleftrightarrow>
    hp_exists H ''/sys/fs/cgroup/cgroup.controllers'' \<and> hp_is_dir H etc \<and> hp_exists H key
    \<and> \<not> (\<exists>rel maj min'. hp_read H ''/proc/sys/kernel/osrelease'' = Inr rel
        \<and> kernel_major_minor (trim rel) = Some (maj, min') \<and> (maj < 5 \<or> maj = 5 \<and> min' < 10))"
  unfolding report_is_ok_iff check_severities(1) [symmetric]
  using check_severities(2) [of H] by (auto simp: diagnose_def)

section \<open>The environment file\<close>

lemma split_once_Some: "split_once c s = Some (a, b) \<longleftrightarrow> s = a @ c # b \<and> c \<notin> set a"
proof (induction s arbitrary: a)
  case (Cons x xs)
  then show ?case by (cases a) auto
qed simp

text \<open>Set-up does not restrict an environment file that is there: the token is written into it under the
  permissions it has.\<close>

lemma env_file_keeps_mode:
  assumes "d p = Some (old, mode)" and "\<not> fe_open_fails F p" "fe_write_stops F p = None"
  shows "write_env_file F p lines d = (d(p \<mapsto> (as_bytes (concat (map (\<lambda>l. l @ nl) lines)), mode)), Inr ())"
  using assms by (simp add: write_env_file_def fs_overwrite_def fs_put_def)

text \<open>Apart from that file and the key file of the operators, set-up leaves alone what was there.\<close>

lemma do_setup_frame:
  assumes "d p \<noteq> None" and "p \<noteq> path_join etc ''llm.env''" "p \<noteq> path_join (path_join etc ''trust'') ''operators.pubkeys''"
  shows "fst (do_setup S I etc backend ou du url tf d) p = d p"
proof -
  have run: "d1 p = d p" if "setup_run S opts d = (d1, r)" "so_etc opts = etc" for opts d1 r
    using keepsD [where d = d, OF keeps_setup_run, of p opts S] assms that by simp
  have env: "fst (write_env_file F (path_join etc ''llm.env'') lines d1) p = d1 p" for F lines d1
    unfolding write_env_file_def using assms(2) by (rule fs_frame(3))
  show ?thesis
    by (auto simp: do_setup_def Let_def env split: option.split prod.split sum.split) (simp_all add: run)
qed

section \<open>The kernel's allowlist and the policy agree\<close>






lemma egress_sync_frame:
  "q \<noteq> dropin \<or> \<not> write \<Longrightarrow> fst (do_egress_sync F toml dns mkdir_ok config write dropin d) q = d q"
  using fs_frame(3) [of q dropin F]
  by (auto simp: do_egress_sync_def Let_def split: sum.split prod.split) (metis fst_conv)+















section \<open>What commands may change\<close>

text \<open>The files that a command may change when they are there.\<close>

definition may_rewrite :: "Command \<Rightarrow> string set" where
  "may_rewrite cmd =
    (case cmd of
       Setup etc _ _ _ _ _ \<Rightarrow> {path_join etc ''llm.env'', path_join (path_join etc ''trust'') ''operators.pubkeys''}
     | BundleSign manifest _ \<Rightarrow> {manifest @ ''.sig''}
     | EgressSync _ True dropin \<Rightarrow> {dropin}
     | _ \<Rightarrow> {})"

text \<open>No command overwrites an operator's key, a bundle, an allowlist, a configuration or a log: of the files
  that exist, each command changes at most the ones it is asked to rewrite, even if it fails.\<close>

lemma command_frame:
  assumes "d q \<noteq> None" and "q \<notin> may_rewrite cmd"
  shows "fst (ctl_main W p cmd d) q = d q"
proof (cases cmd)
  case (Setup etc backend ou du url tf)
  with assms show ?thesis by (simp add: ctl_main_def may_rewrite_def do_setup_frame)
next
  case (Init secret public)
  have "fst (init_operator_key C F seed secret public d) q = d q" for C F seed
    using assms(1) by (intro keepsD [OF keeps_init [where P = UNIV]]) simp_all
  with Init show ?thesis by (simp add: ctl_main_def Let_def split_beta)
next
  case (BundleSign manifest secret)
  with assms show ?thesis by (simp add: ctl_main_def Let_def may_rewrite_def sign_bundle_frame split_beta)
next
  case (EgressSync config wr dropin)
  with assms show ?thesis
    by (cases wr) (simp_all add: ctl_main_def Let_def may_rewrite_def split_beta egress_sync_frame)
qed (simp_all add: ctl_main_def with_client_def Let_def)

end
