(* ===== verification/Runner.thy ===== *)
theory Runner
  imports Executor
begin

text \<open>
  \<open>archangel-execd/src/sandbox.rs\<close>: the process runner.  The operating system is a parameter: how
  a command spawns, what \<open>try_wait\<close> answers and the clock shows at each poll, and what the two
  pipes deliver.  The wait loop is a partial function and a pipe that is never closed never
  ends its reader, so a run returns an option: \<open>None\<close> is a run that does not come back.
\<close>

section \<open>Capturing output\<close>

text \<open>One successful read of a chunk, then the loop until end of file or a read error.\<close>

definition take_chunk :: "nat \<Rightarrow> byte list \<times> bool \<Rightarrow> byte list \<Rightarrow> byte list \<times> bool" where
  "take_chunk cap st chunk =
    (let (buf, truncated) = st in
     if min usize_max (length buf + length chunk) > cap
     then (buf @ take (cap - length buf) chunk, True)
     else (buf @ chunk, truncated))"

definition read_capped :: "nat \<Rightarrow> byte list list \<Rightarrow> byte list \<times> bool" where
  "read_capped cap chunks = foldl (take_chunk cap) ([], False) chunks"

lemma take_chunk_prefix:
  assumes "cap < usize_max"
  shows "take_chunk cap (take cap bs, length bs > cap) chunk
    = (take cap (bs @ chunk), length (bs @ chunk) > cap)"
  using assms by (auto simp: take_chunk_def min_def)

lemma read_capped_prefix:
  assumes "cap < usize_max"
  shows "read_capped cap chunks = (take cap (concat chunks), length (concat chunks) > cap)"
proof -
  have "foldl (take_chunk cap) (take cap bs, length bs > cap) chunks
      = (take cap (bs @ concat chunks), length (bs @ concat chunks) > cap)" for bs
  proof (induction chunks arbitrary: bs)
    case (Cons c cs)
    show ?case using Cons.IH [of "bs @ c"] take_chunk_prefix [OF assms, of bs c] by simp
  qed simp
  from this [of "[]"] show ?thesis by (simp add: read_capped_def)
qed

section \<open>The child process\<close>

datatype Poll = Exited "32 word option" | Running | PollFailed

text \<open>\<open>pr_stdout\<close> and \<open>pr_stderr\<close> are the chunks read up to end of file, \<open>None\<close> when some process
  keeps the pipe open for ever.\<close>

record Proc =
  pr_pid :: u32
  pr_poll :: "nat \<Rightarrow> Poll"
  pr_clock :: "nat \<Rightarrow> instant"
  pr_stdout :: "byte list list option"
  pr_stderr :: "byte list list option"

record 'b Command =
  cmd_program :: string
  cmd_args :: "string list"
  cmd_env :: "(string \<times> string) list"
  cmd_sandbox :: "'b SandboxPlan option"

record 'b OS =
  os_started :: instant
  os_finished :: instant
  os_spawn :: "'b Command \<Rightarrow> (string, Proc) result"
  os_show :: "SandboxError \<Rightarrow> string"

definition dur_ms :: "instant \<Rightarrow> instant \<Rightarrow> u64" where
  "dur_ms started now =
    (let ms = (now - started) div 1000000 in if ms < 2 ^ 64 then of_nat ms else - 1)"

definition bash_command :: "'b RunContext \<Rightarrow> 'b Command" where
  "bash_command ctx =
    \<lparr> cmd_program = ''bash'', cmd_args = [''-c'', rc_script ctx],
      cmd_env = [(''PATH'', ''/usr/bin:/bin''), (''HOME'', ''/nonexistent''), (''LC_ALL'', ''C'')]
        @ map (\<lambda>(k, v). (''ARG_'' @ k, v)) (rc_args ctx),
      cmd_sandbox = rc_sandbox ctx \<rparr>"

text \<open>The poll loop returns whether the child was killed, and its exit status unless it was killed or lost.\<close>

partial_function (option) wait_loop ::
  "(nat \<Rightarrow> Poll) \<Rightarrow> (nat \<Rightarrow> instant) \<Rightarrow> instant \<Rightarrow> nat \<Rightarrow> (bool \<times> 32 word option option) option"
where
  "wait_loop poll clock deadline i =
    (case poll i of
       Exited s \<Rightarrow> Some (False, Some s)
     | Running \<Rightarrow> if deadline \<le> clock i then Some (True, None) else wait_loop poll clock deadline (Suc i)
     | PollFailed \<Rightarrow> Some (False, None))"

definition failed_run :: "'b OS \<Rightarrow> string \<Rightarrow> RunResult" where
  "failed_run os why =
    \<lparr> rr_exit_code = - 1, rr_duration_ms = dur_ms (os_started os) (os_finished os),
      rr_stdout = [], rr_stderr = why, rr_truncated = False \<rparr>"

definition collect_output :: "nat \<Rightarrow> byte list list option \<Rightarrow> (byte list \<times> bool) option" where
  "collect_output cap pipe = map_option (read_capped cap) pipe"

text \<open>The result comes with whether \<open>kill\<close> was called on the child.\<close>

definition bash_run ::
  "'b OS \<Rightarrow> CgroupKernel \<Rightarrow> CgroupFs \<Rightarrow> 'b RunContext \<Rightarrow> CgroupFs \<times> (bool \<times> RunResult) option"
where
  "bash_run os K fs ctx =
    (case os_spawn os (bash_command ctx) of
       Inl e \<Rightarrow> (fs, Some (False, failed_run os (''spawn failed: '' @ e)))
     | Inr child \<Rightarrow>
        let (fs1, enrolled) =
          (case rc_cgroup ctx of None \<Rightarrow> (fs, Inr ()) | Some cg \<Rightarrow> cgroup_add_pid K fs cg (pr_pid child)) in
        (fs1,
         case enrolled of
           Inl e \<Rightarrow> Some (True, failed_run os (''cgroup enrolment failed: '' @ os_show os e))
         | Inr _ \<Rightarrow>
            Option.bind (wait_loop (pr_poll child) (pr_clock child) (os_started os + rc_timeout ctx) 0) (\<lambda>(killed, status).
            Option.bind (collect_output (rc_max_output ctx) (pr_stdout child)) (\<lambda>(stdout, t1).
            Option.bind (collect_output (rc_max_output ctx) (pr_stderr child)) (\<lambda>(stderr, t2).
            Some (killed, \<lparr> rr_exit_code = unwrap_or (- 1) (Option.bind status id),
                   rr_duration_ms = dur_ms (os_started os) (os_finished os),
                   rr_stdout = from_utf8_lossy stdout, rr_stderr = from_utf8_lossy stderr,
                   rr_truncated = (t1 \<or> t2) \<rparr>))))))"

section \<open>The wait loop\<close>

text \<open>A poll that ends the loop, and the status it ends with.\<close>

definition ends_at :: "(nat \<Rightarrow> Poll) \<Rightarrow> (nat \<Rightarrow> instant) \<Rightarrow> instant \<Rightarrow> nat \<Rightarrow> bool" where
  "ends_at poll clock deadline i \<longleftrightarrow> poll i \<noteq> Running \<or> deadline \<le> clock i"

definition status_of :: "Poll \<Rightarrow> bool \<times> 32 word option option" where
  "status_of p = (case p of Exited s \<Rightarrow> (False, Some s) | Running \<Rightarrow> (True, None) | PollFailed \<Rightarrow> (False, None))"

lemma wait_loop_first:
  assumes "ends_at poll clock deadline n" and "\<And>m. i \<le> m \<Longrightarrow> m < n \<Longrightarrow> \<not> ends_at poll clock deadline m"
    and "i \<le> n"
  shows "wait_loop poll clock deadline i = Some (status_of (poll n))"
  using assms
proof (induction "n - i" arbitrary: i)
  case 0
  then have "i = n" by simp
  then show ?case
    using 0 by (subst wait_loop.simps) (auto simp: ends_at_def status_of_def split: Poll.splits)
next
  case (Suc k)
  then have n: "\<not> ends_at poll clock deadline i" by auto
  have "wait_loop poll clock deadline (Suc i) = Some (status_of (poll n))"
    using Suc by (intro Suc.hyps(1)) auto
  then show ?case
    using n by (subst wait_loop.simps) (auto simp: ends_at_def split: Poll.splits)
qed

lemma wait_loop_LEAST:
  assumes "ends_at poll clock deadline k"
  shows "wait_loop poll clock deadline 0 = Some (status_of (poll (LEAST n. ends_at poll clock deadline n)))"
  by (rule wait_loop_first) (use assms in \<open>auto intro: LeastI dest: not_less_Least\<close>)

lemma dur_ms_saturates: "unat (dur_ms started now) = min (2 ^ 64 - 1) ((now - started) div 1000000)"
proof (cases "(now - started) div 1000000 < 2 ^ 64")
  case True
  then show ?thesis by (simp add: dur_ms_def Let_def unat_of_nat min_def)
next
  case False
  then show ?thesis by (simp add: dur_ms_def Let_def unat_minus_one_word min_def)
qed

text \<open>A child that runs in its group to an end.\<close>

lemma bash_run_enrolled:
  assumes spawn: "os_spawn os (bash_command ctx) = Inr child"
    and enrol: "\<forall>cg. rc_cgroup ctx = Some cg \<longrightarrow> is_ok (snd (cgroup_add_pid K fs cg (pr_pid child)))"
    and ends: "ends_at (pr_poll child) (pr_clock child) (os_started os + rc_timeout ctx) k"
    and pipes: "pr_stdout child = Some out" "pr_stderr child = Some err"
    and cap: "rc_max_output ctx < usize_max"
  defines "last_poll \<equiv> pr_poll child (LEAST n. ends_at (pr_poll child) (pr_clock child) (os_started os + rc_timeout ctx) n)"
  shows "snd (bash_run os K fs ctx) = Some (last_poll = Running,
    \<lparr> rr_exit_code = (case last_poll of Exited (Some c) \<Rightarrow> c | _ \<Rightarrow> - 1), rr_duration_ms = dur_ms (os_started os) (os_finished os),
      rr_stdout = from_utf8_lossy (take (rc_max_output ctx) (concat out)), rr_stderr = from_utf8_lossy (take (rc_max_output ctx) (concat err)),
      rr_truncated = (length (concat out) > rc_max_output ctx \<or> length (concat err) > rc_max_output ctx) \<rparr>)"
proof -
  note w = wait_loop_LEAST [OF ends]
  have e: "\<exists>u. (case rc_cgroup ctx of None \<Rightarrow> (fs, Inr ()) | Some cg \<Rightarrow> cgroup_add_pid K fs cg (pr_pid child))
      = (u, Inr ())"
    using enrol by (auto simp: is_ok_iff prod_eq_iff split: option.splits)
  then show ?thesis
    using spawn w pipes unfolding last_poll_def
    by (auto simp: bash_run_def collect_output_def read_capped_prefix [OF cap] status_of_def unwrap_or_def
        split: Poll.splits option.splits)
qed

section \<open>Properties\<close>

text \<open>C21: a run comes back and reports what happened, on every path.  A child that cannot be spawned, or that cannot be put
  into its control group, is reported with exit code -1, no output and the reason, and in the second case it is killed.
  Otherwise, once the clock passes the deadline or the child ends, and both pipes are closed, the run returns: with
  the exit code of the child if it had exited by the first ending poll, with -1 if it ended by a signal or was
  lost, and with -1 after a kill exactly if the deadline passed while it was running; each stream is the lossy text of
  exactly the first \<open>max_output\<close> bytes written to it, and the truncation flag tells whether either stream had more.  The
  duration is always the time from the start in whole milliseconds, saturating at 64 bits.\<close>

theorem bash_run_outcome:
  assumes cap: "rc_max_output ctx < usize_max"
    and ends: "\<And>child. os_spawn os (bash_command ctx) = Inr child \<Longrightarrow>
      (\<exists>k. pr_poll child k \<noteq> Running \<or> os_started os + rc_timeout ctx \<le> pr_clock child k) \<and> pr_stdout child \<noteq> None \<and> pr_stderr child \<noteq> None"
  shows "\<exists>killed r. snd (bash_run os K fs ctx) = Some (killed, r)
    \<and> unat (rr_duration_ms r) = min (2 ^ 64 - 1) ((os_finished os - os_started os) div 1000000)
    \<and> (case os_spawn os (bash_command ctx) of
         Inl e \<Rightarrow> \<not> killed \<and> rr_exit_code r = - 1 \<and> rr_stdout r = [] \<and> rr_stderr r = ''spawn failed: '' @ e \<and> \<not> rr_truncated r
       | Inr child \<Rightarrow>
           (case map_option (\<lambda>cg. snd (cgroup_add_pid K fs cg (pr_pid child))) (rc_cgroup ctx) of
              Some (Inl e) \<Rightarrow> killed \<and> rr_exit_code r = - 1 \<and> rr_stdout r = [] \<and> rr_stderr r = ''cgroup enrolment failed: '' @ os_show os e
                \<and> \<not> rr_truncated r
            | _ \<Rightarrow>
                (let last_poll = pr_poll child (LEAST n. pr_poll child n \<noteq> Running \<or> os_started os + rc_timeout ctx \<le> pr_clock child n);
                     out = concat (the (pr_stdout child)); err = concat (the (pr_stderr child)) in
                 killed = (last_poll = Running)
                 \<and> rr_exit_code r = (case last_poll of Exited (Some c) \<Rightarrow> c | _ \<Rightarrow> - 1)
                 \<and> rr_stdout r = from_utf8_lossy (take (rc_max_output ctx) out)
                 \<and> rr_stderr r = from_utf8_lossy (take (rc_max_output ctx) err)
                 \<and> rr_truncated r = (length out > rc_max_output ctx \<or> length err > rc_max_output ctx))))"
proof (cases "os_spawn os (bash_command ctx)")
  case (Inl e)
  then show ?thesis by (intro exI [of _ False]) (simp add: bash_run_def failed_run_def dur_ms_saturates)
next
  case (Inr child)
  from ends [OF Inr] obtain k out err where c: "ends_at (pr_poll child) (pr_clock child) (os_started os + rc_timeout ctx) k"
      "pr_stdout child = Some out" "pr_stderr child = Some err" by (auto simp: ends_at_def)
  show ?thesis
  proof (cases "\<exists>cg e. rc_cgroup ctx = Some cg \<and> snd (cgroup_add_pid K fs cg (pr_pid child)) = Inl e")
    case True
    then show ?thesis using Inr by (auto simp: bash_run_def failed_run_def dur_ms_saturates split_beta Let_def)
  next
    case False
    then have "\<forall>cg. rc_cgroup ctx = Some cg \<longrightarrow> is_ok (snd (cgroup_add_pid K fs cg (pr_pid child)))"
      by (metis is_ok_iff old.sum.exhaust)
    note run = bash_run_enrolled [OF Inr this c cap]
    have "(LEAST n. pr_poll child n \<noteq> Running \<or> os_started os + rc_timeout ctx \<le> pr_clock child n)
        = (LEAST n. ends_at (pr_poll child) (pr_clock child) (os_started os + rc_timeout ctx) n)"
      by (simp add: ends_at_def)
    note least = this
    have "(case map_option (\<lambda>cg. snd (cgroup_add_pid K fs cg (pr_pid child))) (rc_cgroup ctx) of
        Some (Inl e) \<Rightarrow> bad e | _ \<Rightarrow> good) = good" for bad :: "SandboxError \<Rightarrow> bool" and good
      using False by (auto split: option.splits sum.splits)
    note ok = this
    show ?thesis
      unfolding run least ok Inr sum.case Let_def
      by (intro exI conjI) (rule refl | simp add: c(2,3) dur_ms_saturates)+
  qed
qed

definition sample_child :: Proc where
  "sample_child =
    \<lparr> pr_pid = 77, pr_poll = (\<lambda>_. Exited (Some 3)), pr_clock = (\<lambda>n. n),
      pr_stdout = Some [[104], [105, 10]], pr_stderr = Some [] \<rparr>"

definition sample_os :: "unit OS" where
  "sample_os =
    \<lparr> os_started = 0, os_finished = 5000000, os_spawn = (\<lambda>_. Inr sample_child), os_show = (\<lambda>_. []) \<rparr>"

definition sample_context :: "unit RunContext" where
  "sample_context =
    \<lparr> rc_script = ''echo hi; exit 3'', rc_args = [], rc_timeout = 1000000000, rc_max_output = 2,
      rc_sandbox = None, rc_cgroup = None \<rparr>"

theorem bash_run_outcome_witness:
  "\<exists>r. snd (bash_run sample_os (e_kernel (sample_env sample_manifest)) (w_cgroups sample_world) sample_context) = Some (False, r)
    \<and> rr_exit_code r = 3 \<and> rr_stdout r = from_utf8_lossy [104, 105] \<and> rr_truncated r \<and> unat (rr_duration_ms r) = 5"
proof -
  have spawn: "os_spawn sample_os (bash_command sample_context) = Inr sample_child"
    by (simp add: sample_os_def)
  have least: "(LEAST n. pr_poll sample_child n \<noteq> Running \<or> os_started sample_os + rc_timeout sample_context \<le> pr_clock sample_child n) = 0"
    by (rule Least_eq_0) (simp add: sample_child_def)
  have "\<And>child. os_spawn sample_os (bash_command sample_context) = Inr child \<Longrightarrow>
      (\<exists>k. pr_poll child k \<noteq> Running \<or> os_started sample_os + rc_timeout sample_context \<le> pr_clock child k)
      \<and> pr_stdout child \<noteq> None \<and> pr_stderr child \<noteq> None"
    by (simp add: spawn) (simp add: sample_child_def)
  from bash_run_outcome [of sample_context sample_os "e_kernel (sample_env sample_manifest)" "w_cgroups sample_world", OF _ this]
  show ?thesis
    unfolding spawn by (auto simp: least Let_def usize_max_def) (auto simp: sample_context_def sample_child_def sample_os_def)
qed

text \<open>The deadline stops the child, not the run: \<open>join\<close> waits for the end of the pipes.  If a
  process that inherited a pipe keeps it open, the run does not come back, whatever the child
  and the clock do.\<close>

theorem open_pipe_blocks_run:
  assumes "os_spawn os (bash_command ctx) = Inr child" and "rc_cgroup ctx = None"
    and "pr_stdout child = None"
  shows "snd (bash_run os K fs ctx) = None"
  using assms by (simp add: bash_run_def collect_output_def bind_eq_None_conv)

end
