(* ===== verification/Spec2Isabelle.thy ===== *)
theory Spec2Isabelle
  imports Whole_System In_Order Execd_Main Operator_Cli Runner
begin

text \<open>
  \<^bold>\<open>Archangel\<close> lets a language model propose actions on a machine and runs them only through a stack of
  gates.  Four parts work together (all paths below are under \<open>src/crates/\<close>).

    \<^item> The \<^emph>\<open>daemon\<close> \<open>archangeld\<close> asks the model, checks its proposal (signed bundle, arguments, policy), signs an
      execution request with a per-run session key, records everything in a signed hash chain, and holds
      actions that need a human until the operator approves them.
    \<^item> The \<^emph>\<open>executor\<close> \<open>archangel-execd\<close> trusts nothing the daemon claims: it authenticates each request, refuses
      replays, verifies the bundle again, applies the policy again, limits the rate, takes a recovery
      point, builds a sandbox and runs the payload.
    \<^item> The \<^emph>\<open>operator's tool\<close> \<open>archangelctl\<close> signs bundles and control requests, and shows replies and logs.
    \<^item> The \<^emph>\<open>monitor\<close>, inside the daemon, feeds matching log lines to the model without an operator.

  \<^bold>\<open>Theories and sources.\<close>

    \<^item> \<open>Prelude\<close>, \<open>Rust_Strings\<close>, \<open>Rust_Chars\<close>, \<open>Files\<close>: results, bytes, the parts of the Rust library that the sources call
      (strings are lists of UTF-8 bytes), and a disk with failing reads, partial writes and renames.
    \<^item> \<open>Core_Types\<close>: \<open>archangel-core\<close>.  \<open>Hex_Codec\<close>: the five copies of the hexadecimal codec.
    \<^item> \<open>Crypto_Lib\<close>: Ed25519 and SHA-256 as parameters.
    \<^item> \<open>Path_Norm\<close>, \<open>Denylist\<close>, \<open>Policy_Engine\<close>: \<open>archangel-policy\<close>.
    \<^item> \<open>Exec_Format\<close>: \<open>archangel-exec-format\<close> (manifests, trust store, verification, arguments).
    \<^item> \<open>Sandbox_Limits\<close>, \<open>Sandbox_Plan\<close>: \<open>archangel-sandbox\<close>.  \<open>Snapshot\<close>: \<open>archangel-snapshot\<close>.
    \<^item> \<open>Ipc\<close>: \<open>archangel-ipc\<close> and \<open>archangel-ctl\<close> (messages, signed envelopes, frames).
    \<^item> \<open>Replay_Guard\<close>, \<open>Rate_Limit\<close>, \<open>Executor\<close>, \<open>Runner\<close>, \<open>Execd_Server\<close>: \<open>archangel-execd\<close> (\<open>replay.rs\<close>, \<open>ratelimit.rs\<close>,
      \<open>handler.rs\<close>, \<open>sandbox.rs\<close>, \<open>main.rs\<close>), and the daemon's client to it (\<open>archangeld/src/transport.rs\<close>).
    \<^item> \<open>Egress\<close>, \<open>Config\<close>: \<open>archangel-egress\<close>, \<open>archangel-config\<close>.  \<open>Audit_Log\<close>: \<open>archangel-audit\<close>.
    \<^item> \<open>Prompt\<close>: \<open>archangeld/src/prompt.rs\<close>, \<open>response.rs\<close>, \<open>archangel-llm/src/types.rs\<close>.  \<open>Llm_Backend\<close>: the providers.
    \<^item> \<open>Orchestrator\<close>, \<open>Orchestrator_Safety\<close>: \<open>archangeld/src/session.rs\<close>, \<open>orchestrator.rs\<close>.  \<open>Ctl_Server\<close>: \<open>server.rs\<close>, the accept
      loop of \<open>main.rs\<close>, and \<open>archangelctl/src/client.rs\<close>.  \<open>Monitor\<close>: \<open>monitor.rs\<close>, \<open>autoloop.rs\<close>.
    \<^item> \<open>Daemon\<close>, \<open>Daemon_Safety\<close>: \<open>archangeld/src/main.rs\<close>, start-up and the two loops.
    \<^item> \<open>Execd_Main\<close>: \<open>main\<close> of \<open>archangel-execd\<close>, and a daemon and an executor started from one configuration.
    \<^item> \<open>Terminal\<close>: \<open>archangelctl/src/render.rs\<close>, \<open>view.rs\<close>, \<open>audit_view.rs\<close>.  \<open>Operator_Tool\<close>: \<open>keys.rs\<close>, \<open>setup.rs\<close>, the session of
      \<open>main.rs\<close>.  \<open>Operator_Cli\<close>: the other commands of \<open>main.rs\<close>, \<open>doctor.rs\<close>, and the launcher \<open>archangel/src/main.rs\<close>.
    \<^item> \<open>Agreement\<close>: what the executor ran and what the daemon sent and logged.  \<open>Whole_System\<close>: both programs and their peers as
      one step relation \<open>system_step\<close>.  \<open>In_Order\<close>: frames that arrive in the order they were sent.

  \<^bold>\<open>State and operations.\<close>  Each struct is a record and each enum a datatype with the source's fields and
  variants; an operation on \<open>&mut self\<close> takes the state and returns the new one beside a \<open>result\<close>, whose left
  side holds the errors.  Messages made with \<open>format!\<close> for people are values of small datatypes (one
  constructor for each place that makes one) unless the text matters, as for what is printed, written
  to a file or sent to the model.  Fixed-width integers are words; counters that saturate or wrap do so.
  The effects of the executor are an explicit trace in \<open>World\<close>, those of the daemon the trace \<open>o_trace\<close>,
  which records each log entry and each frame sent in order.  Lifetimes are step relations: \<open>orch_step\<close> for the
  orchestrator's calls and \<open>daemon_step\<close> for the interleaving of control connections and monitor alerts under
  the mutex that \<open>main.rs\<close> shares; the executor, which is serial, is the function \<open>serve_loop\<close> over connections.  \<open>system_step\<close>
  interleaves the daemon's steps with the executor's and keeps two histories, the operator's commands served and the
  requests run.  Where the source takes a trait object, the model takes a function: the runner and the snapshotter of the
  executor and the backend of the orchestrator.  \<open>Runner\<close>, \<open>Snapshot\<close> and \<open>Llm_Backend\<close> model the implementations that the programs
  pass; \<open>with_backend\<close> puts the daemon's backend in place.

  \<^bold>\<open>Parameters.\<close>  Code outside the repository is a field of a record that the definitions take: \<open>Crypto\<close>,
  \<open>MatchLib\<close> (globset and regex), codecs for CBOR, JSON and TOML, \<open>SeccompLib\<close>, \<open>CapsLib\<close>, \<open>LibC\<close>, \<open>CgroupKernel\<close>, \<open>OS\<close>,
  \<open>TriggerLib\<close>, the HTTP stack \<open>LlmLib\<close>, and the clock and randomness of each call.  Hypotheses about them are
  documented behaviour only: \<open>crypto_ok\<close> (a signature made with a key verifies under its public half; sizes),
  \<open>codec_ok\<close> and \<open>json_ok\<close> (decoding an encoding gives the value), \<open>match_lib_ok\<close> (a set of patterns
  reports, in order, exactly the members that match), \<open>seccomp_ok\<close> (the compiled filter does what its rules say), \<open>unforged\<close> (frames that verify under the
  session key were made with it).  Each is met by a concrete instance in the witnesses.

  \<^bold>\<open>What is shown.\<close>

    \<^item> \<^emph>\<open>The whole\<close>: under every interleaving, each run on the machine is that of a request which the daemon sent and logged, each request
      once, with the script of a signed bundle that the executor's gates cleared, and in interactive mode approved by a signed
      command of its own; what is approved in time runs, unless a gate that is named stops it (\<open>Whole_System\<close>, over \<open>Agreement\<close>); the running
      daemon stays within its orchestrator (\<open>Daemon_Safety\<close>); what arrives in order is not refused as forged or
      replayed (\<open>In_Order\<close>); programs started from one configuration agree on
      keys, trust, allowlist and mode (\<open>Execd_Main\<close>).
    \<^item> \<^emph>\<open>Executor\<close>: an action runs only past every gate; no request twice; bounded rate, over all connections;
      what a run reports, and that it ends when the deadline passes and the pipes close.
    \<^item> \<^emph>\<open>Daemon\<close>: a frame leaves only for a vetted action, directly after its log entry; approvals are bound,
      single-use and bounded; untrusted text stays fenced; replies of the model are bounded; start-up is
      safe, keys are published atomically and survive restarts; every request of the model channel is hardened; the log of
      every reachable state verifies as long as a failing append leaves no bytes behind.
    \<^item> \<^emph>\<open>Policy\<close>: exactly when an action is denied, allowed or needs approval; paths mean one canonical name.
    \<^item> \<^emph>\<open>Bundles and audit\<close>: exactly what verifies; round trips; a verified head commits to all entries.
    \<^item> \<^emph>\<open>Control plane, monitor, operator\<close>: only the operator's signed request acts; every complete log line is
      delivered once; the cooldown refines a complete history; what is printed cannot escape; key files
      fit; the wizard overwrites nothing and at most adds a line to a readable list of operators; the installed
      egress filter is the configured policy beside the loopback.

  Interfaces are locales, each interpreted on the model's own definitions: \<open>hex_decoder\<close> and \<open>hex_codec\<close> (five
  codecs), \<open>signed_envelope\<close> and \<open>framing\<close> (both boundaries), \<open>replay_guard\<close> (both guards), \<open>sliding_window\<close>,
  \<open>policy_gate\<close> and \<open>fenced_replacement\<close>.

  \<^bold>\<open>Loops.\<close>  All loops are total functions by structural or measured recursion, with one exception: the poll
  loop \<open>wait_loop\<close> of \<open>Runner\<close> ends only when the clock or the child allows, so it is a partial function, and
  \<open>bash_run_outcome\<close> shows when it returns.  No fuel is used.  Endless accept loops are modelled over the finite
  list of what has been accepted so far, and by reachability.

  \<^bold>\<open>Not modelled.\<close>  Sockets, threads, the async runtime and logging, beyond the values that cross them; the
  parsing of command lines by clap; what the tool prints beside the views, the preflight report and the drop-in;
  zeroing of secrets; timing side channels; the kernel's enforcement of a sandbox plan (the namespaces
  of a plan are recorded in it, as in the source).  Test utilities (\<open>testutil\<close> of \<open>archangel-snapshot\<close>, \<open>open_audit\<close>) and
  accessors that only read a field are left out.  \<open>src/book\<close>, \<open>src/WEB\<close> and the packaging are documentation and are
  not part of the programs.
\<close>

end
